(* ===== verification/Prelude.thy ===== *)
theory Prelude
  imports Complex_Main "HOL-Library.Word" "HOL-Library.Sublist"
begin

text \<open>
  Shared vocabulary of the development: the result type that stands for a
  JavaScript computation that may throw, the parts of the JavaScript standard
  library the wallet and the explorer use (strings as lists of Latin-1 code
  units, array slices with their negative indices, \<open>parseInt\<close>, \<open>toString\<close>,
  \<open>padStart\<close>, \<open>split\<close>, \<open>trim\<close>), the positional notation both address
  encodings rest on, and the generic lemmas the component theories share.
\<close>

section \<open>Results and errors\<close>

type_synonym byte = "8 word"
type_synonym bytes = "8 word list"

text \<open>
  What a \<open>throw\<close> carries: an \<open>Error\<close> with its message, the built-in
  \<open>TypeError\<close>, \<open>RangeError\<close> and \<open>SyntaxError\<close> and the platform's \<open>DOMException\<close>
  (their texts are the engine's and are not modelled), and the gateway client's own \<open>GatewayError\<close>, which
  carries a code beside its message (\<open>None\<close> when the code is not a string).
\<close>

datatype js_error =
    Error string
  | TypeError
  | RangeError
  | SyntaxError
  | DOMException
  | GatewayError "string option" string

type_synonym 'a result = "js_error + 'a"

named_theorems result_simps \<open>elimination and computation of results\<close>

definition bindr :: "'a result \<Rightarrow> ('a \<Rightarrow> 'b result) \<Rightarrow> 'b result" where
  "bindr m f = (case m of Inl e \<Rightarrow> Inl e | Inr x \<Rightarrow> f x)"

lemma bindr_simps [simp, result_simps]:
  "bindr (Inl e) f = Inl e"
  "bindr (Inr x) f = f x"
  by (simp_all add: bindr_def)

lemma bindr_Inr_iff [result_simps]:
  "bindr m f = Inr y \<longleftrightarrow> (\<exists>x. m = Inr x \<and> f x = Inr y)"
  by (cases m) auto

lemma bindr_Inl_iff [result_simps]:
  "bindr m f = Inl e \<longleftrightarrow> m = Inl e \<or> (\<exists>x. m = Inr x \<and> f x = Inl e)"
  by (cases m) auto

text \<open>A loop over a list whose body may throw: the first throw ends it.\<close>

fun mapr :: "('a \<Rightarrow> 'b result) \<Rightarrow> 'a list \<Rightarrow> 'b list result" where
  "mapr f [] = Inr []"
| "mapr f (x # xs) = bindr (f x) (\<lambda>y. bindr (mapr f xs) (\<lambda>ys. Inr (y # ys)))"

lemma mapr_Inr_length: "mapr f xs = Inr ys \<Longrightarrow> length ys = length xs"
  by (induction xs arbitrary: ys) (auto simp: result_simps)

lemma mapr_Inr_nth:
  "mapr f xs = Inr ys \<Longrightarrow> i < length xs \<Longrightarrow> f (xs ! i) = Inr (ys ! i)"
proof (induction xs arbitrary: ys i)
  case (Cons x xs)
  then show ?case by (cases i) (auto simp: result_simps)
qed simp

lemma mapr_total: "(\<And>x. x \<in> set xs \<Longrightarrow> f x = Inr (g x)) \<Longrightarrow> mapr f xs = Inr (map g xs)"
  by (induction xs) auto

lemma mapr_exists: "(\<And>x. x \<in> set xs \<Longrightarrow> \<exists>y. f x = Inr y) \<Longrightarrow> \<exists>ys. mapr f xs = Inr ys"
  by (induction xs) (force simp: result_simps)+

section \<open>Array slices\<close>

text \<open>
  \<open>slice\<close> counts a negative index from the end and clamps both ends to the
  array, for arrays, typed arrays and strings alike.
\<close>

definition rel_index :: "nat \<Rightarrow> int \<Rightarrow> nat" where
  "rel_index n i = (if i < 0 then nat (int n + i) else min n (nat i))"

definition js_slice :: "int \<Rightarrow> int \<Rightarrow> 'a list \<Rightarrow> 'a list" where
  "js_slice a b xs =
     (let i = rel_index (length xs) a; j = rel_index (length xs) b
      in take (j - i) (drop i xs))"

definition js_slice_from :: "int \<Rightarrow> 'a list \<Rightarrow> 'a list" where
  "js_slice_from a xs = drop (rel_index (length xs) a) xs"

lemma js_slice_take: "js_slice 0 (int n) xs = take n xs"
  by (simp add: js_slice_def rel_index_def Let_def min_def)

lemma js_slice_prefix:
  "n \<le> length xs \<Longrightarrow> js_slice 0 (int (length xs) - int n) xs = take (length xs - n) xs"
  by (simp add: js_slice_def rel_index_def Let_def min_def nat_diff_distrib)

lemma js_slice_from_suffix:
  "n \<le> length xs \<Longrightarrow> js_slice_from (int (length xs) - int n) xs = drop (length xs - n) xs"
  by (simp add: js_slice_from_def rel_index_def min_def nat_diff_distrib)

lemma js_slice_from_nat: "js_slice_from (int n) xs = drop n xs"
  by (simp add: js_slice_from_def rel_index_def min_def)

section \<open>Strings\<close>

text \<open>
  A string is the list of its code units; the model's characters are the code
  units 0 to 255.
\<close>

definition js_space :: "char \<Rightarrow> bool" where
  "js_space c \<longleftrightarrow> (of_char c :: nat) \<in> {9, 10, 11, 12, 13, 32, 160}"

definition js_trim_start :: "string \<Rightarrow> string" where
  "js_trim_start s = dropWhile js_space s"

definition js_trim :: "string \<Rightarrow> string" where
  "js_trim s = rev (dropWhile js_space (rev (js_trim_start s)))"

text \<open>\<open>toLowerCase\<close> on a code unit: the ASCII and Latin-1 capitals move by 32.\<close>

definition char_lower :: "char \<Rightarrow> char" where
  "char_lower c =
     (let n = (of_char c :: nat)
      in if (65 \<le> n \<and> n \<le> 90) \<or> (192 \<le> n \<and> n \<le> 222 \<and> n \<noteq> 215)
         then char_of (n + 32) else c)"

definition js_toLowerCase :: "string \<Rightarrow> string" where
  "js_toLowerCase s = map char_lower s"

definition js_startsWith :: "string \<Rightarrow> string \<Rightarrow> bool" where
  "js_startsWith s p \<longleftrightarrow> take (length p) s = p"

text \<open>\<open>indexOf\<close> and \<open>lastIndexOf\<close> of one character; \<open>-1\<close> when it is absent.\<close>

fun js_indexOf_from :: "int \<Rightarrow> 'a list \<Rightarrow> 'a \<Rightarrow> int" where
  "js_indexOf_from i [] c = -1"
| "js_indexOf_from i (x # xs) c = (if x = c then i else js_indexOf_from (i + 1) xs c)"

definition js_indexOf :: "'a list \<Rightarrow> 'a \<Rightarrow> int" where
  "js_indexOf s c = js_indexOf_from 0 s c"

fun js_lastIndexOf_from :: "int \<Rightarrow> int \<Rightarrow> 'a list \<Rightarrow> 'a \<Rightarrow> int" where
  "js_lastIndexOf_from i r [] c = r"
| "js_lastIndexOf_from i r (x # xs) c = js_lastIndexOf_from (i + 1) (if x = c then i else r) xs c"

definition js_lastIndexOf :: "'a list \<Rightarrow> 'a \<Rightarrow> int" where
  "js_lastIndexOf s c = js_lastIndexOf_from 0 (-1) s c"

text \<open>\<open>includes\<close> of a substring, \<open>split\<close> at one character, \<open>join\<close>.\<close>

fun js_includes :: "string \<Rightarrow> string \<Rightarrow> bool" where
  "js_includes [] p = (p = [])"
| "js_includes (c # s) p = (js_startsWith (c # s) p \<or> js_includes s p)"

fun js_split :: "'a \<Rightarrow> 'a list \<Rightarrow> 'a list list" where
  "js_split d [] = [[]]"
| "js_split d (c # s) =
     (if c = d then [] # js_split d s
      else case js_split d s of [] \<Rightarrow> [[c]] | w # ws \<Rightarrow> (c # w) # ws)"

fun js_join :: "string \<Rightarrow> string list \<Rightarrow> string" where
  "js_join d [] = []"
| "js_join d [w] = w"
| "js_join d (w # v # ws) = w @ d @ js_join d (v # ws)"

definition js_padStart :: "nat \<Rightarrow> char \<Rightarrow> string \<Rightarrow> string" where
  "js_padStart n c s = replicate (n - length s) c @ s"

lemma length_js_padStart [simp]: "length (js_padStart n c s) = max n (length s)"
  by (simp add: js_padStart_def)

lemma js_indexOf_from_nth:
  "js_indexOf_from i xs c = r \<Longrightarrow> r \<noteq> -1 \<Longrightarrow> 0 \<le> i \<Longrightarrow>
     i \<le> r \<and> nat (r - i) < length xs \<and> xs ! nat (r - i) = c"
proof (induction xs arbitrary: i)
  case (Cons x xs)
  show ?case
  proof (cases "x = c")
    case False
    with Cons have *: "i + 1 \<le> r" "nat (r - (i + 1)) < length xs" "xs ! nat (r - (i + 1)) = c"
      by auto
    then have "nat (r - i) = Suc (nat (r - (i + 1)))" by simp
    with * show ?thesis by simp
  qed (use Cons in auto)
qed simp

lemma js_indexOf_from_distinct:
  "distinct xs \<Longrightarrow> k < length xs \<Longrightarrow> js_indexOf_from i xs (xs ! k) = i + int k"
proof (induction xs arbitrary: i k)
  case (Cons x xs)
  then show ?case by (cases k) auto
qed simp

lemma js_indexOf_distinct:
  "distinct xs \<Longrightarrow> k < length xs \<Longrightarrow> js_indexOf xs (xs ! k) = int k"
  by (simp add: js_indexOf_def js_indexOf_from_distinct)

lemma js_indexOf_nth:
  assumes "0 \<le> js_indexOf xs c"
  shows "nat (js_indexOf xs c) < length xs" and "xs ! nat (js_indexOf xs c) = c"
  using js_indexOf_from_nth [of 0 xs c "js_indexOf xs c"] assms
  by (auto simp: js_indexOf_def)

lemma js_indexOf_from_absent: "0 \<le> i \<Longrightarrow> js_indexOf_from i xs c < 0 \<longleftrightarrow> c \<notin> set xs"
  by (induction xs arbitrary: i) auto

lemma js_indexOf_absent: "js_indexOf xs c < 0 \<longleftrightarrow> c \<notin> set xs"
  by (simp add: js_indexOf_def js_indexOf_from_absent)

lemma js_lastIndexOf_from_absent: "c \<notin> set xs \<Longrightarrow> js_lastIndexOf_from i r xs c = r"
  by (induction xs arbitrary: i r) auto

lemma js_lastIndexOf_from_append:
  "c \<notin> set ys \<Longrightarrow> js_lastIndexOf_from i r (xs @ c # ys) c = i + int (length xs)"
  by (induction xs arbitrary: i r) (auto simp: js_lastIndexOf_from_absent)

lemma js_lastIndexOf_append:
  "c \<notin> set ys \<Longrightarrow> js_lastIndexOf (xs @ c # ys) c = int (length xs)"
  by (simp add: js_lastIndexOf_def js_lastIndexOf_from_append)

lemma js_split_nonempty [simp]: "js_split d s \<noteq> []"
  by (induction s) (auto split: list.splits)

lemma js_split_no_sep: "d \<notin> set s \<Longrightarrow> js_split d s = [s]"
  by (induction s) auto

lemma js_split_append: "d \<notin> set w \<Longrightarrow> js_split d (w @ d # s) = w # js_split d s"
  by (induction w) auto

lemma js_includes_iff: "js_includes s p \<longleftrightarrow> (\<exists>u v. s = u @ p @ v)"
proof (induction s)
  case (Cons c s)
  have "js_startsWith (c # s) p \<longleftrightarrow> (\<exists>v. c # s = p @ v)"
    by (metis append_eq_conv_conj append_take_drop_id js_startsWith_def)
  moreover have "(\<exists>u v. c # s = u @ p @ v) \<longleftrightarrow>
      (\<exists>v. c # s = p @ v) \<or> (\<exists>u v. s = u @ p @ v)"
    by (metis append_Cons append_Nil append_eq_Cons_conv)
  ultimately show ?case by (simp add: Cons.IH)
qed auto

section \<open>Positional notation\<close>

text \<open>
  The value of a digit list and the digits of a number, most significant
  first and without leading zeros; both address encodings and every
  \<open>toString\<close> are instances.
\<close>

definition from_base :: "int \<Rightarrow> nat list \<Rightarrow> int" where
  "from_base b ds = foldl (\<lambda>a d. a * b + int d) 0 ds"

function to_base :: "int \<Rightarrow> int \<Rightarrow> nat list" where
  "to_base b n = (if n \<le> 0 \<or> b \<le> 1 then [] else to_base b (n div b) @ [nat (n mod b)])"
  by pat_completeness auto
termination
  by (relation "measure (\<lambda>(b, n). nat n)") (auto simp: nat_less_eq_zless int_div_less_self)

declare to_base.simps [simp del]

lemma foldl_base_shift:
  "foldl (\<lambda>a d. a * b + int d) (c :: int) ds = c * b ^ length ds + from_base b ds"
proof (induction ds arbitrary: c)
  case (Cons d ds)
  show ?case
    using Cons.IH [of "c * b + int d"] Cons.IH [of "int d"]
    by (simp add: from_base_def algebra_simps)
qed (simp add: from_base_def)

lemma from_base_Nil [simp]: "from_base b [] = 0"
  by (simp add: from_base_def)

lemma from_base_Cons [simp]: "from_base b (d # ds) = int d * b ^ length ds + from_base b ds"
  using foldl_base_shift [of b "int d" ds] by (simp add: from_base_def)

lemma from_base_append:
  "from_base b (xs @ ys) = from_base b xs * b ^ length ys + from_base b ys"
  using foldl_base_shift [of b "from_base b xs" ys] by (simp add: from_base_def)

lemma from_base_replicate_0 [simp]: "from_base b (replicate n 0) = 0"
  by (induction n) auto

lemma from_base_nonneg: "0 \<le> b \<Longrightarrow> 0 \<le> from_base b ds"
  by (induction ds) auto

lemma from_base_less:
  "1 < b \<Longrightarrow> \<forall>d \<in> set ds. int d < b \<Longrightarrow> from_base b ds < b ^ length ds"
proof (induction ds)
  case (Cons d ds)
  then have "from_base b ds < b ^ length ds" and "int d \<le> b - 1" by auto
  then have "int d * b ^ length ds \<le> (b - 1) * b ^ length ds"
    using \<open>1 < b\<close> by (intro mult_right_mono) auto
  with \<open>from_base b ds < b ^ length ds\<close> show ?case by (simp add: algebra_simps)
qed simp

lemma from_base_to_base: "1 < b \<Longrightarrow> 0 \<le> n \<Longrightarrow> from_base b (to_base b n) = n"
proof (induction b n rule: to_base.induct)
  case (1 b n)
  show ?case
  proof (cases "n \<le> 0")
    case True
    with "1.prems" show ?thesis by (simp add: to_base.simps)
  next
    case False
    with 1 have "from_base b (to_base b (n div b)) = n div b"
      by (simp add: pos_imp_zdiv_nonneg_iff)
    with False "1.prems" show ?thesis
      by (simp add: to_base.simps [of b n] from_base_append)
  qed
qed

lemma to_base_digits: "1 < b \<Longrightarrow> d \<in> set (to_base b n) \<Longrightarrow> int d < b"
proof (induction b n rule: to_base.induct)
  case (1 b n)
  then show ?case
    by (cases "n \<le> 0") (auto simp: to_base.simps [of b n])
qed

lemma to_base_0 [simp]: "to_base b 0 = []"
  by (simp add: to_base.simps)

lemma to_base_snoc:
  assumes "1 < b" "0 \<le> n" "int d < b" "n * b + int d > 0"
  shows "to_base b (n * b + int d) = to_base b n @ [d]"
  using assms by (subst to_base.simps) (simp add: nat_mod_distrib)

lemma to_base_from_base:
  assumes b: "1 < b" and "\<forall>d \<in> set ds. int d < b"
  shows "to_base b (from_base b ds) = dropWhile (\<lambda>d. d = 0) ds"
  using assms(2)
proof (induction ds rule: rev_induct)
  case (snoc d ds)
  have eq: "from_base b (ds @ [d]) = from_base b ds * b + int d"
    by (simp add: from_base_append)
  have nn: "0 \<le> from_base b ds" using b by (simp add: from_base_nonneg)
  show ?case
  proof (cases "from_base b ds * b + int d > 0")
    case True
    have ne: "d \<noteq> 0 \<or> (\<exists>x \<in> set ds. x \<noteq> 0)"
    proof (rule ccontr)
      assume "\<not> ?thesis"
      then have "d = 0" "ds = replicate (length ds) 0"
        by (auto simp: list_eq_iff_nth_eq)
      then have "from_base b ds = 0" by (metis from_base_replicate_0)
      with True \<open>d = 0\<close> show False by simp
    qed
    have "to_base b (from_base b (ds @ [d])) = dropWhile (\<lambda>d. d = 0) ds @ [d]"
      using to_base_snoc [OF b nn _ True] snoc by (simp add: eq)
    moreover have "dropWhile (\<lambda>d. d = 0) (ds @ [d]) = dropWhile (\<lambda>d. d = 0) ds @ [d]"
      using ne by (auto simp: dropWhile_append)
    ultimately show ?thesis by simp
  next
    case False
    have "0 \<le> from_base b ds * b" using nn b by simp
    with False have "from_base b ds * b = 0" "d = 0" by linarith+
    with b have z: "from_base b ds = 0" by simp
    with snoc have "dropWhile (\<lambda>d. d = 0) ds = []" by simp
    with \<open>d = 0\<close> z eq show ?thesis by (simp add: dropWhile_append from_base_append)
  qed
qed simp

lemma to_base_eq:
  assumes "1 < b" "\<forall>d \<in> set ds. int d < b" "n = from_base b ds" "ds = [] \<or> hd ds \<noteq> 0"
  shows "to_base b n = ds"
  using to_base_from_base [of b ds] assms by (cases ds) auto

lemma to_base_length:
  assumes "1 < b" "b ^ k \<le> n" "n < b ^ Suc k"
  shows "length (to_base b n) = Suc k"
  using assms
proof (induction k arbitrary: n)
  case 0
  then have "n div b = 0" by simp
  with 0 show ?case by (subst to_base.simps) simp
next
  case (Suc k)
  have "b ^ k \<le> n div b"
    using zdiv_mono1 [of "b ^ Suc k" n b] Suc.prems by simp
  moreover have "n div b < b ^ Suc k"
  proof -
    have "n < b ^ Suc k * b" using Suc.prems by (simp add: mult.commute)
    then have "\<not> b ^ Suc k \<le> n div b"
      using Suc.prems(1) mult_right_mono [of "b ^ Suc k" "n div b" b]
        div_mult_mod_eq [of n b] pos_mod_sign [of b n] by linarith
    then show ?thesis by simp
  qed
  ultimately have "length (to_base b (n div b)) = Suc k"
    using Suc.IH Suc.prems(1) by blast
  moreover have "\<not> n \<le> 0"
    using Suc.prems zero_less_power [of b "Suc k"] by linarith
  ultimately show ?case using Suc.prems(1) by (subst to_base.simps) simp
qed

text \<open>The leading digits of a number of known length.\<close>

lemma to_base_take:
  assumes "1 < b" "0 \<le> n" "k \<le> length (to_base b n)"
  shows "from_base b (take k (to_base b n)) = n div b ^ (length (to_base b n) - k)"
proof -
  let ?ds = "to_base b n"
  have "from_base b (take k ?ds) * b ^ (length ?ds - k) + from_base b (drop k ?ds) = n"
    using from_base_append [of b "take k ?ds" "drop k ?ds"] from_base_to_base [OF assms(1,2)]
    by simp
  moreover have "from_base b (drop k ?ds) < b ^ (length ?ds - k)"
    using from_base_less [of b "drop k ?ds"] assms(1) to_base_digits [OF assms(1)]
    by (auto dest: in_set_dropD)
  moreover have "0 \<le> from_base b (drop k ?ds)"
    using assms(1) by (simp add: from_base_nonneg)
  ultimately show ?thesis
    by (metis add.commute add.right_neutral div_mult_self3 div_pos_pos_trivial
        less_irrefl order.strict_trans1 mult.commute)
qed

lemma hd_to_base: "1 < b \<Longrightarrow> to_base b n \<noteq> [] \<Longrightarrow> hd (to_base b n) \<noteq> 0"
proof (induction b n rule: to_base.induct)
  case (1 b n)
  then have n: "0 < n" by (auto simp: to_base.simps [of b n] split: if_splits)
  show ?case
  proof (cases "n div b = 0")
    case True
    then have "n mod b = n" by (metis add_0 div_mult_mod_eq mult_zero_left)
    with True n "1.prems" show ?thesis by (simp add: to_base.simps [of b n])
  next
    case False
    with n "1.prems" have "0 < n div b"
      by (simp add: pos_imp_zdiv_pos_iff order_less_le pos_imp_zdiv_nonneg_iff)
    then have "to_base b (n div b) \<noteq> []"
      using "1.prems"(1) by (simp add: to_base.simps [of b "n div b"])
    with 1 n show ?thesis by (simp add: to_base.simps [of b n])
  qed
qed

lemma from_base_inject:
  assumes "1 < b" "\<forall>d \<in> set xs. int d < b" "\<forall>d \<in> set ys. int d < b" "length xs = length ys"
    "from_base b xs = from_base b ys"
  shows "xs = ys"
  using assms(4,2,3,5)
proof (induction xs ys rule: list_induct2)
  case (Cons x xs y ys)
  have less: "from_base b xs < b ^ length xs" "from_base b ys < b ^ length xs"
    using from_base_less [OF assms(1), of xs] from_base_less [OF assms(1), of ys] Cons by auto
  have nn: "0 \<le> from_base b xs" "0 \<le> from_base b ys"
    using assms(1) by (simp_all add: from_base_nonneg)
  have eq: "int x * b ^ length xs + from_base b xs = int y * b ^ length xs + from_base b ys"
    using Cons by simp
  then have "(int x * b ^ length xs + from_base b xs) div b ^ length xs =
      (int y * b ^ length xs + from_base b ys) div b ^ length xs" by simp
  then have "int x = int y" using less nn assms(1) by simp
  with eq Cons show ?case by simp
qed simp

section \<open>Numbers as text\<close>

definition digit_char :: "nat \<Rightarrow> char" where
  "digit_char d = (if d < 10 then char_of (48 + d) else char_of (87 + d))"

text \<open>The value of a digit in bases up to 36, as \<open>parseInt\<close> reads it.\<close>

definition digit_val :: "char \<Rightarrow> nat option" where
  "digit_val c =
     (let n = (of_char c :: nat)
      in if 48 \<le> n \<and> n \<le> 57 then Some (n - 48)
         else if 97 \<le> n \<and> n \<le> 122 then Some (n - 87)
         else if 65 \<le> n \<and> n \<le> 90 then Some (n - 55)
         else None)"

lemma digit_val_digit_char [simp]: "d < 36 \<Longrightarrow> digit_val (digit_char d) = Some d"
  by (auto simp: digit_val_def digit_char_def Let_def)

text \<open>\<open>toString(radix)\<close> of an integer.\<close>

lemma digit_char_code: "d < 36 \<Longrightarrow> (of_char (digit_char d) :: nat) = (if d < 10 then 48 + d else 87 + d)"
  by (simp add: digit_char_def)

definition js_toString :: "int \<Rightarrow> int \<Rightarrow> string" where
  "js_toString r n =
     (if n = 0 then ''0''
      else if n < 0 then CHR ''-'' # map digit_char (to_base r (- n))
      else map digit_char (to_base r n))"

fun take_digits :: "nat \<Rightarrow> string \<Rightarrow> nat list" where
  "take_digits r [] = []"
| "take_digits r (c # s) =
     (case digit_val c of None \<Rightarrow> []
      | Some d \<Rightarrow> if d < r then d # take_digits r s else [])"

text \<open>
  \<open>parseInt(s, radix)\<close>: leading white space, a sign, for radix 16 an optional
  \<open>0x\<close>, then the longest run of digits; \<open>None\<close> is \<open>NaN\<close>. The value is the
  exact integer (the double it is rounded to is the caller's concern).
\<close>

definition js_parseInt :: "nat \<Rightarrow> string \<Rightarrow> int option" where
  "js_parseInt r s =
     (let t = js_trim_start s;
          neg = js_startsWith t ''-'';
          u = (if neg \<or> js_startsWith t ''+'' then drop 1 t else t);
          v = (if r = 16 \<and> (js_startsWith u ''0x'' \<or> js_startsWith u ''0X'') then drop 2 u else u);
          ds = take_digits r v
      in if ds = [] then None
         else Some (if neg then - from_base (int r) ds else from_base (int r) ds))"

lemma take_digits_map:
  "\<forall>d \<in> set ds. d < r \<and> d < 36 \<Longrightarrow> take_digits r (map digit_char ds) = ds"
  by (induction ds) auto

lemma js_toString_nonneg:
  "0 < n \<Longrightarrow> js_toString r n = map digit_char (to_base r n)"
  by (simp add: js_toString_def)

section \<open>Arithmetic of packed digits\<close>

lemma div_shift: "(y :: nat) < m \<Longrightarrow> (x * m + y) div m = x"
  by simp

lemma mod_shift: "(y :: nat) < m \<Longrightarrow> (x * m + y) mod m = y"
  by simp

lemma shift_less: "(x :: nat) < k \<Longrightarrow> y < m \<Longrightarrow> x * m + y < k * m"
proof -
  assume "x < k" "y < m"
  then have "x * m + y < Suc x * m" "Suc x * m \<le> k * m"
    by (simp, intro mult_right_mono) auto
  then show ?thesis by linarith
qed

end
