(* ===== verification/Codec.thy ===== *)
theory Codec
  imports Prelude
begin

text \<open>
  Byte encodings: the hexadecimal helpers of \<open>crypto.js\<close>, the \<open>btoa\<close>/\<open>atob\<close>
  base64 the message signer and the push client use, and the UTF-8 of
  \<open>TextEncoder\<close>/\<open>TextDecoder\<close>. What the clients rely on is the interface
  \<open>codec\<close> (a decoder undoes an encoder), and, for encodings that are
  concatenated on the wire, \<open>stream_codec\<close>.
\<close>

section \<open>Interfaces\<close>

text \<open>An encoding with a decoder that undoes it on the values in range.\<close>

locale codec =
  fixes enc :: "'a \<Rightarrow> 'b"
    and dec :: "'b \<Rightarrow> 'a option"
    and ok :: "'a \<Rightarrow> bool"
  assumes dec_enc: "ok x \<Longrightarrow> dec (enc x) = Some x"
begin

lemma enc_inject: "ok x \<Longrightarrow> ok y \<Longrightarrow> enc x = enc y \<longleftrightarrow> x = y"
  by (metis dec_enc option.inject)

lemma enc_inj_on: "inj_on enc {x. ok x}"
  by (rule inj_onI) (simp add: enc_inject)

end

text \<open>
  A self-delimiting encoding: the reader takes exactly the bytes the writer
  produced and leaves the rest of the stream. Sequences of such fields can be
  read back, which is what makes a wire format unambiguous.
\<close>

locale stream_codec =
  fixes put :: "'a \<Rightarrow> 'b list"
    and get :: "'b list \<Rightarrow> ('a \<times> 'b list) option"
    and ok :: "'a \<Rightarrow> bool"
  assumes get_put: "ok x \<Longrightarrow> get (put x @ rest) = Some (x, rest)"
begin

definition get_all :: "'b list \<Rightarrow> 'a option" where
  "get_all bs = (case get bs of Some (x, []) \<Rightarrow> Some x | _ \<Rightarrow> None)"

fun get_n :: "nat \<Rightarrow> 'b list \<Rightarrow> ('a list \<times> 'b list) option" where
  "get_n 0 bs = Some ([], bs)"
| "get_n (Suc n) bs =
     (case get bs of None \<Rightarrow> None
      | Some (x, bs') \<Rightarrow> (case get_n n bs' of None \<Rightarrow> None
                         | Some (xs, bs'') \<Rightarrow> Some (x # xs, bs'')))"

lemma get_n_put:
  "\<forall>x \<in> set xs. ok x \<Longrightarrow> get_n (length xs) (concat (map put xs) @ rest) = Some (xs, rest)"
  by (induction xs) (auto simp: get_put)

lemma put_append_inject:
  assumes "ok x" "ok y"
  shows "put x @ r = put y @ s \<longleftrightarrow> x = y \<and> r = s"
proof
  assume "put x @ r = put y @ s"
  then have "Some (x, r) = Some (y, s)"
    using get_put [OF assms(1), of r] get_put [OF assms(2), of s] by metis
  then show "x = y \<and> r = s" by simp
qed simp

end

sublocale stream_codec \<subseteq> whole: codec put get_all ok
proof
  fix x
  assume "ok x"
  then show "get_all (put x) = Some x"
    using get_put [of x "[]"] by (simp add: get_all_def)
qed

section \<open>Hexadecimal\<close>

definition byteHex :: "byte \<Rightarrow> string" where
  "byteHex b = js_padStart 2 (CHR ''0'') (js_toString 16 (uint b))"

definition bytesToHex :: "bytes \<Rightarrow> string" where
  "bytesToHex bs = concat (map byteHex bs)"

text \<open>
  Storing a number in a \<open>Uint8Array\<close> keeps it modulo 256, and \<open>NaN\<close> as 0. An
  odd length is rounded down by the array constructor.
\<close>

definition toUint8 :: "int option \<Rightarrow> byte" where
  "toUint8 v = (case v of None \<Rightarrow> 0 | Some n \<Rightarrow> word_of_int n)"

definition hexToBytes :: "string \<Rightarrow> bytes" where
  "hexToBytes hex =
     map (\<lambda>i. toUint8 (js_parseInt 16 (take 2 (drop (i * 2) hex)))) [0..<length hex div 2]"

lemma uint_byte_bounds: "0 \<le> uint (b :: byte)" "uint (b :: byte) < 256"
  using uint_bounded [of b] by auto

lemma to_base16_byte:
  assumes "0 < n" "n < 256"
  shows "to_base 16 n = (if n < 16 then [nat n] else [nat (n div 16), nat (n mod 16)])"
proof (cases "n < 16")
  case True
  with assms show ?thesis by (simp add: to_base.simps [of 16 n])
next
  case False
  with assms have "0 < n div 16" "n div 16 < 16" by auto
  with False assms show ?thesis
    by (simp add: to_base.simps [of 16 n] to_base.simps [of 16 "n div 16"])
qed

lemma byteHex_digits:
  "byteHex b = [digit_char (nat (uint b div 16)), digit_char (nat (uint b mod 16))]"
proof -
  have z: "CHR ''0'' = digit_char 0" by code_simp
  have "uint b = 0 \<or> 0 < uint b" using uint_byte_bounds(1) [of b] by linarith
  then show ?thesis
    using uint_byte_bounds [of b] to_base16_byte [of "uint b"]
    by (auto simp: byteHex_def js_toString_def js_padStart_def z)
qed

lemma length_byteHex [simp]: "length (byteHex b) = 2"
  by (simp add: byteHex_digits)

lemma length_bytesToHex [simp]: "length (bytesToHex bs) = 2 * length bs"
  by (induction bs) (auto simp: bytesToHex_def)

lemma bytesToHex_Nil [simp]: "bytesToHex [] = []"
  by (simp add: bytesToHex_def)

lemma bytesToHex_Cons [simp]: "bytesToHex (b # bs) = byteHex b @ bytesToHex bs"
  by (simp add: bytesToHex_def)

lemma bytesToHex_append [simp]: "bytesToHex (xs @ ys) = bytesToHex xs @ bytesToHex ys"
  by (simp add: bytesToHex_def)

lemma byteHex_cases:
  obtains q r where "byteHex b = [digit_char q, digit_char r]" "q < 16" "r < 16"
    "int q * 16 + int r = uint b"
proof
  show "byteHex b = [digit_char (nat (uint b div 16)), digit_char (nat (uint b mod 16))]"
    by (rule byteHex_digits)
  show "nat (uint b div 16) < 16" "nat (uint b mod 16) < 16"
    using uint_byte_bounds [of b] by linarith+
  show "int (nat (uint b div 16)) * 16 + int (nat (uint b mod 16)) = uint b"
    using uint_byte_bounds(1) [of b] by (simp only: int_nat_eq) (simp add: pos_imp_zdiv_nonneg_iff)
qed

lemma parse_byteHex: "js_parseInt 16 (byteHex b) = Some (uint b)"
proof -
  obtain q r where qr: "byteHex b = [digit_char q, digit_char r]" "q < 16" "r < 16"
    "int q * 16 + int r = uint b" by (rule byteHex_cases)
  have sp: "\<not> js_space (digit_char q)"
    using qr(2) by (auto simp: js_space_def digit_char_code)
  have ne: "digit_char q \<noteq> CHR ''-''" "digit_char q \<noteq> CHR ''+''"
      "digit_char r \<noteq> CHR ''x''" "digit_char r \<noteq> CHR ''X''"
    using qr(2,3)
    by (auto simp: digit_char_code dest!: arg_cong [where f = "of_char :: char \<Rightarrow> nat"]
        split: if_splits)
  have td: "take_digits 16 [digit_char q, digit_char r] = [q, r]"
    using qr(2,3) by simp
  have fb: "from_base (int 16) [q, r] = uint b" using qr(4) by simp
  show ?thesis
    unfolding qr(1) js_parseInt_def js_trim_start_def js_startsWith_def Let_def
    using sp ne td fb by simp
qed

lemma hexToBytes_Nil [simp]: "hexToBytes [] = []"
  by (simp add: hexToBytes_def)

lemma hexToBytes_pair:
  "hexToBytes (a # b # s) = toUint8 (js_parseInt 16 [a, b]) # hexToBytes s"
proof -
  have "[0..<length (a # b # s) div 2] = 0 # map Suc [0..<length s div 2]"
    by (simp add: upt_conv_Cons map_Suc_upt del: upt_Suc)
  then show ?thesis by (simp add: hexToBytes_def)
qed

lemma hexToBytes_byteHex [simp]: "hexToBytes (byteHex b @ s) = b # hexToBytes s"
proof -
  obtain x y where xy: "byteHex b = [x, y]" by (simp add: byteHex_digits)
  with parse_byteHex [of b] show ?thesis
    by (simp add: hexToBytes_pair toUint8_def)
qed

lemma length_hexToBytes [simp]: "length (hexToBytes s) = length s div 2"
  by (simp add: hexToBytes_def)

lemma hexToBytes_bytesToHex [simp]: "hexToBytes (bytesToHex bs) = bs"
  by (induction bs) auto

interpretation hex: codec bytesToHex "\<lambda>s. Some (hexToBytes s)" "\<lambda>_. True"
  by unfold_locales simp

lemma bytesToHex_inject [simp]: "bytesToHex xs = bytesToHex ys \<longleftrightarrow> xs = ys"
  using hex.enc_inject by simp

section \<open>Base64: btoa and atob\<close>

definition B64_ALPHABET :: string where
  "B64_ALPHABET = ''ABCDEFGHIJKLMNOPQRSTUVWXYZabcdefghijklmnopqrstuvwxyz0123456789+/''"

text \<open>Three octets are four sextets; the last group is cut short.\<close>

fun b64_sextets :: "nat list \<Rightarrow> nat list" where
  "b64_sextets (a # b # c # s) =
     a div 4 # (a mod 4 * 16 + b div 16) # (b mod 16 * 4 + c div 64) # c mod 64 # b64_sextets s"
| "b64_sextets [a, b] = [a div 4, a mod 4 * 16 + b div 16, b mod 16 * 4]"
| "b64_sextets [a] = [a div 4, a mod 4 * 16]"
| "b64_sextets [] = []"

fun b64_octets :: "nat list \<Rightarrow> nat list" where
  "b64_octets (a # b # c # d # s) =
     (a * 4 + b div 16) # (b mod 16 * 16 + c div 4) # (c mod 4 * 64 + d) # b64_octets s"
| "b64_octets [a, b, c] = [a * 4 + b div 16, b mod 16 * 16 + c div 4]"
| "b64_octets [a, b] = [a * 4 + b div 16]"
| "b64_octets [a] = []"
| "b64_octets [] = []"

definition js_btoa :: "string \<Rightarrow> string" where
  "js_btoa s =
     (let body = map (\<lambda>i. B64_ALPHABET ! i) (b64_sextets (map of_char s))
      in body @ replicate ((4 - length body mod 4) mod 4) (CHR ''=''))"

definition b64_strip_pad :: "string \<Rightarrow> string" where
  "b64_strip_pad s =
     (if length s mod 4 = 0
      then if drop (length s - 2) s = ''=='' then take (length s - 2) s
           else if drop (length s - 1) s = ''='' then take (length s - 1) s
           else s
      else s)"

text \<open>The platform's forgiving decoder: ASCII white space is dropped first.\<close>

definition js_atob :: "string \<Rightarrow> string result" where
  "js_atob s =
     (let t = filter (\<lambda>c. (of_char c :: nat) \<notin> {9, 10, 12, 13, 32}) s;
          u = b64_strip_pad t
      in if length u mod 4 = 1 \<or> (\<exists>c \<in> set u. c \<notin> set B64_ALPHABET) then Inl DOMException
         else Inr (map char_of (b64_octets (map (\<lambda>c. nat (js_indexOf B64_ALPHABET c)) u))))"

lemma B64_ALPHABET_props:
  "length B64_ALPHABET = 64" "distinct B64_ALPHABET" "CHR ''='' \<notin> set B64_ALPHABET"
  "\<forall>c \<in> set B64_ALPHABET. (of_char c :: nat) \<notin> {9, 10, 12, 13, 32}"
  by code_simp+

lemma b64_octets_sextets: "\<forall>x \<in> set xs. x < 256 \<Longrightarrow> b64_octets (b64_sextets xs) = xs"
proof (induction xs rule: b64_sextets.induct)
  case (1 a b c s)
  then have "b64_octets (b64_sextets s) = s" "b < 256" "c < 256" by auto
  then show ?case by (simp add: div_shift mod_shift)
next
  case (2 a b)
  then have "b < 256" by auto
  then show ?case by (simp add: div_shift mod_shift)
qed simp_all

lemma sextet_bounds:
  "(a :: nat) < 256 \<Longrightarrow> a div 4 < 64"
  "b < 256 \<Longrightarrow> a mod 4 * 16 + b div 16 < 64"
  "c < 256 \<Longrightarrow> b mod 16 * 4 + c div 64 < 64"
  "a mod 4 * 16 < 64" "b mod 16 * 4 < 64"
  using shift_less [of "a mod 4" 4 "b div 16" 16] shift_less [of "b mod 16" 16 "c div 64" 4]
    shift_less [of "a mod 4" 4 0 16] shift_less [of "b mod 16" 16 0 4]
  by simp_all

lemma b64_sextets_less: "\<forall>x \<in> set xs. x < 256 \<Longrightarrow> y \<in> set (b64_sextets xs) \<Longrightarrow> y < 64"
  by (induction xs arbitrary: y rule: b64_sextets.induct)
     (use sextet_bounds in \<open>auto simp del: mod_mult_self1_is_0\<close>)

lemma length_b64_sextets: "length (b64_sextets xs) mod 4 \<in> {0, 2, 3}"
  by (induction xs rule: b64_sextets.induct) (auto simp: mod_Suc)

lemma b64_strip_pad_body:
  assumes "CHR ''='' \<notin> set body" "length body mod 4 \<in> {0, 2, 3}"
  shows "b64_strip_pad (body @ replicate ((4 - length body mod 4) mod 4) (CHR ''='')) = body"
proof -
  consider "length body mod 4 = 0" | "length body mod 4 = 2" | "length body mod 4 = 3"
    using assms(2) by auto
  then show ?thesis
  proof cases
    case 1
    have "CHR ''='' \<in> set body" if "drop (length body - k) body = CHR ''='' # w" for k w
      using that by (metis in_set_dropD list.set_intros(1))
    with assms(1) 1 show ?thesis by (auto simp: b64_strip_pad_def)
  next
    case 2
    then have "(length body + 2) mod 4 = 0" by presburger
    with 2 show ?thesis by (simp add: b64_strip_pad_def numeral_2_eq_2)
  next
    case 3
    then have l: "(length body + 1) mod 4 = 0" by presburger
    have "drop (length body - 1) body @ ''='' \<noteq> ''==''"
    proof
      assume "drop (length body - 1) body @ ''='' = ''==''"
      then have "drop (length body - 1) body = ''=''" by simp
      with assms(1) show False by (metis in_set_dropD list.set_intros(1))
    qed
    moreover have "length body \<noteq> 0" using 3 by auto
    ultimately show ?thesis using 3 l
      by (simp add: b64_strip_pad_def Suc_diff_le)
  qed
qed

lemma js_atob_btoa: "js_atob (js_btoa s) = Inr s"
proof -
  let ?ss = "b64_sextets (map of_char s)"
  let ?body = "map (\<lambda>i. B64_ALPHABET ! i) ?ss"
  let ?out = "?body @ replicate ((4 - length ?body mod 4) mod 4) (CHR ''='')"
  have oct: "\<forall>x \<in> set (map of_char s). (x :: nat) < 256" by auto
  have lt: "\<forall>i \<in> set ?ss. i < 64" using b64_sextets_less [OF oct] by blast
  have mem: "\<forall>c \<in> set ?body. c \<in> set B64_ALPHABET"
    using lt by (auto simp: B64_ALPHABET_props)
  have "filter (\<lambda>c. (of_char c :: nat) \<notin> {9, 10, 12, 13, 32}) ?out = ?out"
    using mem B64_ALPHABET_props(4) by (intro filter_True) (auto simp: in_set_replicate)
  moreover have "b64_strip_pad ?out = ?body"
    using mem B64_ALPHABET_props(3) length_b64_sextets [of "map of_char s"]
    by (intro b64_strip_pad_body) auto
  moreover have "map (\<lambda>c. nat (js_indexOf B64_ALPHABET c)) ?body = ?ss"
    using lt by (auto simp: js_indexOf_distinct B64_ALPHABET_props intro!: map_idI)
  moreover have "length ?body mod 4 \<noteq> 1"
    using length_b64_sextets [of "map of_char s"] by auto
  ultimately show ?thesis
    using mem b64_octets_sextets [OF oct]
    by (simp add: js_atob_def js_btoa_def Let_def del: set_map length_map)
qed

interpretation b64: codec js_btoa "\<lambda>s. case js_atob s of Inl _ \<Rightarrow> None | Inr t \<Rightarrow> Some t" "\<lambda>_. True"
  by unfold_locales (simp add: js_atob_btoa)

end
