(* ===== verification/Wire.thy ===== *)
theory Wire
  imports Codec
begin

text \<open>
  The integer fields of the wire format in \<open>crypto.js\<close> (\<open>varInt\<close>, \<open>u32le\<close>,
  \<open>u64le\<close>, \<open>concatBytes\<close>) and the readers a node uses for them. Each writer
  is an instance of \<open>stream_codec\<close>, so sequences of fields can be read back.
\<close>

section \<open>Little-endian integers\<close>

text \<open>
  \<open>DataView.setUint16/32\<close> and \<open>setBigUint64\<close> store a number modulo the width,
  least significant byte first.
\<close>

fun le_bytes :: "nat \<Rightarrow> int \<Rightarrow> bytes" where
  "le_bytes 0 n = []"
| "le_bytes (Suc k) n = word_of_int n # le_bytes k (n div 256)"

definition u32le :: "int \<Rightarrow> bytes" where
  "u32le n = le_bytes 4 n"

definition u64le :: "int \<Rightarrow> bytes" where
  "u64le n = le_bytes 8 n"

definition varInt :: "nat \<Rightarrow> bytes" where
  "varInt n =
     (if n < 0xfd then [of_nat n]
      else if n \<le> 0xffff then 0xfd # le_bytes 2 (int n)
      else if n \<le> 0xffffffff then 0xfe # le_bytes 4 (int n)
      else 0xff # le_bytes 8 (int n))"

definition concatBytes :: "bytes list \<Rightarrow> bytes" where
  "concatBytes arrs = concat arrs"

section \<open>Readers\<close>

fun le_num :: "bytes \<Rightarrow> int" where
  "le_num [] = 0"
| "le_num (b # bs) = uint b + 256 * le_num bs"

definition get_le :: "nat \<Rightarrow> bytes \<Rightarrow> (int \<times> bytes) option" where
  "get_le k bs = (if length bs < k then None else Some (le_num (take k bs), drop k bs))"

definition get_varInt :: "bytes \<Rightarrow> (nat \<times> bytes) option" where
  "get_varInt bs =
     (case bs of [] \<Rightarrow> None
      | b # r \<Rightarrow>
          if b < 0xfd then Some (unat b, r)
          else map_option (\<lambda>(n, r'). (nat n, r'))
                 (get_le (if b = 0xfd then 2 else if b = 0xfe then 4 else 8) r))"

text \<open>A block of a known number of bytes, and a block behind its \<open>varInt\<close> length.\<close>

definition get_block :: "nat \<Rightarrow> bytes \<Rightarrow> (bytes \<times> bytes) option" where
  "get_block k bs = (if length bs < k then None else Some (take k bs, drop k bs))"

definition put_var_bytes :: "bytes \<Rightarrow> bytes" where
  "put_var_bytes s = varInt (length s) @ s"

definition get_var_bytes :: "bytes \<Rightarrow> (bytes \<times> bytes) option" where
  "get_var_bytes bs =
     (case get_varInt bs of None \<Rightarrow> None | Some (n, r) \<Rightarrow> get_block n r)"

section \<open>The readers undo the writers\<close>

lemma length_le_bytes [simp]: "length (le_bytes k n) = k"
  by (induction k arbitrary: n) auto

lemma le_num_le_bytes: "le_num (le_bytes k n) = n mod 256 ^ k"
proof (induction k arbitrary: n)
  case (Suc k)
  have "uint (word_of_int n :: byte) = n mod 256" by (simp add: uint_word_of_int)
  with Suc show ?case by (simp add: zmod_zmult2_eq)
qed simp

lemma get_le_put: "0 \<le> n \<Longrightarrow> n < 256 ^ k \<Longrightarrow> get_le k (le_bytes k n @ rest) = Some (n, rest)"
  by (simp add: get_le_def le_num_le_bytes)

interpretation u32: stream_codec u32le "get_le 4" "\<lambda>n. 0 \<le> n \<and> n < 2 ^ 32"
  by unfold_locales (simp add: u32le_def get_le_put)

interpretation u64: stream_codec u64le "get_le 8" "\<lambda>n. 0 \<le> n \<and> n < 2 ^ 64"
  by unfold_locales (simp add: u64le_def get_le_put)

lemma get_varInt_put: "n < 2 ^ 64 \<Longrightarrow> get_varInt (varInt n @ rest) = Some (n, rest)"
proof -
  assume n: "n < 2 ^ 64"
  have 1: "(of_nat n :: byte) < 0xfd" "unat (of_nat n :: byte) = n" if "n < 0xfd"
    using that by (simp_all add: word_less_nat_alt unat_of_nat)
  show ?thesis
  proof (cases "n < 0xfd")
    case True
    with 1 show ?thesis by (simp add: varInt_def get_varInt_def)
  next
    case False
    then show ?thesis
      using n get_le_put [of "int n" 2 rest] get_le_put [of "int n" 4 rest] get_le_put [of "int n" 8 rest]
      by (auto simp: varInt_def get_varInt_def)
  qed
qed

interpretation vi: stream_codec varInt get_varInt "\<lambda>n. n < 2 ^ 64"
  by unfold_locales (rule get_varInt_put)

interpretation vb: stream_codec put_var_bytes get_var_bytes "\<lambda>s. length s < 2 ^ 64"
  by unfold_locales (simp add: put_var_bytes_def get_var_bytes_def vi.get_put get_block_def)

lemma get_block_put: "length b = k \<Longrightarrow> get_block k (b @ rest) = Some (b, rest)"
  by (auto simp: get_block_def)

lemma length_varInt:
  "length (varInt n) = (if n < 0xfd then 1 else if n \<le> 0xffff then 3 else if n \<le> 0xffffffff then 5 else 9)"
  by (simp add: varInt_def)

end
