(* ===== verification/Base58.thy ===== *)
theory Base58
  imports Codec
begin

text \<open>
  Base58Check of \<open>crypto.js\<close>: the two hashes the wallet composes from the
  library's SHA-256 and RIPEMD-160 (parameters), the encoder with its leading
  ones, and the decoder that verifies the four checksum bytes. The encoder and
  the decoder are exact inverses of each other.
\<close>

section \<open>Definitions\<close>

type_synonym hash_fun = "bytes \<Rightarrow> bytes"

definition doubleSha256 :: "hash_fun \<Rightarrow> bytes \<Rightarrow> bytes" where
  "doubleSha256 sha256 bs = sha256 (sha256 bs)"

definition hash160 :: "hash_fun \<Rightarrow> hash_fun \<Rightarrow> bytes \<Rightarrow> bytes" where
  "hash160 sha256 ripemd160 bs = ripemd160 (sha256 bs)"

definition B58_ALPHABET :: string where
  "B58_ALPHABET = ''123456789ABCDEFGHJKLMNPQRSTUVWXYZabcdefghijkmnopqrstuvwxyz''"

text \<open>The loop that divides by 58 and prepends one character a round.\<close>

function b58_chars :: "int \<Rightarrow> string \<Rightarrow> string" where
  "b58_chars num out =
     (if num > 0 then b58_chars (num div 58) (B58_ALPHABET ! nat (num mod 58) # out) else out)"
  by pat_completeness auto
termination
  by (relation "measure (\<lambda>(num, out). nat num)") (auto simp: nat_less_eq_zless int_div_less_self)

declare b58_chars.simps [simp del]

definition bytes_num :: "bytes \<Rightarrow> int" where
  "bytes_num bs = foldl (\<lambda>num b. num * 256 + uint b) 0 bs"

definition base58checkEncode :: "hash_fun \<Rightarrow> bytes \<Rightarrow> string" where
  "base58checkEncode sha256 payload =
     (let checksum = js_slice 0 4 (doubleSha256 sha256 payload);
          full = take (length payload + 4) (payload @ checksum @ replicate 4 0);
          leadingZeros = length (takeWhile (\<lambda>b. b = 0) full)
      in replicate leadingZeros (CHR ''1'') @ b58_chars (bytes_num full) [])"

fun b58_num :: "int \<Rightarrow> string \<Rightarrow> int result" where
  "b58_num num [] = Inr num"
| "b58_num num (ch # str) =
     (let idx = js_indexOf B58_ALPHABET ch
      in if idx < 0 then Inl (Error ''Invalid base58 character'')
         else b58_num (num * 58 + idx) str)"

text \<open>The loop that divides by 256 and puts one byte in front a round.\<close>

function num_bytes :: "int \<Rightarrow> bytes \<Rightarrow> bytes" where
  "num_bytes num out =
     (if num > 0 then num_bytes (num div 256) (word_of_int (num mod 256) # out) else out)"
  by pat_completeness auto
termination
  by (relation "measure (\<lambda>(num, out). nat num)") (auto simp: nat_less_eq_zless int_div_less_self)

declare num_bytes.simps [simp del]

definition every_matches :: "bytes \<Rightarrow> bytes \<Rightarrow> bool" where
  "every_matches expected checksum \<longleftrightarrow>
     list_all (\<lambda>i. i < length checksum \<and> expected ! i = checksum ! i) [0..<length expected]"

definition base58checkDecode :: "hash_fun \<Rightarrow> string \<Rightarrow> bytes result" where
  "base58checkDecode sha256 str =
     bindr (b58_num 0 str) (\<lambda>num.
       let bs = num_bytes num [];
           leadingZeros = length (takeWhile (\<lambda>c. c = CHR ''1'') str);
           full = replicate leadingZeros 0 @ bs;
           payload = js_slice 0 (int (length full) - 4) full;
           checksum = js_slice_from (int (length full) - 4) full;
           expected = js_slice 0 4 (doubleSha256 sha256 payload)
       in if \<not> every_matches expected checksum then Inl (Error ''Bad checksum'')
          else Inr payload)"

section \<open>The loops as positional notation\<close>

lemma B58_ALPHABET_props:
  "length B58_ALPHABET = 58" "distinct B58_ALPHABET" "B58_ALPHABET ! 0 = CHR ''1''"
  by code_simp+

lemma b58_chars_to_base:
  "b58_chars num out = map (\<lambda>d. B58_ALPHABET ! d) (to_base 58 num) @ out"
proof (induction num out rule: b58_chars.induct)
  case (1 num out)
  then show ?case
    by (cases "num > 0") (simp_all add: b58_chars.simps [of num] to_base.simps [of 58 num])
qed

lemma num_bytes_to_base:
  "num_bytes num out = map of_nat (to_base 256 num) @ out"
proof (induction num out rule: num_bytes.induct)
  case (1 num out)
  have "of_nat (nat (num mod 256)) = (word_of_int (num mod 256) :: byte)" by simp
  with 1 show ?case
    by (cases "num > 0") (simp_all add: num_bytes.simps [of num] to_base.simps [of 256 num])
qed

lemma bytes_num_from_base: "bytes_num bs = from_base 256 (map unat bs)"
  by (simp add: bytes_num_def from_base_def foldl_map)

lemma bytes_num_nonneg: "0 \<le> bytes_num bs"
  by (simp add: bytes_num_from_base from_base_nonneg)

lemma unat_byte_less: "unat (b :: byte) < 256"
  using unsigned_less [of b] by simp

lemma map_of_nat_unat [simp]: "map (word_of_nat \<circ> unat) (bs :: bytes) = bs"
  by (induction bs) auto

lemma dropWhile_map_unat:
  "dropWhile (\<lambda>d. d = 0) (map unat (bs :: bytes)) = map unat (dropWhile (\<lambda>b. b = 0) bs)"
  by (induction bs) (auto simp: unat_eq_0)

lemma num_bytes_bytes_num: "num_bytes (bytes_num bs) [] = dropWhile (\<lambda>b. b = 0) bs"
proof -
  have "to_base 256 (bytes_num bs) = map unat (dropWhile (\<lambda>b. b = 0) bs)"
    unfolding bytes_num_from_base
    by (subst to_base_from_base) (auto simp: unat_byte_less dropWhile_map_unat)
  then show ?thesis by (simp add: num_bytes_to_base)
qed

lemma b58_num_digits:
  "\<forall>d \<in> set ds. d < 58 \<Longrightarrow>
     b58_num n (map (\<lambda>d. B58_ALPHABET ! d) ds) = Inr (n * 58 ^ length ds + from_base 58 ds)"
proof (induction ds arbitrary: n)
  case (Cons d ds)
  then show ?case
    by (simp add: js_indexOf_distinct B58_ALPHABET_props algebra_simps)
qed simp

lemma b58_num_Inr:
  "b58_num n str = Inr m \<Longrightarrow>
     \<exists>ds. (\<forall>d \<in> set ds. d < 58) \<and> str = map (\<lambda>d. B58_ALPHABET ! d) ds \<and>
       m = n * 58 ^ length ds + from_base 58 ds"
proof (induction str arbitrary: n)
  case (Cons ch str)
  let ?i = "js_indexOf B58_ALPHABET ch"
  from Cons.prems have i: "0 \<le> ?i" and "b58_num (n * 58 + ?i) str = Inr m"
    by (auto simp: Let_def split: if_splits)
  then obtain ds where ds: "\<forall>d \<in> set ds. d < 58" "str = map (\<lambda>d. B58_ALPHABET ! d) ds"
      "m = (n * 58 + ?i) * 58 ^ length ds + from_base 58 ds"
    using Cons.IH by blast
  have "nat ?i < 58" "B58_ALPHABET ! nat ?i = ch"
    using js_indexOf_nth [OF i] by (simp_all add: B58_ALPHABET_props)
  with ds i show ?case by (intro exI [of _ "nat ?i # ds"]) (simp add: algebra_simps)
qed simp

text \<open>Leading ones of the text are the leading zero digits.\<close>

lemma takeWhile_ones:
  "\<forall>d \<in> set ds. d < 58 \<Longrightarrow>
     takeWhile (\<lambda>c. c = CHR ''1'') (map (\<lambda>d. B58_ALPHABET ! d) ds) =
     replicate (length (takeWhile (\<lambda>d. d = 0) ds)) (CHR ''1'')"
proof (induction ds)
  case (Cons d ds)
  have "B58_ALPHABET ! d = CHR ''1'' \<longleftrightarrow> d = 0"
    using Cons.prems nth_eq_iff_index_eq [OF B58_ALPHABET_props(2), of d 0]
    by (simp add: B58_ALPHABET_props)
  with Cons show ?case by (auto simp: B58_ALPHABET_props(3))
qed simp

lemma takeWhile_replicate_append:
  "takeWhile (\<lambda>x. x = a) (replicate k a @ ys) = replicate k a @ takeWhile (\<lambda>x. x = a) ys"
  by (induction k) auto

lemma takeWhile_eq_replicate: "takeWhile (\<lambda>x. x = a) xs = replicate (length (takeWhile (\<lambda>x. x = a) xs)) a"
  by (induction xs) auto

lemma split_leading:
  "xs = replicate (length (takeWhile (\<lambda>x. x = a) xs)) a @ dropWhile (\<lambda>x. x = a) xs"
  using takeWhile_dropWhile_id [of "\<lambda>x. x = a" xs] takeWhile_eq_replicate [of a xs] by simp

section \<open>The round trips\<close>

text \<open>What both directions share: text and bytes of one number with its leading zeros.\<close>

definition b58_text :: "bytes \<Rightarrow> string" where
  "b58_text full =
     replicate (length (takeWhile (\<lambda>b. b = 0) full)) (CHR ''1'') @ b58_chars (bytes_num full) []"

definition b58_bytes :: "string \<Rightarrow> bytes result" where
  "b58_bytes str =
     bindr (b58_num 0 str) (\<lambda>num.
       Inr (replicate (length (takeWhile (\<lambda>c. c = CHR ''1'') str)) 0 @ num_bytes num []))"

definition b58_digits :: "bytes \<Rightarrow> nat list" where
  "b58_digits full =
     replicate (length (takeWhile (\<lambda>b. b = 0) full)) 0 @ to_base 58 (bytes_num full)"

lemma b58_text_digits: "b58_text full = map (\<lambda>d. B58_ALPHABET ! d) (b58_digits full)"
  by (simp add: b58_text_def b58_digits_def b58_chars_to_base B58_ALPHABET_props(3))

lemma b58_digits_less: "d \<in> set (b58_digits full) \<Longrightarrow> d < 58"
  using to_base_digits [of 58 d "bytes_num full"] by (auto simp: b58_digits_def)

lemma takeWhile_b58_digits:
  "length (takeWhile (\<lambda>d. d = 0) (b58_digits full)) = length (takeWhile (\<lambda>b. b = 0) full)"
proof -
  have "takeWhile (\<lambda>d. d = 0) (to_base 58 (bytes_num full)) = []"
    using hd_to_base [of 58 "bytes_num full"]
    by (cases "to_base 58 (bytes_num full)") auto
  then show ?thesis by (simp add: b58_digits_def takeWhile_replicate_append)
qed

lemma b58_bytes_text: "b58_bytes (b58_text full) = Inr full"
proof -
  let ?ds = "b58_digits full"
  have lt: "\<forall>d \<in> set ?ds. d < 58" using b58_digits_less by blast
  have "b58_num 0 (b58_text full) = Inr (bytes_num full)"
    unfolding b58_text_digits
    by (subst b58_num_digits [OF lt])
       (simp add: b58_digits_def from_base_append from_base_to_base bytes_num_nonneg)
  moreover have "length (takeWhile (\<lambda>c. c = CHR ''1'') (b58_text full)) =
      length (takeWhile (\<lambda>b. b = 0) full)"
    by (simp add: b58_text_digits takeWhile_ones [OF lt] takeWhile_b58_digits)
  ultimately show ?thesis
    using split_leading [of full 0]
    by (simp add: b58_bytes_def num_bytes_bytes_num)
qed

lemma takeWhile_num_bytes:
  "takeWhile (\<lambda>b. b = 0) (num_bytes n []) = []"
proof (cases "to_base 256 n")
  case (Cons d ds)
  then have "d \<noteq> 0" "d < 256"
    using hd_to_base [of 256 n] to_base_digits [of 256 d n] by auto
  then have "(of_nat d :: byte) \<noteq> 0" by (simp add: word_of_nat_eq_0_iff nat_dvd_not_less)
  with Cons show ?thesis by (simp add: num_bytes_to_base)
qed (simp add: num_bytes_to_base)

lemma bytes_num_replicate_0: "bytes_num (replicate k 0 @ bs) = bytes_num bs"
  by (simp add: bytes_num_from_base from_base_append)

lemma bytes_num_num_bytes: "0 \<le> n \<Longrightarrow> bytes_num (num_bytes n []) = n"
proof -
  assume "0 \<le> n"
  have "\<forall>d \<in> set (to_base 256 n). d < 256" using to_base_digits [of 256 _ n] by force
  then have "map (\<lambda>d. unat (of_nat d :: byte)) (to_base 256 n) = to_base 256 n"
    by (intro map_idI) (simp add: unat_of_nat)
  with \<open>0 \<le> n\<close> show ?thesis
    by (simp add: bytes_num_from_base num_bytes_to_base o_def from_base_to_base)
qed

lemma b58_text_bytes: "b58_bytes str = Inr full \<Longrightarrow> b58_text full = str"
proof -
  assume "b58_bytes str = Inr full"
  then obtain n where n: "b58_num 0 str = Inr n"
      and full: "full = replicate (length (takeWhile (\<lambda>c. c = CHR ''1'') str)) 0 @ num_bytes n []"
    by (auto simp: b58_bytes_def result_simps)
  from b58_num_Inr [OF n] obtain ds where ds: "\<forall>d \<in> set ds. d < 58"
      "str = map (\<lambda>d. B58_ALPHABET ! d) ds" "n = from_base 58 ds" by auto
  have "0 \<le> n" by (simp add: ds(3) from_base_nonneg)
  let ?k = "length (takeWhile (\<lambda>d. d = 0) ds)"
  have full': "full = replicate ?k 0 @ num_bytes n []"
    by (simp add: full ds(2) takeWhile_ones [OF ds(1)])
  have "bytes_num full = n"
    using \<open>0 \<le> n\<close> by (simp add: full' bytes_num_replicate_0 bytes_num_num_bytes)
  moreover have "length (takeWhile (\<lambda>b. b = 0) full) = ?k"
    by (simp add: full' takeWhile_replicate_append takeWhile_num_bytes)
  moreover have "to_base 58 n = dropWhile (\<lambda>d. d = 0) ds"
    using ds by (simp add: to_base_from_base)
  ultimately have "b58_digits full = ds"
    using split_leading [of ds 0] by (simp add: b58_digits_def)
  then show ?thesis by (simp add: b58_text_digits ds(2))
qed

interpretation b58: codec b58_text
  "\<lambda>s. case b58_bytes s of Inl _ \<Rightarrow> None | Inr bs \<Rightarrow> Some bs" "\<lambda>_. True"
  by unfold_locales (simp add: b58_bytes_text)

text \<open>
  The checksum is four bytes whenever the library's SHA-256 returns at least
  four; then the encoder writes payload and checksum and the decoder returns
  exactly the payload it was made from.
\<close>

definition checksum4 :: "hash_fun \<Rightarrow> bytes \<Rightarrow> bytes" where
  "checksum4 sha256 payload = take 4 (doubleSha256 sha256 payload)"

lemma base58checkEncode_text:
  assumes "\<forall>x. length (sha256 x) = 32"
  shows "base58checkEncode sha256 p = b58_text (p @ checksum4 sha256 p)"
  using assms js_slice_take [of 4 "doubleSha256 sha256 p"]
  by (simp add: base58checkEncode_def b58_text_def Let_def doubleSha256_def checksum4_def)

lemma every_matches_iff: "every_matches e c \<longleftrightarrow> take (length e) c = e"
proof -
  have "every_matches e c \<longleftrightarrow> (\<forall>i < length e. i < length c \<and> e ! i = c ! i)"
    by (auto simp: every_matches_def list_all_iff)
  also have "\<dots> \<longleftrightarrow> take (length e) c = e"
  proof
    assume *: "\<forall>i < length e. i < length c \<and> e ! i = c ! i"
    have "length e \<le> length c"
    proof (rule ccontr)
      assume "\<not> length e \<le> length c"
      then have "length c < length e" by simp
      with * show False by blast
    qed
    with * show "take (length e) c = e" by (intro nth_equalityI) auto
  next
    assume *: "take (length e) c = e"
    then have "length e \<le> length c" by (metis length_take min.cobounded2 min_def nat_le_linear)
    then show "\<forall>i < length e. i < length c \<and> e ! i = c ! i"
      using * by (metis nth_take order.strict_trans2)
  qed
  finally show ?thesis .
qed

lemma base58checkDecode_bytes:
  assumes "\<forall>x. length (sha256 x) = 32"
  shows "base58checkDecode sha256 str = Inr p \<longleftrightarrow> b58_bytes str = Inr (p @ checksum4 sha256 p)"
proof -
  have sl: "js_slice 0 4 (doubleSha256 sha256 q) = checksum4 sha256 q" for q
    using js_slice_take [of 4] by (simp add: checksum4_def)
  have len: "length (checksum4 sha256 q) = 4" for q
    using assms by (simp add: checksum4_def doubleSha256_def)
  have *: "js_slice 0 (int (length full) - 4) full = p \<and>
      every_matches (checksum4 sha256 p) (js_slice_from (int (length full) - 4) full) \<longleftrightarrow>
      full = p @ checksum4 sha256 p" for full
  proof (cases "4 \<le> length full")
    case True
    let ?t = "take (length full - 4) full" and ?d = "drop (length full - 4) full"
    have sl': "js_slice 0 (int (length full) - 4) full = ?t"
        "js_slice_from (int (length full) - 4) full = ?d"
      using js_slice_prefix [OF True] js_slice_from_suffix [OF True] by simp_all
    have d4: "take 4 ?d = ?d" using True by simp
    show ?thesis
      unfolding sl' every_matches_iff len d4
    proof
      assume "?t = p \<and> ?d = checksum4 sha256 p"
      then show "full = p @ checksum4 sha256 p" by (metis append_take_drop_id)
    next
      assume "full = p @ checksum4 sha256 p"
      with len [of p] show "?t = p \<and> ?d = checksum4 sha256 p" by simp
    qed
  next
    case False
    then have "length (js_slice_from (int (length full) - 4) full) < 4"
      by (simp add: js_slice_from_def)
    then have "\<not> every_matches (checksum4 sha256 p) (js_slice_from (int (length full) - 4) full)"
      using len [of p] by (auto simp: every_matches_iff dest!: arg_cong [where f = length])
    with False len [of p] show ?thesis by auto
  qed
  show ?thesis
  proof (cases "b58_num 0 str")
    case (Inl e)
    then show ?thesis by (simp add: base58checkDecode_def b58_bytes_def)
  next
    case (Inr num)
    define full where "full = replicate (length (takeWhile (\<lambda>c. c = CHR ''1'') str)) 0 @ num_bytes num []"
    have "base58checkDecode sha256 str = Inr p \<longleftrightarrow>
        js_slice 0 (int (length full) - 4) full = p \<and>
        every_matches (checksum4 sha256 p) (js_slice_from (int (length full) - 4) full)"
      unfolding base58checkDecode_def Inr bindr_simps Let_def sl full_def [symmetric] by auto
    moreover have "b58_bytes str = Inr full"
      by (simp add: b58_bytes_def Inr full_def)
    ultimately show ?thesis using * [of full] by simp
  qed
qed

lemma base58check_decode_encode:
  assumes "\<forall>x. length (sha256 x) = 32"
  shows "base58checkDecode sha256 (base58checkEncode sha256 p) = Inr p"
  using assms by (simp add: base58checkDecode_bytes base58checkEncode_text b58_bytes_text)

lemma base58check_encode_decode:
  assumes "\<forall>x. length (sha256 x) = 32" "base58checkDecode sha256 str = Inr p"
  shows "base58checkEncode sha256 p = str"
  using assms b58_text_bytes by (simp add: base58checkDecode_bytes base58checkEncode_text)

end
