(* ===== verification/Bech32.thy ===== *)
theory Bech32
  imports Codec
begin

text \<open>
  The bech32 half of \<open>crypto.js\<close>: the checksum polynomial on 32-bit words as
  the bitwise operators compute it, the regrouping of bits between 8-bit and
  5-bit digits, and the text form. The regrouping is shown to copy the bit
  stream, and the checksum is shown to verify under the BIP173 rule.
\<close>

unbundle bit_operations_syntax

section \<open>Definitions\<close>

definition BECH32_CHARSET :: string where
  "BECH32_CHARSET = ''qpzry9x8gf2tvdw0s3jn54khce6mua7l''"

definition BECH32_GEN :: "32 word list" where
  "BECH32_GEN = [0x3b6a57b2, 0x26508e6d, 0x1ea119fa, 0x3d4233dd, 0x2a1462b3]"

text \<open>One round: shift five bits in, and add a generator for each bit shifted out.\<close>

definition polymod_step :: "32 word \<Rightarrow> int \<Rightarrow> 32 word" where
  "polymod_step chk v =
     (let top = drop_bit 25 chk;
          chk1 = push_bit 5 (chk AND 0x1ffffff) XOR word_of_int v
      in foldl (\<lambda>c i. if drop_bit i top AND 1 \<noteq> 0 then c XOR BECH32_GEN ! i else c) chk1 [0..<5])"

definition bech32Polymod :: "int list \<Rightarrow> 32 word" where
  "bech32Polymod values = foldl polymod_step 1 values"

definition bech32HrpExpand :: "string \<Rightarrow> int list" where
  "bech32HrpExpand hrp =
     map (\<lambda>c. of_char c div 32) hrp @ [0] @ map (\<lambda>c. of_char c mod 32) hrp"

definition bech32CreateChecksum :: "string \<Rightarrow> int list \<Rightarrow> int list" where
  "bech32CreateChecksum hrp data =
     (let values = bech32HrpExpand hrp @ data @ [0, 0, 0, 0, 0, 0];
          md = bech32Polymod values XOR 1
      in map (\<lambda>p. uint (drop_bit (5 * (5 - p)) md AND 31)) [0..<6])"

text \<open>The inner \<open>while\<close>: \<open>toBits\<close> is positive at every call.\<close>

function cb_drain :: "nat \<Rightarrow> 32 word \<Rightarrow> nat \<Rightarrow> int list \<Rightarrow> nat \<times> int list" where
  "cb_drain toBits acc bits ret =
     (if toBits \<le> bits \<and> 0 < toBits
      then cb_drain toBits acc (bits - toBits)
             (ret @ [uint (drop_bit (bits - toBits) acc AND (push_bit toBits 1 - 1))])
      else (bits, ret))"
  by pat_completeness auto
termination
  by (relation "measure (\<lambda>(toBits, acc, bits, ret). bits)") auto

declare cb_drain.simps [simp del]

fun cb_loop :: "nat \<Rightarrow> nat \<Rightarrow> int list \<Rightarrow> 32 word \<Rightarrow> nat \<Rightarrow> int list \<Rightarrow> (32 word \<times> nat \<times> int list) result"
where
  "cb_loop fromBits toBits [] acc bits ret = Inr (acc, bits, ret)"
| "cb_loop fromBits toBits (v # vs) acc bits ret =
     (if v < 0 \<or> signed_drop_bit fromBits (word_of_int v :: 32 word) \<noteq> 0
      then Inl (Error ''Invalid data for bit conversion'')
      else let acc' = push_bit fromBits acc OR word_of_int v;
               (bits', ret') = cb_drain toBits acc' (bits + fromBits) ret
           in cb_loop fromBits toBits vs acc' bits' ret')"

definition convertBits :: "int list \<Rightarrow> nat \<Rightarrow> nat \<Rightarrow> bool \<Rightarrow> int list result" where
  "convertBits data fromBits toBits pad =
     bindr (cb_loop fromBits toBits data 0 0 []) (\<lambda>(acc, bits, ret).
       let maxv = push_bit toBits 1 - 1;
           rest = push_bit (toBits - bits) acc AND maxv
       in if pad then Inr (if bits > 0 then ret @ [uint rest] else ret)
          else if bits \<ge> fromBits \<or> rest \<noteq> 0
          then Inl (Error ''Invalid padding in bit conversion'')
          else Inr ret)"

text \<open>Reading the character table out of range gives \<open>undefined\<close>, which \<open>join\<close> drops.\<close>

definition charset_at :: "int \<Rightarrow> string" where
  "charset_at d = (if 0 \<le> d \<and> d < 32 then [BECH32_CHARSET ! nat d] else [])"

definition bech32Encode :: "string \<Rightarrow> int list \<Rightarrow> string" where
  "bech32Encode hrp data =
     (let combined = data @ bech32CreateChecksum hrp data
      in hrp @ ''1'' @ concat (map charset_at combined))"

definition bech32Decode :: "string \<Rightarrow> string \<times> int list" where
  "bech32Decode bech =
     (let pos = js_lastIndexOf bech (CHR ''1'');
          hrp = js_slice 0 pos bech;
          data = map (js_indexOf BECH32_CHARSET) (js_slice (pos + 1) (-6) bech)
      in (hrp, data))"

section \<open>Bit streams\<close>

text \<open>The \<open>k\<close> low bits of a value, most significant first.\<close>

definition msb_list :: "nat \<Rightarrow> (nat \<Rightarrow> bool) \<Rightarrow> bool list" where
  "msb_list k f = map f (rev [0..<k])"

definition bit_stream :: "nat \<Rightarrow> int list \<Rightarrow> bool list" where
  "bit_stream k vs = concat (map (\<lambda>v. msb_list k (bit v)) vs)"

definition in_range :: "nat \<Rightarrow> int \<Rightarrow> bool" where
  "in_range k v \<longleftrightarrow> 0 \<le> v \<and> v < 2 ^ k"

lemma length_msb_list [simp]: "length (msb_list k f) = k"
  by (simp add: msb_list_def)

lemma msb_list_add: "msb_list (m + k) f = msb_list m (\<lambda>i. f (i + k)) @ msb_list k f"
proof -
  have "[0..<m + k] = [0..<k] @ map (\<lambda>i. i + k) [0..<m]"
    using upt_add_eq_append [of 0 k m] map_add_upt [of k m] by (simp only: add.commute le0)
  then show ?thesis by (simp add: msb_list_def rev_map)
qed

lemma msb_list_cong: "(\<And>i. i < k \<Longrightarrow> f i = g i) \<Longrightarrow> msb_list k f = msb_list k g"
  by (simp add: msb_list_def)

lemma msb_list_eq_iff: "msb_list k f = msb_list k g \<longleftrightarrow> (\<forall>i < k. f i = g i)"
  by (auto simp: msb_list_def)

lemma msb_list_False: "msb_list k (\<lambda>_. False) = replicate k False"
  by (simp add: msb_list_def map_replicate_const)

lemma bit_stream_Nil [simp]: "bit_stream k [] = []"
  by (simp add: bit_stream_def)

lemma bit_stream_Cons [simp]: "bit_stream k (v # vs) = msb_list k (bit v) @ bit_stream k vs"
  by (simp add: bit_stream_def)

lemma bit_stream_append [simp]: "bit_stream k (xs @ ys) = bit_stream k xs @ bit_stream k ys"
  by (simp add: bit_stream_def)

lemma length_bit_stream [simp]: "length (bit_stream k vs) = k * length vs"
  by (induction vs) auto

lemma in_range_bit: "in_range k v \<Longrightarrow> k \<le> i \<Longrightarrow> \<not> bit v i"
proof -
  assume v: "in_range k v" and "k \<le> i"
  then have "v < 2 ^ i"
    using order_less_le_trans [OF _ power_increasing [of k i "2 :: int"]] by (simp add: in_range_def)
  with v show ?thesis by (simp add: bit_iff_odd in_range_def)
qed

lemma in_range_eqI:
  assumes "in_range k v" "in_range k w" "msb_list k (bit v) = msb_list k (bit w)"
  shows "v = w"
proof (rule bit_eqI)
  fix n
  show "bit v n = bit w n"
    using assms in_range_bit [of k v n] in_range_bit [of k w n]
    by (cases "n < k") (auto simp: msb_list_eq_iff)
qed

lemma bit_stream_inject:
  assumes "\<forall>v \<in> set vs. in_range k v" "\<forall>w \<in> set ws. in_range k w" "length vs = length ws"
    "bit_stream k vs = bit_stream k ws"
  shows "vs = ws"
  using assms(3,1,2,4)
proof (induction vs ws rule: list_induct2)
  case (Cons v vs w ws)
  then have "msb_list k (bit v) = msb_list k (bit w)" "bit_stream k vs = bit_stream k ws" by auto
  then show ?case using Cons in_range_eqI [of k v w] by simp
qed simp

section \<open>Regrouping copies the bit stream\<close>

lemma maxv_mask: "(push_bit k 1 - 1 :: 32 word) = mask k"
  by (simp add: mask_eq_exp_minus_1 push_bit_of_1)

lemma bit_uint_mask:
  "bit (uint (drop_bit n (acc :: 32 word) AND (push_bit k 1 - 1))) i \<longleftrightarrow> i < k \<and> bit acc (n + i)"
  unfolding maxv_mask
  by (auto simp: bit_and_iff bit_mask_iff bit_drop_bit_eq bit_uint_iff dest: bit_imp_le_length)

lemma in_range_uint_mask:
  "in_range k (uint (x AND (push_bit k 1 - 1 :: 32 word)))"
  unfolding maxv_mask by (simp add: in_range_def and_mask_lt_2p)

lemma cb_drain_spec:
  assumes "0 < toBits" "cb_drain toBits acc bits ret = (bits', ret')"
  shows "bit_stream toBits ret' @ msb_list bits' (bit acc) = bit_stream toBits ret @ msb_list bits (bit acc)
    \<and> bits' < toBits \<and> ((\<forall>v \<in> set ret. in_range toBits v) \<longrightarrow> (\<forall>v \<in> set ret'. in_range toBits v))"
  using assms
proof (induction toBits acc bits ret rule: cb_drain.induct)
  case (1 toBits acc bits ret)
  show ?case
  proof (cases "toBits \<le> bits")
    case True
    define d where "d = uint (drop_bit (bits - toBits) acc AND (push_bit toBits 1 - 1))"
    have "msb_list toBits (bit d) = msb_list toBits (\<lambda>i. bit acc (i + (bits - toBits)))"
      unfolding d_def bit_uint_mask by (rule msb_list_cong) (simp add: add.commute)
    then have eq: "msb_list bits (bit acc) = msb_list toBits (bit d) @ msb_list (bits - toBits) (bit acc)"
      using True msb_list_add [of toBits "bits - toBits" "bit acc"] by simp
    have "in_range toBits d" unfolding d_def by (rule in_range_uint_mask)
    moreover have "cb_drain toBits acc (bits - toBits) (ret @ [d]) = (bits', ret')"
    proof -
      have "cb_drain toBits acc bits ret = cb_drain toBits acc (bits - toBits) (ret @ [d])"
        unfolding d_def by (subst cb_drain.simps) (use "1.prems"(1) True in simp)
      with "1.prems"(2) show ?thesis by metis
    qed
    ultimately have "bit_stream toBits ret' @ msb_list bits' (bit acc) =
          bit_stream toBits (ret @ [d]) @ msb_list (bits - toBits) (bit acc)"
        "bits' < toBits"
        "(\<forall>v \<in> set ret. in_range toBits v) \<longrightarrow> (\<forall>v \<in> set ret'. in_range toBits v)"
      using "1.IH" [OF conjI [OF True "1.prems"(1)] "1.prems"(1)] unfolding d_def [symmetric]
      by (metis rotate1.simps(2) set_ConsD set_rotate1)+
    then show ?thesis unfolding eq by simp
  next
    case False
    with "1.prems" show ?thesis by (auto simp: cb_drain.simps [of toBits acc bits])
  qed
qed

lemma bit_shift_in:
  assumes "in_range k v" "m + k \<le> 32"
  shows "msb_list (m + k) (bit (push_bit k acc OR word_of_int v :: 32 word)) =
    msb_list m (bit acc) @ msb_list k (bit v)"
proof -
  have "bit (push_bit k acc OR word_of_int v :: 32 word) (i + k) = bit acc i" if "i < m" for i
    using that assms in_range_bit [OF assms(1), of "i + k"]
    by (simp add: bit_or_iff bit_push_bit_iff bit_word_of_int_iff)
  moreover have "bit (push_bit k acc OR word_of_int v :: 32 word) i = bit v i" if "i < k" for i
    using that assms by (simp add: bit_or_iff bit_push_bit_iff bit_word_of_int_iff)
  ultimately show ?thesis
    by (simp add: msb_list_add cong: msb_list_cong)
qed

lemma value_check:
  assumes "0 < k" "k < 31" "v < 2 ^ 31"
  shows "\<not> (v < 0 \<or> signed_drop_bit k (word_of_int v :: 32 word) \<noteq> 0) \<longleftrightarrow> in_range k v"
proof (cases "v < 0")
  case False
  then have s: "sint (word_of_int v :: 32 word) = v"
    using assms by (simp add: sint_sbintrunc' signed_take_bit_int_eq_self)
  have "signed_drop_bit k (word_of_int v :: 32 word) = 0 \<longleftrightarrow> v div 2 ^ k = 0"
  proof -
    have "sint (signed_drop_bit k (word_of_int v :: 32 word)) = v div 2 ^ k"
      using s by (simp add: sint_signed_drop_bit_eq drop_bit_eq_div)
    then show ?thesis by (metis signed_0 sint_0 signed_word_eqI)
  qed
  also have "\<dots> \<longleftrightarrow> v < 2 ^ k" using False by (auto simp: zdiv_eq_0_iff)
  finally show ?thesis using False by (simp add: in_range_def)
qed (simp add: in_range_def)

lemma cb_loop_spec:
  assumes "0 < t" "0 < f" "f < 31" "t + f \<le> 32" "\<forall>v \<in> set data. in_range f v" "bits < t"
    "\<forall>v \<in> set ret. in_range t v"
  shows "\<exists>acc' bits' ret'. cb_loop f t data acc bits ret = Inr (acc', bits', ret') \<and>
    bit_stream t ret' @ msb_list bits' (bit acc') =
      bit_stream t ret @ msb_list bits (bit acc) @ bit_stream f data \<and>
    bits' < t \<and> (\<forall>v \<in> set ret'. in_range t v)"
  using assms(5-7)
proof (induction data arbitrary: acc bits ret)
  case (Cons v data)
  have v: "in_range f v" using Cons.prems by simp
  have "v < 2 ^ f" using v by (simp add: in_range_def)
  also have "(2 :: int) ^ f \<le> 2 ^ 31" using assms(3) by (intro power_increasing) auto
  finally have chk: "\<not> (v < 0 \<or> signed_drop_bit f (word_of_int v :: 32 word) \<noteq> 0)"
    using value_check [of f v] assms(2,3) v by blast
  let ?acc = "push_bit f acc OR word_of_int v :: 32 word"
  obtain bits1 ret1 where d: "cb_drain t ?acc (bits + f) ret = (bits1, ret1)" by fastforce
  have step: "cb_loop f t (v # data) acc bits ret = cb_loop f t data ?acc bits1 ret1"
    using chk d by (simp add: Let_def)
  have "bit_stream t ret1 @ msb_list bits1 (bit ?acc) =
      bit_stream t ret @ msb_list (bits + f) (bit ?acc)" "bits1 < t" "\<forall>v \<in> set ret1. in_range t v"
    using cb_drain_spec [OF assms(1) d] Cons.prems(3) by blast+
  moreover have "msb_list (bits + f) (bit ?acc) = msb_list bits (bit acc) @ msb_list f (bit v)"
    using bit_shift_in [OF v, of bits acc] Cons.prems(2) assms(4) by simp
  moreover obtain acc' bits' ret' where "cb_loop f t data ?acc bits1 ret1 = Inr (acc', bits', ret')"
      "bit_stream t ret' @ msb_list bits' (bit acc') =
        bit_stream t ret1 @ msb_list bits1 (bit ?acc) @ bit_stream f data"
      "bits' < t" "\<forall>v \<in> set ret'. in_range t v"
    using Cons.IH [of bits1 ret1 ?acc] Cons.prems(1) calculation by auto
  ultimately show ?case unfolding step by (metis append_assoc bit_stream_Cons)
qed simp

text \<open>A value out of range is refused.\<close>

lemma cb_loop_invalid:
  assumes "0 < f" "f < 31" "\<exists>v \<in> set data. \<not> in_range f v" "\<forall>v \<in> set data. v < 2 ^ 31"
  shows "cb_loop f t data acc bits ret = Inl (Error ''Invalid data for bit conversion'')"
  using assms(3,4)
proof (induction data arbitrary: acc bits ret)
  case (Cons v data)
  show ?case
  proof (cases "in_range f v")
    case True
    then show ?thesis using Cons value_check [of f v] assms(1,2) by (auto simp: Let_def split: prod.splits)
  next
    case False
    then have "v < 0 \<or> signed_drop_bit f (word_of_int v :: 32 word) \<noteq> 0"
      using value_check [of f v] assms(1,2) Cons.prems(2) by simp
    then show ?thesis by simp
  qed
qed simp

text \<open>The bits left in the accumulator, shifted to the top of one digit.\<close>

lemma rest_bits:
  assumes "bits \<le> t" "t \<le> 32"
  shows "msb_list t (bit (uint (push_bit (t - bits) (acc :: 32 word) AND (push_bit t 1 - 1)))) =
    msb_list bits (bit acc) @ replicate (t - bits) False"
proof -
  let ?r = "push_bit (t - bits) acc AND (push_bit t 1 - 1) :: 32 word"
  have b: "bit (uint ?r) i \<longleftrightarrow> i < t \<and> t - bits \<le> i \<and> bit acc (i - (t - bits))" for i
    using bit_uint_mask [of 0 "push_bit (t - bits) acc" t i] assms
    by (auto simp: bit_push_bit_iff)
  have "msb_list (bits + (t - bits)) (bit (uint ?r)) =
      msb_list bits (\<lambda>i. bit (uint ?r) (i + (t - bits))) @ msb_list (t - bits) (bit (uint ?r))"
    by (rule msb_list_add)
  moreover have "msb_list bits (\<lambda>i. bit (uint ?r) (i + (t - bits))) = msb_list bits (bit acc)"
    using assms by (intro msb_list_cong) (simp only: b, auto)
  moreover have "msb_list (t - bits) (bit (uint ?r)) = msb_list (t - bits) (\<lambda>_. False)"
    by (intro msb_list_cong) (simp only: b, auto)
  ultimately show ?thesis using assms(1) by (simp add: msb_list_False)
qed

lemma rest_zero:
  assumes "bits \<le> t" "t \<le> 32"
  shows "push_bit (t - bits) (acc :: 32 word) AND (push_bit t 1 - 1) = 0 \<longleftrightarrow>
    msb_list bits (bit acc) = replicate bits False"
proof -
  let ?r = "push_bit (t - bits) acc AND (push_bit t 1 - 1) :: 32 word"
  have "?r = 0 \<longleftrightarrow> uint ?r = 0" by (simp only: uint_0_iff)
  also have "\<dots> \<longleftrightarrow> msb_list t (bit (uint ?r)) = msb_list t (bit (0 :: int))"
    using in_range_eqI [of t "uint ?r" 0] in_range_uint_mask [of t "push_bit (t - bits) acc"]
    by (auto simp: in_range_def)
  also have "msb_list t (bit (0 :: int)) = replicate t False"
    using msb_list_cong [of t "bit (0 :: int)" "\<lambda>_. False"] by (simp add: msb_list_False)
  also have "msb_list t (bit (uint ?r)) = replicate t False \<longleftrightarrow>
      msb_list bits (bit acc) @ replicate (t - bits) False = replicate bits False @ replicate (t - bits) False"
    unfolding rest_bits [OF assms] replicate_add [symmetric] using assms(1) by simp
  finally show ?thesis by simp
qed

lemma convertBits_pad:
  assumes "0 < t" "0 < f" "f < 31" "t + f \<le> 32" "\<forall>v \<in> set data. in_range f v"
  shows "\<exists>ret p. convertBits data f t True = Inr ret \<and> p < t \<and>
    bit_stream t ret = bit_stream f data @ replicate p False \<and> (\<forall>v \<in> set ret. in_range t v)"
proof -
  obtain acc bits ret where l: "cb_loop f t data 0 0 [] = Inr (acc, bits, ret)"
      and st: "bit_stream t ret @ msb_list bits (bit acc) = bit_stream f data"
      and b: "bits < t" and r: "\<forall>v \<in> set ret. in_range t v"
    using cb_loop_spec [OF assms, of 0 "[]" 0] assms(1) by (auto simp: msb_list_def)
  define w where "w = uint (push_bit (t - bits) acc AND (push_bit t 1 - 1))"
  show ?thesis
  proof (cases "bits > 0")
    case True
    have "msb_list t (bit w) = msb_list bits (bit acc) @ replicate (t - bits) False"
      unfolding w_def using b assms(4) by (intro rest_bits) auto
    moreover have "in_range t w" unfolding w_def by (rule in_range_uint_mask)
    moreover have "convertBits data f t True = Inr (ret @ [w])"
      using True by (simp add: convertBits_def l Let_def w_def)
    ultimately show ?thesis
      using st r True b by (intro exI [of _ "ret @ [w]"] exI [of _ "t - bits"]) (simp flip: st)
  next
    case False
    then have "convertBits data f t True = Inr ret" by (simp add: convertBits_def l Let_def)
    moreover have "bit_stream t ret = bit_stream f data" using st False by (simp add: msb_list_def)
    ultimately show ?thesis using assms(1) r by (intro exI [of _ ret] exI [of _ 0]) simp
  qed
qed

lemma convertBits_strict:
  assumes "0 < t" "0 < f" "f < 31" "t + f \<le> 32" "\<forall>v \<in> set data. in_range f v"
    "bit_stream f data = bit_stream t out @ replicate p False" "p < t" "p < f"
    "\<forall>v \<in> set out. in_range t v"
  shows "convertBits data f t False = Inr out"
proof -
  obtain acc bits ret where l: "cb_loop f t data 0 0 [] = Inr (acc, bits, ret)"
      and st: "bit_stream t ret @ msb_list bits (bit acc) = bit_stream f data"
      and b: "bits < t" and r: "\<forall>v \<in> set ret. in_range t v"
    using cb_loop_spec [OF assms(1-5), of 0 "[]" 0] assms(1) by (auto simp: msb_list_def)
  have "t * length ret + bits = t * length out + p"
    using arg_cong [OF trans [OF st assms(6)], of length] by simp
  then have "(t * length ret + bits) div t = (t * length out + p) div t"
      "(t * length ret + bits) mod t = (t * length out + p) mod t" by simp_all
  then have len: "length ret = length out" "bits = p"
    using b assms(7) by simp_all
  then have "bit_stream t ret = bit_stream t out" and tl: "msb_list bits (bit acc) = replicate bits False"
    using trans [OF st assms(6)] by (auto simp: append_eq_append_conv)
  then have "ret = out" using bit_stream_inject [of ret t out] r assms(9) len(1) by blast
  moreover have "push_bit (t - bits) acc AND (push_bit t 1 - 1) = (0 :: 32 word)"
    using rest_zero [of bits t acc] tl b assms(4) by simp
  ultimately show ?thesis
    using len(2) assms(8) by (simp add: convertBits_def l Let_def)
qed

lemma convertBits_round_trip:
  assumes "\<forall>v \<in> set data. in_range 8 v"
  shows "\<exists>ret. convertBits data 8 5 True = Inr ret \<and> convertBits ret 5 8 False = Inr data \<and>
    (\<forall>v \<in> set ret. in_range 5 v)"
proof -
  obtain ret p where ret: "convertBits data 8 5 True = Inr ret" "p < 5"
      "bit_stream 5 ret = bit_stream 8 data @ replicate p False" "\<forall>v \<in> set ret. in_range 5 v"
    using convertBits_pad [of 5 8 data] assms by auto
  moreover have "convertBits ret 5 8 False = Inr data"
    using ret assms by (intro convertBits_strict [where p = p]) auto
  ultimately show ?thesis by blast
qed

section \<open>The checksum verifies\<close>

definition gen_sum :: "32 word \<Rightarrow> 32 word" where
  "gen_sum chk =
     (if bit chk 25 then 0x3b6a57b2 else 0) XOR (if bit chk 26 then 0x26508e6d else 0) XOR
     (if bit chk 27 then 0x1ea119fa else 0) XOR (if bit chk 28 then 0x3d4233dd else 0) XOR
     (if bit chk 29 then 0x2a1462b3 else 0)"

lemma polymod_step_eq:
  "polymod_step chk v = push_bit 5 (chk AND 0x1ffffff) XOR word_of_int v XOR gen_sum chk"
proof -
  have b: "drop_bit i (drop_bit 25 chk) AND 1 \<noteq> 0 \<longleftrightarrow> bit chk (25 + i)" for i
    by (simp add: bit_iff_and_drop_bit_eq_1 and_one_eq add.commute mod_2_eq_odd)
  have l: "[0..<5] = [0, 1, 2, 3, 4]" by (simp add: upt_rec)
  show ?thesis
    unfolding polymod_step_def Let_def b l gen_sum_def BECH32_GEN_def
    by (simp add: xor.assoc)
qed

lemma gen_sum_xor: "gen_sum (a XOR b) = gen_sum a XOR gen_sum b"
proof -
  have *: "(if bit (a XOR b) n then g else 0) = (if bit a n then g else 0) XOR (if bit b n then g else 0)"
    for n and g :: "32 word" by (simp add: bit_xor_iff)
  show ?thesis unfolding gen_sum_def * by (simp only: xor.assoc xor.left_commute xor.commute)
qed

lemma polymod_step_xor: "polymod_step (a XOR b) v = polymod_step a 0 XOR polymod_step b v"
proof -
  have "(a XOR b) AND 0x1ffffff = (a AND 0x1ffffff) XOR (b AND 0x1ffffff)"
    by (simp add: bit_eq_iff bit_simps) blast
  then have "push_bit 5 ((a XOR b) AND 0x1ffffff) =
      push_bit 5 (a AND 0x1ffffff) XOR push_bit 5 (b AND 0x1ffffff)"
    by (simp add: push_bit_xor)
  then show ?thesis
    unfolding polymod_step_eq gen_sum_xor
    by (simp only: of_int_0 xor.left_neutral xor.right_neutral xor.assoc xor.left_commute xor.commute)
qed

lemma polymod_run_xor:
  "foldl polymod_step (a XOR b) vs =
     foldl polymod_step a (replicate (length vs) 0) XOR foldl polymod_step b vs"
  by (induction vs arbitrary: a b) (simp_all add: polymod_step_xor)

definition bits30 :: "32 word \<Rightarrow> bool" where
  "bits30 w \<longleftrightarrow> \<not> bit w 30 \<and> \<not> bit w 31"

lemma bits30_iff: "bits30 w \<longleftrightarrow> (\<forall>n. bit w n \<longrightarrow> n < 30)"
proof
  assume w: "bits30 w"
  show "\<forall>n. bit w n \<longrightarrow> n < 30"
  proof (intro allI impI)
    fix n
    assume n: "bit w n"
    then have "n < 32" by (auto dest: bit_imp_le_length)
    moreover have "n \<noteq> 30" "n \<noteq> 31" using w n by (auto simp: bits30_def)
    ultimately show "n < 30" by simp
  qed
qed (auto simp: bits30_def)

lemma bits30_xor: "bits30 a \<Longrightarrow> bits30 b \<Longrightarrow> bits30 (a XOR b)"
  by (simp add: bits30_def bit_xor_iff)

lemma bits30_gen_sum: "bits30 (gen_sum chk)"
  unfolding gen_sum_def by (intro bits30_xor) (auto simp: bits30_def)

lemma bits30_polymod_step0: "bits30 (polymod_step chk 0)"
proof -
  have "bits30 (push_bit 5 (chk AND 0x1ffffff))"
    by (simp add: bits30_def bit_push_bit_iff bit_and_iff)
  then show ?thesis unfolding polymod_step_eq by (simp add: bits30_xor bits30_gen_sum)
qed

text \<open>Below 25 bits a round only shifts.\<close>

lemma polymod_step_small:
  assumes "\<And>n. bit x n \<Longrightarrow> n < 25"
  shows "polymod_step x v = push_bit 5 x XOR word_of_int v"
proof -
  have g: "gen_sum x = 0" using assms [of 25] assms [of 26] assms [of 27] assms [of 28] assms [of 29]
    by (auto simp: gen_sum_def)
  have "x AND 0x1ffffff = x"
  proof -
    have "(0x1ffffff :: 32 word) = mask 25" by (simp add: mask_eq_exp_minus_1)
    then show ?thesis
      using assms by (auto simp: bit_eq_iff bit_and_iff bit_mask_iff dest: bit_imp_le_length)
  qed
  then show ?thesis by (simp add: polymod_step_eq g)
qed

lemma polymod_step_digit:
  assumes "bits30 w" "5 \<le> 30 - n" "n \<le> 25"
  shows "polymod_step (drop_bit (n + 5) w) (uint (drop_bit n w AND 31)) = drop_bit n w"
proof -
  have "\<And>i. bit (drop_bit (n + 5) w) i \<Longrightarrow> i < 25"
    using assms(1) by (force simp: bits30_iff bit_drop_bit_eq)
  then have "polymod_step (drop_bit (n + 5) w) (uint (drop_bit n w AND 31)) =
      push_bit 5 (drop_bit (n + 5) w) XOR (drop_bit n w AND 31)"
    by (simp add: polymod_step_small)
  also have "\<dots> = drop_bit n w"
  proof -
    have "(31 :: 32 word) = mask 5" by (simp add: mask_eq_exp_minus_1)
    then show ?thesis
      by (auto simp: bit_eq_iff bit_xor_iff bit_and_iff bit_mask_iff bit_push_bit_iff
          bit_drop_bit_eq add.commute dest: bit_imp_le_length)
  qed
  finally show ?thesis .
qed

lemma drop_bit_30: "bits30 w \<Longrightarrow> drop_bit 30 w = 0"
  by (force simp: bits30_iff bit_eq_iff bit_drop_bit_eq)

lemma polymod_digits:
  assumes "bits30 w"
  shows "foldl polymod_step 0 (map (\<lambda>p. uint (drop_bit (5 * (5 - p)) w AND 31)) [0..<6]) = w"
proof -
  have "[0..<6] = [0, 1, 2, 3, 4, 5]" by (simp add: upt_rec)
  then show ?thesis
    using polymod_step_digit [OF assms, of 25] polymod_step_digit [OF assms, of 20]
      polymod_step_digit [OF assms, of 15] polymod_step_digit [OF assms, of 10]
      polymod_step_digit [OF assms, of 5] polymod_step_digit [OF assms, of 0]
      drop_bit_30 [OF assms]
    by simp
qed

text \<open>BIP173's rule for a valid string: the polynomial of everything is 1.\<close>

definition bech32_verify :: "string \<Rightarrow> int list \<Rightarrow> bool" where
  "bech32_verify hrp data \<longleftrightarrow> bech32Polymod (bech32HrpExpand hrp @ data) = 1"

lemma bech32CreateChecksum_verifies:
  "bech32_verify hrp (data @ bech32CreateChecksum hrp data)"
proof -
  let ?s = "foldl polymod_step 1 (bech32HrpExpand hrp @ data)"
  let ?z = "foldl polymod_step ?s (replicate 6 0)"
  have z6: "replicate 6 (0 :: int) = [0, 0, 0, 0, 0, 0]" by (simp add: eval_nat_numeral)
  define md where "md = ?z XOR 1"
  have "bits30 ?z" unfolding z6 by (simp add: bits30_polymod_step0)
  then have md: "bits30 md" unfolding md_def by (intro bits30_xor) (auto simp: bits30_def)
  let ?cs = "map (\<lambda>p. uint (drop_bit (5 * (5 - p)) md AND 31)) [0..<6]"
  have cs: "bech32CreateChecksum hrp data = ?cs"
    by (simp add: bech32CreateChecksum_def bech32Polymod_def Let_def md_def z6)
  have "foldl polymod_step ?s ?cs = ?z XOR foldl polymod_step 0 ?cs"
    using polymod_run_xor [of ?s 0 ?cs] by (simp del: foldl_append foldl_map upt_Suc)
  also have "\<dots> = 1"
    unfolding polymod_digits [OF md] by (simp add: md_def xor.assoc [symmetric] del: foldl_append)
  finally show ?thesis
    by (simp add: bech32_verify_def bech32Polymod_def cs del: foldl_map upt_Suc)
qed

section \<open>The text form\<close>

lemma BECH32_CHARSET_props:
  "length BECH32_CHARSET = 32" "distinct BECH32_CHARSET" "CHR ''1'' \<notin> set BECH32_CHARSET"
  by code_simp+

lemma charset_at_in_range: "in_range 5 d \<Longrightarrow> charset_at d = [BECH32_CHARSET ! nat d]"
  by (simp add: charset_at_def in_range_def)

lemma charset_text:
  assumes "\<forall>d \<in> set data. in_range 5 d"
  shows "concat (map charset_at data) = map (\<lambda>d. BECH32_CHARSET ! nat d) data"
    and "map (js_indexOf BECH32_CHARSET) (concat (map charset_at data)) = data"
    and "CHR ''1'' \<notin> set (concat (map charset_at data))"
proof -
  have one: "concat (map charset_at data) = map (\<lambda>d. BECH32_CHARSET ! nat d) data"
    if "\<forall>d \<in> set data. in_range 5 d" for data
    using that by (induction data) (auto simp: charset_at_in_range)
  show "concat (map charset_at data) = map (\<lambda>d. BECH32_CHARSET ! nat d) data"
    using assms by (rule one)
  have lt: "\<forall>d \<in> set data. 0 \<le> d \<and> nat d < 32"
    using assms by (auto simp: in_range_def nat_less_iff)
  then show "map (js_indexOf BECH32_CHARSET) (concat (map charset_at data)) = data"
    by (auto simp: one [OF assms] js_indexOf_distinct BECH32_CHARSET_props intro!: map_idI)
  show "CHR ''1'' \<notin> set (concat (map charset_at data))"
    using lt BECH32_CHARSET_props(1,3) by (auto simp: one [OF assms] dest: nth_mem)
qed

lemma bech32Decode_text:
  assumes "\<forall>d \<in> set data. in_range 5 d" "CHR ''1'' \<notin> set cs" "length cs = 6"
  shows "bech32Decode (hrp @ ''1'' @ concat (map charset_at data) @ cs) = (hrp, data)"
proof -
  let ?t = "concat (map charset_at data)"
  let ?s = "hrp @ CHR ''1'' # (?t @ cs)"
  have pos: "js_lastIndexOf ?s (CHR ''1'') = int (length hrp)"
    using assms charset_text(3) [OF assms(1)] by (intro js_lastIndexOf_append) auto
  have "js_slice 0 (int (length hrp)) ?s = hrp" by (simp add: js_slice_take)
  moreover have "js_slice (int (length hrp) + 1) (-6) ?s = ?t"
    using assms(3)
    by (simp add: js_slice_def rel_index_def Let_def nat_add_distrib nat_diff_distrib' min_def)
  ultimately show ?thesis
    using pos charset_text(2) [OF assms(1)] by (simp add: bech32Decode_def Let_def)
qed

lemma length_bech32CreateChecksum [simp]: "length (bech32CreateChecksum hrp data) = 6"
  by (simp add: bech32CreateChecksum_def Let_def)

lemma bech32CreateChecksum_range: "d \<in> set (bech32CreateChecksum hrp data) \<Longrightarrow> in_range 5 d"
  using in_range_uint_mask [of 5]
  by (auto simp: bech32CreateChecksum_def Let_def)

lemma checksum_text:
  shows "length (concat (map charset_at (bech32CreateChecksum hrp data))) = 6"
    and "CHR ''1'' \<notin> set (concat (map charset_at (bech32CreateChecksum hrp data)))"
proof -
  have "\<forall>d \<in> set (bech32CreateChecksum hrp data). in_range 5 d"
    by (blast intro: bech32CreateChecksum_range)
  then show "length (concat (map charset_at (bech32CreateChecksum hrp data))) = 6"
      "CHR ''1'' \<notin> set (concat (map charset_at (bech32CreateChecksum hrp data)))"
    using charset_text by simp_all
qed

lemma bech32Decode_Encode:
  assumes "\<forall>d \<in> set data. in_range 5 d"
  shows "bech32Decode (bech32Encode hrp data) = (hrp, data)"
  using bech32Decode_text [OF assms checksum_text(2) checksum_text(1)]
  by (simp add: bech32Encode_def Let_def)

end
