(* ===== verification/Address.thy ===== *)
theory Address
  imports Base58 Bech32
begin

text \<open>
  The address layer of \<open>crypto.js\<close>: the two networks' parameters, the three
  address constructors and \<open>decodeAddress\<close> with its order of checks. The
  theorems relate the constructors to the decoder on both networks, and state
  precisely where the decoder departs from what an address format promises.
\<close>

section \<open>Definitions\<close>

record network =
  p2pkhVersion :: nat
  p2shVersion :: nat
  wifVersion :: nat
  bech32Hrp :: string
  bip44CoinType :: nat
  bip32Private :: nat
  bip32Public :: nat

definition mainnet :: network where
  "mainnet = \<lparr>p2pkhVersion = 36, p2shVersion = 28, wifVersion = 164, bech32Hrp = ''fic'',
     bip44CoinType = 9770, bip32Private = 0x0488ade4, bip32Public = 0x0488b21e\<rparr>"

definition testnet :: network where
  "testnet = \<lparr>p2pkhVersion = 111, p2shVersion = 196, wifVersion = 239, bech32Hrp = ''tfic'',
     bip44CoinType = 9770, bip32Private = 0x04358394, bip32Public = 0x043587cf\<rparr>"

definition NETWORKS :: "string \<Rightarrow> network option" where
  "NETWORKS name =
     (if name = ''mainnet'' then Some mainnet else if name = ''testnet'' then Some testnet else None)"

text \<open>A version byte and a hash copied into a fresh array of 21 bytes.\<close>

definition versioned :: "nat \<Rightarrow> bytes \<Rightarrow> bytes result" where
  "versioned v h =
     (if 20 < length h then Inl RangeError
      else Inr (of_nat v # h @ replicate (20 - length h) 0))"

definition p2pkhAddress :: "hash_fun \<Rightarrow> bytes \<Rightarrow> network \<Rightarrow> string result" where
  "p2pkhAddress sha256 pubkeyHash20 net =
     bindr (versioned (p2pkhVersion net) pubkeyHash20) (\<lambda>payload.
       Inr (base58checkEncode sha256 payload))"

definition p2shAddress :: "hash_fun \<Rightarrow> bytes \<Rightarrow> network \<Rightarrow> string result" where
  "p2shAddress sha256 scriptHash20 net =
     bindr (versioned (p2shVersion net) scriptHash20) (\<lambda>payload.
       Inr (base58checkEncode sha256 payload))"

definition p2wpkhAddress :: "bytes \<Rightarrow> network \<Rightarrow> string result" where
  "p2wpkhAddress pubkeyHash20 net =
     bindr (convertBits (map uint pubkeyHash20) 8 5 True) (\<lambda>program.
       Inr (bech32Encode (bech32Hrp net) ([0] @ program)))"

datatype AddressType = P2pkh | P2sh | P2wpkh

definition version_error :: "byte \<Rightarrow> string" where
  "version_error v =
     ''Address version byte '' @ js_toString 10 (uint v) @ '' does not match this network''"

definition decodeAddress :: "hash_fun \<Rightarrow> string \<Rightarrow> network \<Rightarrow> (AddressType \<times> bytes) result" where
  "decodeAddress sha256 address net =
     (if js_startsWith (js_toLowerCase address) (bech32Hrp net @ ''1'')
      then let (hrp, data) = bech32Decode address
           in if hrp \<noteq> bech32Hrp net then Inl (Error ''Address is for a different network'')
              else bindr (convertBits (drop 1 data) 5 8 False) (\<lambda>program.
                if data = [] \<or> hd data \<noteq> 0 \<or> length program \<noteq> 20
                then Inl (Error ''Unsupported witness version/program length'')
                else Inr (P2wpkh, map word_of_int program))
      else bindr (base58checkDecode sha256 address) (\<lambda>decoded.
        if length decoded \<noteq> 21 then Inl (Error ''Invalid Base58Check address length'')
        else let version = hd decoded; payload = drop 1 decoded
             in if unat version = p2pkhVersion net then Inr (P2pkh, payload)
                else if unat version = p2shVersion net then Inr (P2sh, payload)
                else Inl (Error (version_error version))))"

section \<open>Base58Check addresses\<close>

lemma versioned_20: "length h = 20 \<Longrightarrow> versioned v h = Inr (of_nat v # h)"
  by (simp add: versioned_def)

text \<open>
  A 21-byte payload with its checksum is a number whose leading byte is the
  version, so the leading base-58 digits are determined by the version.
\<close>

lemma bytes_num_Cons: "bytes_num (b # bs) = uint b * 256 ^ length bs + bytes_num bs"
  by (simp add: bytes_num_from_base)

lemma bytes_num_less: "bytes_num bs < 256 ^ length bs"
  using from_base_less [of 256 "map unat bs"] by (simp add: bytes_num_from_base unat_byte_less)

lemma b58_text_nonzero:
  assumes "b \<noteq> 0"
  shows "b58_text (b # bs) = map (\<lambda>d. B58_ALPHABET ! d) (to_base 58 (bytes_num (b # bs)))"
  using assms by (simp add: b58_text_digits b58_digits_def)

text \<open>The leading characters are those of the number divided by a power of 58.\<close>

lemma b58_text_prefix:
  assumes "b \<noteq> 0" "k \<le> L" "58 ^ (L - 1) \<le> bytes_num (b # bs)" "bytes_num (b # bs) < 58 ^ L" "0 < L"
    "\<forall>d \<in> set ds. d < 58" "length ds = k"
    "from_base 58 ds * 58 ^ (L - k) \<le> bytes_num (b # bs)"
    "bytes_num (b # bs) < (from_base 58 ds + 1) * 58 ^ (L - k)"
  shows "take k (b58_text (b # bs)) = map (\<lambda>d. B58_ALPHABET ! d) ds"
proof -
  let ?n = "bytes_num (b # bs)" and ?ds = "to_base 58 (bytes_num (b # bs))"
  have len: "length ?ds = L"
    using to_base_length [of 58 "L - 1" ?n] assms(3-5) by simp
  have "from_base 58 (take k ?ds) = ?n div 58 ^ (L - k)"
    using to_base_take [of 58 ?n k] len assms(2) bytes_num_nonneg by simp
  also have "\<dots> = from_base 58 ds"
  proof (rule int_div_pos_eq)
    show "?n = 58 ^ (L - k) * from_base 58 ds + (?n - 58 ^ (L - k) * from_base 58 ds)" by simp
    show "0 \<le> ?n - 58 ^ (L - k) * from_base 58 ds" using assms(8) by (simp add: mult.commute)
    show "?n - 58 ^ (L - k) * from_base 58 ds < 58 ^ (L - k)"
      using assms(9) by (simp add: algebra_simps)
  qed
  finally have eq: "from_base 58 (take k ?ds) = from_base 58 ds" .
  have lt: "\<forall>d \<in> set (take k ?ds). d < 58"
    using to_base_digits [of 58 _ ?n] by (force dest: in_set_takeD)
  have "take k ?ds = ds"
    using from_base_inject [of 58 "take k ?ds" ds] eq lt assms(2,6,7) len by simp
  then show ?thesis using assms(1) by (simp add: b58_text_nonzero take_map)
qed

text \<open>The first character of an address fixes the branch the decoder takes.\<close>

lemma not_startsWith_hd:
  "take 1 s = [c] \<Longrightarrow> char_lower c \<noteq> p \<Longrightarrow> \<not> js_startsWith (js_toLowerCase s) (p # ps)"
  by (cases s) (auto simp: js_startsWith_def js_toLowerCase_def)

lemma version_first_char:
  assumes len: "length bs = 24"
  shows "take 1 (b58_text ((36 :: byte) # bs)) = ''F''"
    and "take 1 (b58_text ((28 :: byte) # bs)) = ''C''"
    and "take 1 (b58_text ((111 :: byte) # bs)) \<in> {''m'', ''n''}"
    and "take 1 (b58_text ((196 :: byte) # bs)) = ''2''"
proof -
  have al: "B58_ALPHABET ! 14 = CHR ''F''" "B58_ALPHABET ! 11 = CHR ''C''"
      "B58_ALPHABET ! 44 = CHR ''m''" "B58_ALPHABET ! 45 = CHR ''n''" "B58_ALPHABET ! Suc 0 = CHR ''2''"
    by code_simp+
  have n: "0 \<le> bytes_num bs" "bytes_num bs < 256 ^ 24"
    using bytes_num_nonneg [of bs] bytes_num_less [of bs] len by simp_all
  have num: "bytes_num ((v :: byte) # bs) = uint v * 256 ^ 24 + bytes_num bs" for v
    by (simp add: bytes_num_Cons len)
  show "take 1 (b58_text ((36 :: byte) # bs)) = ''F''"
    using b58_text_prefix [of 36 1 34 bs "[14]"] n by (simp add: num al)
  show "take 1 (b58_text ((28 :: byte) # bs)) = ''C''"
    using b58_text_prefix [of 28 1 34 bs "[11]"] n by (simp add: num al)
  show "take 1 (b58_text ((196 :: byte) # bs)) = ''2''"
    using b58_text_prefix [of 196 1 35 bs "[1]"] n by (simp add: num al)
  show "take 1 (b58_text ((111 :: byte) # bs)) \<in> {''m'', ''n''}"
    using b58_text_prefix [of 111 1 34 bs "[44]"] b58_text_prefix [of 111 1 34 bs "[45]"] n
    by (cases "bytes_num ((111 :: byte) # bs) < 45 * 58 ^ 33") (auto simp: num al)
qed

text \<open>What the decoder does with an encoded payload once the bech32 test fails.\<close>

lemma decodeAddress_payload:
  assumes "\<forall>x. length (sha256 x) = 32" "length h = 20"
    "\<not> js_startsWith (js_toLowerCase (base58checkEncode sha256 (v # h))) (bech32Hrp net @ ''1'')"
  shows "decodeAddress sha256 (base58checkEncode sha256 (v # h)) net =
    (if unat v = p2pkhVersion net then Inr (P2pkh, h)
     else if unat v = p2shVersion net then Inr (P2sh, h)
     else Inl (Error (version_error v)))"
  using assms by (simp add: decodeAddress_def base58check_decode_encode)

lemma checksum4_length: "\<forall>x. length (sha256 x) = 32 \<Longrightarrow> length (checksum4 sha256 p) = 4"
  by (simp add: checksum4_def doubleSha256_def)

lemma encode_first_char:
  assumes "\<forall>x. length (sha256 x) = 32" "length h = 20"
  shows "take 1 (base58checkEncode sha256 (36 # h)) = ''F''"
    and "take 1 (base58checkEncode sha256 (28 # h)) = ''C''"
    and "take 1 (base58checkEncode sha256 (111 # h)) \<in> {''m'', ''n''}"
    and "take 1 (base58checkEncode sha256 (196 # h)) = ''2''"
  using version_first_char [of "h @ checksum4 sha256 (_ # h)"] assms
  by (simp_all add: base58checkEncode_text checksum4_length)

lemma char_lower_leading:
  "char_lower (CHR ''C'') \<noteq> CHR ''f''" "char_lower (CHR ''m'') \<noteq> CHR ''t''"
  "char_lower (CHR ''n'') \<noteq> CHR ''t''" "char_lower (CHR ''2'') \<noteq> CHR ''t''"
  by code_simp+

lemma not_bech32_prefix:
  assumes "\<forall>x. length (sha256 x) = 32" "length h = 20"
  shows "\<not> js_startsWith (js_toLowerCase (base58checkEncode sha256 (28 # h))) (bech32Hrp mainnet @ ''1'')"
    and "\<not> js_startsWith (js_toLowerCase (base58checkEncode sha256 (111 # h))) (bech32Hrp testnet @ ''1'')"
    and "\<not> js_startsWith (js_toLowerCase (base58checkEncode sha256 (196 # h))) (bech32Hrp testnet @ ''1'')"
  using encode_first_char [OF assms] not_startsWith_hd char_lower_leading
  by (auto simp: mainnet_def testnet_def)

lemma bech32_hrp_mismatch:
  assumes "js_startsWith (js_toLowerCase s) (hrp @ ''1'')" "take 1 s = [c]" "take 1 hrp = [d]" "c \<noteq> d"
  shows "fst (bech32Decode s) \<noteq> hrp"
proof
  assume "fst (bech32Decode s) = hrp"
  then have "hrp = js_slice 0 (js_lastIndexOf s (CHR ''1'')) s" by (simp add: bech32Decode_def Let_def)
  then obtain k where "hrp = take k s" by (auto simp: js_slice_def rel_index_def Let_def)
  with assms(2-4) show False by (cases s; cases k) auto
qed

lemma decodeAddress_mismatch:
  assumes "js_startsWith (js_toLowerCase s) (bech32Hrp net @ ''1'')"
    "fst (bech32Decode s) \<noteq> bech32Hrp net"
  shows "decodeAddress sha256 s net = Inl (Error ''Address is for a different network'')"
  using assms by (simp add: decodeAddress_def split_beta)

lemma p2pkhAddress_20:
  "length h = 20 \<Longrightarrow> p2pkhAddress sha256 h net = Inr (base58checkEncode sha256 (of_nat (p2pkhVersion net) # h))"
  by (simp add: p2pkhAddress_def versioned_20)

lemma p2shAddress_20:
  "length h = 20 \<Longrightarrow> p2shAddress sha256 h net = Inr (base58checkEncode sha256 (of_nat (p2shVersion net) # h))"
  by (simp add: p2shAddress_def versioned_20)

lemma decode_own_p2pkh:
  assumes "\<forall>x. length (sha256 x) = 32" "NETWORKS name = Some net" "length h = 20"
    "p2pkhAddress sha256 h net = Inr addr"
  shows "decodeAddress sha256 addr net =
    (if name = ''mainnet'' \<and> js_startsWith (js_toLowerCase addr) ''fic1''
     then Inl (Error ''Address is for a different network'')
     else Inr (P2pkh, h))"
proof -
  have addr: "addr = base58checkEncode sha256 (of_nat (p2pkhVersion net) # h)"
    using assms(3,4) by (simp add: p2pkhAddress_20)
  from assms(2) consider "name = ''mainnet''" "net = mainnet" | "name = ''testnet''" "net = testnet"
    by (auto simp: NETWORKS_def split: if_splits)
  then show ?thesis
  proof cases
    case 1
    then have a: "addr = base58checkEncode sha256 (36 # h)" by (simp add: addr mainnet_def)
    have hrp: "bech32Hrp mainnet = ''fic''" "p2pkhVersion mainnet = 36" by (simp_all add: mainnet_def)
    show ?thesis
    proof (cases "js_startsWith (js_toLowerCase addr) ''fic1''")
      case True
      have "fst (bech32Decode addr) \<noteq> ''fic''"
        using bech32_hrp_mismatch [of addr "''fic''" "CHR ''F''" "CHR ''f''"] True
          encode_first_char(1) [OF assms(1,3)] a by simp
      with 1 True hrp decodeAddress_mismatch [of addr mainnet] show ?thesis by simp
    next
      case False
      with 1 a hrp decodeAddress_payload [OF assms(1,3), of 36 mainnet] show ?thesis by simp
    qed
  next
    case 2
    then have "addr = base58checkEncode sha256 (111 # h)" by (simp add: addr testnet_def)
    then show ?thesis
      using 2 decodeAddress_payload [OF assms(1,3) not_bech32_prefix(2) [OF assms(1,3)]]
      by (simp add: testnet_def)
  qed
qed

text \<open>
  C16: on either network, decoding the P2PKH address of a 20-byte hash returns
  that hash, with one exception the code has: a mainnet address whose first four
  letters read \<open>fic1\<close> in lower case is taken for a bech32 address and refused.
\<close>

theorem decodeAddress_p2pkh:
  assumes "\<forall>x. length (sha256 x) = 32" "NETWORKS name = Some net" "length h = 20"
    "p2pkhAddress sha256 h net = Inr addr"
  shows "decodeAddress sha256 addr net =
    (if name = ''mainnet'' \<and> js_startsWith (js_toLowerCase addr) ''fic1''
     then Inl (Error ''Address is for a different network'')
     else Inr (P2pkh, h))"
  by (rule decode_own_p2pkh [OF assms])

theorem decodeAddress_p2pkh_witness:
  "\<exists>addr. p2pkhAddress (\<lambda>_. replicate 32 7) (replicate 20 1) testnet = Inr addr \<and>
    decodeAddress (\<lambda>_. replicate 32 7) addr testnet = Inr (P2pkh, replicate 20 1)"
  using decodeAddress_p2pkh [of "\<lambda>_. replicate 32 7" "''testnet''" testnet "replicate 20 1"]
  by (simp add: NETWORKS_def p2pkhAddress_20)

text \<open>
  On either network, decoding the P2SH address of a 20-byte script hash
  always returns that hash, whatever the hash and the checksum are.
\<close>

lemma decodeAddress_p2sh:
  assumes "\<forall>x. length (sha256 x) = 32" "NETWORKS name = Some net" "length h = 20"
    "p2shAddress sha256 h net = Inr addr"
  shows "decodeAddress sha256 addr net = Inr (P2sh, h)"
proof -
  have addr: "addr = base58checkEncode sha256 (of_nat (p2shVersion net) # h)"
    using assms(3,4) by (simp add: p2shAddress_20)
  from assms(2) consider "net = mainnet" | "net = testnet"
    by (auto simp: NETWORKS_def split: if_splits)
  then show ?thesis
  proof cases
    case 1
    then have "addr = base58checkEncode sha256 (28 # h)" by (simp add: addr mainnet_def)
    then show ?thesis
      using 1 decodeAddress_payload [OF assms(1,3) not_bech32_prefix(1) [OF assms(1,3)]]
      by (simp add: mainnet_def)
  next
    case 2
    then have "addr = base58checkEncode sha256 (196 # h)" by (simp add: addr testnet_def)
    then show ?thesis
      using 2 decodeAddress_payload [OF assms(1,3) not_bech32_prefix(3) [OF assms(1,3)]]
      by (simp add: testnet_def)
  qed
qed

lemma decodeAddress_p2sh_witness:
  "\<exists>addr. p2shAddress (\<lambda>_. replicate 32 7) (replicate 20 9) testnet = Inr addr \<and>
    decodeAddress (\<lambda>_. replicate 32 7) addr testnet = Inr (P2sh, replicate 20 9)"
  using decodeAddress_p2sh [of "\<lambda>_. replicate 32 7" "''testnet''" testnet "replicate 20 9"]
  by (simp add: NETWORKS_def p2shAddress_20)



section \<open>Witness addresses\<close>

lemma in_range_uint: "in_range 8 (uint (b :: byte))"
  using uint_byte_bounds [of b] by (simp add: in_range_def)

text \<open>The digits of a witness program, without version and checksum.\<close>

definition program_digits :: "bytes \<Rightarrow> int list" where
  "program_digits h = (case convertBits (map uint h) 8 5 True of Inl _ \<Rightarrow> [] | Inr ds \<Rightarrow> ds)"

lemma program_digits:
  shows "convertBits (map uint h) 8 5 True = Inr (program_digits h)"
    and "convertBits (program_digits h) 5 8 False = Inr (map uint h)"
    and "\<forall>d \<in> set (program_digits h). in_range 5 d"
proof -
  obtain ds where "convertBits (map uint h) 8 5 True = Inr ds" "convertBits ds 5 8 False = Inr (map uint h)"
      "\<forall>d \<in> set ds. in_range 5 d"
    using convertBits_round_trip [of "map uint h"] in_range_uint by auto
  then show "convertBits (map uint h) 8 5 True = Inr (program_digits h)"
      "convertBits (program_digits h) 5 8 False = Inr (map uint h)"
      "\<forall>d \<in> set (program_digits h). in_range 5 d"
    by (simp_all add: program_digits_def)
qed

definition p2wpkh_stem :: "network \<Rightarrow> bytes \<Rightarrow> string" where
  "p2wpkh_stem net h = bech32Hrp net @ ''1'' @ concat (map charset_at (0 # program_digits h))"

lemma p2wpkhAddress_stem:
  "\<exists>cs. p2wpkhAddress h net = Inr (p2wpkh_stem net h @ cs) \<and> length cs = 6 \<and> CHR ''1'' \<notin> set cs"
  using checksum_text [of "bech32Hrp net" "0 # program_digits h"]
  by (simp add: p2wpkhAddress_def program_digits p2wpkh_stem_def bech32Encode_def Let_def)

lemma hrp_lower:
  "NETWORKS name = Some net \<Longrightarrow> js_toLowerCase (bech32Hrp net @ ''1'') = bech32Hrp net @ ''1''"
proof -
  have "js_toLowerCase ''fic1'' = ''fic1''" "js_toLowerCase ''tfic1'' = ''tfic1''" by code_simp+
  then show "NETWORKS name = Some net \<Longrightarrow> ?thesis"
    by (auto simp: NETWORKS_def mainnet_def testnet_def split: if_splits)
qed

lemma startsWith_append: "js_toLowerCase p = p \<Longrightarrow> js_startsWith (js_toLowerCase (p @ s)) p"
  by (simp add: js_toLowerCase_def js_startsWith_def)

lemma decodeAddress_stem:
  assumes "NETWORKS name = Some net" "length h = 20" "length cs = 6" "CHR ''1'' \<notin> set cs"
  shows "decodeAddress sha256 (p2wpkh_stem net h @ cs) net = Inr (P2wpkh, h)"
proof -
  have s: "p2wpkh_stem net h @ cs =
      bech32Hrp net @ ''1'' @ concat (map charset_at (0 # program_digits h)) @ cs"
    by (simp add: p2wpkh_stem_def)
  have d: "bech32Decode (p2wpkh_stem net h @ cs) = (bech32Hrp net, 0 # program_digits h)"
    unfolding s using program_digits(3) [of h] assms(3,4)
    by (intro bech32Decode_text) (auto simp: in_range_def)
  have "js_startsWith (js_toLowerCase (p2wpkh_stem net h @ cs)) (bech32Hrp net @ ''1'')"
    using startsWith_append [OF hrp_lower [OF assms(1)]] by (simp add: s)
  then show ?thesis
    using assms(2) by (simp add: decodeAddress_def d program_digits(2) o_def)
qed

text \<open>
  C17: on either network, decoding the witness address of a 20-byte key hash
  returns that hash.
\<close>

theorem decodeAddress_p2wpkh:
  assumes "NETWORKS name = Some net" "length h = 20"
  shows "\<exists>addr. p2wpkhAddress h net = Inr addr \<and> decodeAddress sha256 addr net = Inr (P2wpkh, h)"
  using p2wpkhAddress_stem [of h net] decodeAddress_stem [OF assms] by blast

theorem decodeAddress_p2wpkh_witness:
  "\<exists>addr. p2wpkhAddress (replicate 20 5) mainnet = Inr addr \<and>
    decodeAddress (\<lambda>_. replicate 32 7) addr mainnet = Inr (P2wpkh, replicate 20 5)"
  using decodeAddress_p2wpkh [of "''mainnet''" mainnet "replicate 20 5" "\<lambda>_. replicate 32 7"]
  by (simp add: NETWORKS_def)

text \<open>
  C24: the decoder never looks at a witness address's six checksum characters:
  replacing them by any six characters other than \<open>1\<close> yields the same hash, so a
  mistyped checksum is accepted.
\<close>

theorem decodeAddress_ignores_bech32_checksum:
  assumes "NETWORKS name = Some net" "length h = 20" "p2wpkhAddress h net = Inr addr"
    "length cs = 6" "CHR ''1'' \<notin> set cs"
  shows "decodeAddress sha256 (take (length addr - 6) addr @ cs) net = Inr (P2wpkh, h)"
proof -
  obtain cs' where "p2wpkhAddress h net = Inr (p2wpkh_stem net h @ cs')" "length cs' = 6"
    using p2wpkhAddress_stem [of h net] by blast
  with assms(3) have "take (length addr - 6) addr = p2wpkh_stem net h" by auto
  then show ?thesis using decodeAddress_stem [OF assms(1,2,4,5)] by simp
qed

theorem decodeAddress_ignores_bech32_checksum_witness:
  "\<exists>addr. p2wpkhAddress (replicate 20 5) testnet = Inr addr \<and>
    decodeAddress (\<lambda>_. replicate 32 7) (take (length addr - 6) addr @ ''?mist?'') testnet =
      Inr (P2wpkh, replicate 20 5)"
proof -
  obtain addr where a: "p2wpkhAddress (replicate 20 5) testnet = Inr addr"
    using p2wpkhAddress_stem [of "replicate 20 5" testnet] by blast
  then show ?thesis
    using decodeAddress_ignores_bech32_checksum
      [of "''testnet''" testnet "replicate 20 5" addr "''?mist?''" "\<lambda>_. replicate 32 7"]
    by (simp add: NETWORKS_def)
qed

text \<open>
  C18: a Base58Check address is accepted only in its canonical form: what the
  decoder accepts as P2PKH or P2SH is exactly what the constructor of that kind
  writes for the returned 20-byte hash, so no altered text decodes.
\<close>

theorem decodeAddress_base58_sound:
  assumes "\<forall>x. length (sha256 x) = 32" "NETWORKS name = Some net"
    "decodeAddress sha256 addr net = Inr (ty, h)" "ty \<noteq> P2wpkh"
  shows "length h = 20 \<and>
    (if ty = P2pkh then p2pkhAddress sha256 h net = Inr addr else p2shAddress sha256 h net = Inr addr)"
proof -
  obtain p where p: "base58checkDecode sha256 addr = Inr p" "length p = 21" "h = drop 1 p"
      "unat (hd p) = p2pkhVersion net \<and> ty = P2pkh \<or> unat (hd p) = p2shVersion net \<and> ty = P2sh"
    using assms(3,4)
    by (auto simp: decodeAddress_def result_simps split_beta Let_def split: if_splits)
  then obtain v where v: "p = v # h" "length h = 20" by (cases p) auto
  moreover have "base58checkEncode sha256 p = addr"
    using base58check_encode_decode [OF assms(1) p(1)] .
  ultimately show ?thesis
    using p(4) by (auto simp: p2pkhAddress_20 p2shAddress_20 dest!: sym [of "unat v"])
qed

theorem decodeAddress_base58_sound_witness:
  "p2shAddress (\<lambda>_. replicate 32 7) (replicate 20 9) testnet =
    Inr (base58checkEncode (\<lambda>_. replicate 32 7) (196 # replicate 20 9))"
proof -
  have "decodeAddress (\<lambda>_. replicate 32 7)
      (base58checkEncode (\<lambda>_. replicate 32 7) (196 # replicate 20 9)) testnet = Inr (P2sh, replicate 20 9)"
    using decodeAddress_payload [of "\<lambda>_. replicate 32 7" "replicate 20 9" 196 testnet]
      not_bech32_prefix(3) [of "\<lambda>_. replicate 32 7" "replicate 20 9"]
    by (simp add: testnet_def)
  then show ?thesis
    using decodeAddress_base58_sound [of "\<lambda>_. replicate 32 7" "''testnet''" testnet
        "base58checkEncode (\<lambda>_. replicate 32 7) (196 # replicate 20 9)" P2sh "replicate 20 9"]
    by (simp add: NETWORKS_def)
qed

end
