(* ===== verification/Der.thy ===== *)
theory Der
  imports Base58
begin

text \<open>
  DER encoding of ECDSA signatures (\<open>derEncodeSignature\<close> in \<open>crypto.js\<close>),
  against the strict DER rules (BIP 66) that nodes enforce on every signature.
\<close>

record signature =
  sig_r :: int
  sig_s :: int
  sig_recovery :: nat

definition der_encodeInt :: "int \<Rightarrow> bytes" where
  "der_encodeInt n =
     (let hex = js_toString 16 n;
          hex' = (if length hex mod 2 \<noteq> 0 then CHR ''0'' # hex else hex);
          bs = hexToBytes hex';
          bs' = (if bs \<noteq> [] \<and> bit (hd bs) 7 then [0] @ bs else bs)
      in [0x02, of_nat (length bs')] @ bs')"

definition derEncodeSignature :: "signature \<Rightarrow> bytes" where
  "derEncodeSignature sig =
     (let rEnc = der_encodeInt (sig_r sig); sEnc = der_encodeInt (sig_s sig)
      in [0x30, of_nat (length rEnc + length sEnc)] @ rEnc @ sEnc)"

section \<open>Strict DER\<close>

text \<open>
  A strict integer: tag, a one-byte length below 128, at least one byte, not
  negative, and no leading zero byte unless the next byte has its top bit set.
\<close>

definition der_int_ok :: "bytes \<Rightarrow> bool" where
  "der_int_ok bs \<longleftrightarrow> bs \<noteq> [] \<and> \<not> bit (hd bs) 7 \<and> (1 < length bs \<and> hd bs = 0 \<longrightarrow> bit (bs ! 1) 7)"

fun get_der_int :: "bytes \<Rightarrow> (int \<times> bytes) option" where
  "get_der_int (t # l # r) =
     (if t = 0x02 \<and> l < 0x80 \<and> unat l \<le> length r \<and> der_int_ok (take (unat l) r)
      then Some (bytes_num (take (unat l) r), drop (unat l) r) else None)"
| "get_der_int _ = None"

definition der_decode :: "bytes \<Rightarrow> (int \<times> int) option" where
  "der_decode bs =
     (case bs of t # l # r \<Rightarrow>
        if t = 0x30 \<and> l < 0x80 \<and> unat l = length r then
          (case get_der_int r of None \<Rightarrow> None
           | Some (x, r') \<Rightarrow>
               (case get_der_int r' of Some (y, []) \<Rightarrow> Some (x, y) | _ \<Rightarrow> None))
        else None
      | _ \<Rightarrow> None)"

section \<open>The hexadecimal digits of a number and its bytes\<close>

definition even_hex :: "int \<Rightarrow> string" where
  "even_hex n =
     (let hex = js_toString 16 n in if length hex mod 2 \<noteq> 0 then CHR ''0'' # hex else hex)"

definition be_bytes :: "int \<Rightarrow> bytes" where
  "be_bytes n = map of_nat (to_base 256 n)"

lemma to_base_step: "1 < b \<Longrightarrow> 0 < n \<Longrightarrow> to_base b n = to_base b (n div b) @ [nat (n mod b)]"
  by (subst to_base.simps) simp

lemma even_hex_step:
  assumes "256 \<le> n"
  shows "even_hex n = even_hex (n div 256) @ byteHex (word_of_int n)"
proof -
  have d: "n div 16 div 16 = n div 256" by (simp add: zdiv_zmult2_eq [symmetric])
  have pos: "0 < n" "0 < n div 16" "0 < n div 256" using assms by linarith+
  have "to_base 16 n = to_base 16 (n div 256) @ [nat (n div 16 mod 16), nat (n mod 16)]"
    using pos d by (simp add: to_base_step [of 16 n] to_base_step [of 16 "n div 16"])
  moreover have "n mod 256 div 16 = n div 16 mod 16" "n mod 256 mod 16 = n mod 16"
    using zmod_zmult2_eq [of 16 n 16] by (simp_all add: mod_mod_cancel)
  then have "byteHex (word_of_int n) = map digit_char [nat (n div 16 mod 16), nat (n mod 16)]"
    by (simp add: byteHex_digits uint_word_of_int)
  ultimately show ?thesis
    using pos by (auto simp: even_hex_def js_toString_nonneg Let_def)
qed

lemma even_hex_byte:
  assumes "0 \<le> n" "n < 256"
  shows "even_hex n = byteHex (word_of_int n)"
proof -
  have z: "CHR ''0'' = digit_char 0" by code_simp
  have u: "uint (word_of_int n :: byte) = n" using assms by (simp add: uint_word_of_int)
  have "n = 0 \<or> 0 < n" using assms by linarith
  then show ?thesis
    using assms u by (auto simp: even_hex_def byteHex_digits js_toString_def to_base16_byte z)
qed

lemma even_hex_bytes: "0 < n \<Longrightarrow> even_hex n = bytesToHex (be_bytes n)"
proof (induction "nat n" arbitrary: n rule: less_induct)
  case less
  have last: "of_nat (nat (n mod 256)) = (word_of_int n :: byte)"
    by (rule word_uint_eqI) (simp add: uint_word_of_int)
  show ?case
  proof (cases "n < 256")
    case True
    with less.prems have "to_base 256 n = [nat n]" by (simp add: to_base_step)
    with True less.prems last show ?thesis by (simp add: be_bytes_def even_hex_byte)
  next
    case False
    then have "nat (n div 256) < nat n" "0 < n div 256" using less.prems by linarith+
    then have "even_hex (n div 256) = bytesToHex (be_bytes (n div 256))" by (rule less.hyps)
    then show ?thesis
      using False less.prems last by (simp add: even_hex_step be_bytes_def to_base_step [of 256 n])
  qed
qed

lemma hexToBytes_even_hex: "0 < n \<Longrightarrow> hexToBytes (even_hex n) = be_bytes n"
  by (simp add: even_hex_bytes)

lemma hexToBytes_even_hex_0: "hexToBytes (even_hex 0) = [0]"
  using hexToBytes_byteHex [of 0 "[]"] by (simp add: even_hex_byte)

lemma bytes_num_be_bytes: "0 \<le> n \<Longrightarrow> bytes_num (be_bytes n) = n"
proof -
  assume n: "0 \<le> n"
  have "map (unat \<circ> (of_nat :: nat \<Rightarrow> byte)) (to_base 256 n) = to_base 256 n"
    using to_base_digits [of 256 _ n]
    by (intro map_idI) (fastforce simp: unat_of_nat)
  then show ?thesis using n by (simp add: be_bytes_def bytes_num_from_base from_base_to_base)
qed

lemma length_be_bytes: "n < 256 ^ k \<Longrightarrow> length (be_bytes n) \<le> k"
proof (induction k arbitrary: n)
  case 0
  then show ?case by (simp add: be_bytes_def to_base.simps)
next
  case (Suc k)
  then have "n div 256 < 256 ^ k" by simp
  from Suc.IH [OF this] show ?case
    by (cases "0 < n") (simp_all add: be_bytes_def to_base_step to_base.simps [of 256 n])
qed

section \<open>Signatures are strict DER\<close>

text \<open>The bytes between the length and the end of an encoded integer.\<close>

definition der_content :: "int \<Rightarrow> bytes" where
  "der_content n =
     (let bs = hexToBytes (even_hex n) in if bs \<noteq> [] \<and> bit (hd bs) 7 then 0 # bs else bs)"

lemma der_encodeInt_content:
  "der_encodeInt n = [0x02, of_nat (length (der_content n))] @ der_content n"
  by (simp add: der_encodeInt_def der_content_def even_hex_def Let_def del: length_hexToBytes)

lemma be_bytes_hd:
  assumes "0 < n"
  shows "be_bytes n \<noteq> []" "hd (be_bytes n) \<noteq> 0"
proof -
  have ne: "to_base 256 n \<noteq> []" using assms by (simp add: to_base_step)
  then show "be_bytes n \<noteq> []" by (simp add: be_bytes_def)
  have "hd (to_base 256 n) \<noteq> 0" "hd (to_base 256 n) < 256"
    using hd_to_base [of 256 n] to_base_digits [of 256 "hd (to_base 256 n)" n] ne hd_in_set by fastforce+
  then have "unat (of_nat (hd (to_base 256 n)) :: byte) \<noteq> 0" by (simp add: unat_of_nat)
  then show "hd (be_bytes n) \<noteq> 0" using ne by (auto simp: be_bytes_def hd_map)
qed

lemma der_content_ok:
  assumes "0 \<le> n"
  shows "der_int_ok (der_content n)" "bytes_num (der_content n) = n"
proof -
  have "n = 0 \<or> 0 < n" using assms by linarith
  then show "der_int_ok (der_content n)"
    using be_bytes_hd [of n]
    by (auto simp: der_content_def der_int_ok_def hexToBytes_even_hex hexToBytes_even_hex_0 Let_def hd_conv_nth
        simp del: length_hexToBytes)
  have z: "bytes_num (0 # bs) = bytes_num bs" for bs by (simp add: bytes_num_def)
  show "bytes_num (der_content n) = n"
    using \<open>n = 0 \<or> 0 < n\<close> assms be_bytes_hd [of n]
    by (auto simp: der_content_def hexToBytes_even_hex hexToBytes_even_hex_0 Let_def z bytes_num_be_bytes)
       (simp add: bytes_num_def)
qed

lemma length_der_content:
  assumes "0 \<le> n" "n < 2 ^ 256"
  shows "length (der_content n) \<le> 33"
proof -
  have "n < 256 ^ 32" using assms(2) by simp
  then have "length (be_bytes n) \<le> 32" by (rule length_be_bytes)
  moreover have "n = 0 \<or> 0 < n" using assms by linarith
  ultimately show ?thesis
    by (auto simp: der_content_def hexToBytes_even_hex hexToBytes_even_hex_0 Let_def simp del: length_hexToBytes)
qed

lemma byte_of_small: "k < 0x80 \<Longrightarrow> (of_nat k :: byte) < 0x80" "k < 0x80 \<Longrightarrow> unat (of_nat k :: byte) = k"
  by (simp_all add: word_less_nat_alt unat_of_nat)

lemma get_der_int_put:
  assumes "0 \<le> n" "n < 2 ^ 256"
  shows "get_der_int (der_encodeInt n @ rest) = Some (n, rest)"
proof -
  have "length (der_content n) < 0x80" using length_der_content [OF assms] by simp
  then show ?thesis
    using der_content_ok [OF assms(1)] by (simp add: der_encodeInt_content byte_of_small)
qed

interpretation der_int: stream_codec der_encodeInt get_der_int "\<lambda>n. 0 \<le> n \<and> n < 2 ^ 256"
  by unfold_locales (simp add: get_der_int_put)

definition sig_range :: "signature \<Rightarrow> bool" where
  "sig_range sig \<longleftrightarrow> 0 \<le> sig_r sig \<and> sig_r sig < 2 ^ 256 \<and> 0 \<le> sig_s sig \<and> sig_s sig < 2 ^ 256"

lemma length_derEncodeSignature:
  assumes "sig_range sig"
  shows "length (derEncodeSignature sig) \<le> 72"
proof -
  have "length (der_content (sig_r sig)) \<le> 33" "length (der_content (sig_s sig)) \<le> 33"
    using assms length_der_content by (auto simp: sig_range_def)
  then show ?thesis by (simp add: derEncodeSignature_def Let_def der_encodeInt_content)
qed

lemma der_decode_encode:
  assumes "sig_range sig"
  shows "der_decode (derEncodeSignature sig) = Some (sig_r sig, sig_s sig)"
proof -
  have "length (derEncodeSignature sig) \<le> 72" by (rule length_derEncodeSignature [OF assms])
  then have "length (der_encodeInt (sig_r sig)) + length (der_encodeInt (sig_s sig)) < 0x80"
    by (simp add: derEncodeSignature_def Let_def)
  then have "of_nat (length (der_encodeInt (sig_r sig)) + length (der_encodeInt (sig_s sig))) < (0x80 :: byte)"
    "unat (of_nat (length (der_encodeInt (sig_r sig)) + length (der_encodeInt (sig_s sig))) :: byte) =
      length (der_encodeInt (sig_r sig)) + length (der_encodeInt (sig_s sig))"
    by (rule byte_of_small)+
  moreover have "get_der_int (der_encodeInt (sig_r sig) @ der_encodeInt (sig_s sig)) =
      Some (sig_r sig, der_encodeInt (sig_s sig))"
    using assms der_int.get_put by (simp add: sig_range_def)
  moreover have "get_der_int (der_encodeInt (sig_s sig)) = Some (sig_s sig, [])"
    using assms der_int.get_put [of "sig_s sig" "[]"] by (simp add: sig_range_def)
  ultimately show ?thesis
    by (simp add: der_decode_def derEncodeSignature_def Let_def del: of_nat_add)
qed

text \<open>
  C15: every signature the library produces (both halves below 2 to the 256) is
  written in the strict DER form a node accepts, at most 72 bytes long, and
  reads back as the same pair of numbers.
\<close>

theorem derEncodeSignature_strict:
  assumes "sig_range sig"
  shows "der_decode (derEncodeSignature sig) = Some (sig_r sig, sig_s sig) \<and>
    length (derEncodeSignature sig) \<le> 72"
  using der_decode_encode length_derEncodeSignature assms by blast

theorem derEncodeSignature_strict_witness:
  "sig_range \<lparr>sig_r = 2 ^ 255, sig_s = 0, sig_recovery = 0\<rparr> \<and>
   der_decode (derEncodeSignature \<lparr>sig_r = 2 ^ 255, sig_s = 0, sig_recovery = 0\<rparr>) = Some (2 ^ 255, 0)"
  using derEncodeSignature_strict [of "\<lparr>sig_r = 2 ^ 255, sig_s = 0, sig_recovery = 0\<rparr>"]
  by (simp add: sig_range_def)

end
