(* ===== verification/Tx.thy ===== *)
theory Tx
  imports Wire Address Der
begin

text \<open>
  Building and signing legacy transactions, as \<open>crypto.js\<close> does: output
  scripts, serialisation, the signature hash, and the loop that
  fills one input's \<open>scriptSig\<close> after another. The signing primitive of the
  secp256k1 library is a parameter.
\<close>

section \<open>Output scripts\<close>

definition p2pkhScriptPubKey :: "bytes \<Rightarrow> bytes" where
  "p2pkhScriptPubKey pubkeyHash20 = [0x76, 0xa9, 0x14] @ pubkeyHash20 @ [0x88, 0xac]"

definition p2shScriptPubKey :: "bytes \<Rightarrow> bytes" where
  "p2shScriptPubKey scriptHash20 = [0xa9, 0x14] @ scriptHash20 @ [0x87]"

definition p2wpkhScriptPubKey :: "bytes \<Rightarrow> bytes" where
  "p2wpkhScriptPubKey pubkeyHash20 = [0x00, 0x14] @ pubkeyHash20"

section \<open>Serialisation\<close>

record tx_in =
  prevTxid :: bytes
  prevVout :: int
  scriptSig :: bytes
  txSequence :: "int option"

record tx_out =
  scriptPubKey :: bytes
  valueSatoshis :: int

definition in_sequence :: "tx_in \<Rightarrow> int" where
  "in_sequence inp = (case txSequence inp of None \<Rightarrow> 0xffffffff | Some s \<Rightarrow> s)"

definition put_in :: "tx_in \<Rightarrow> bytes" where
  "put_in inp =
     concatBytes [prevTxid inp, u32le (prevVout inp), varInt (length (scriptSig inp)),
       scriptSig inp, u32le (in_sequence inp)]"

definition put_out :: "tx_out \<Rightarrow> bytes" where
  "put_out out =
     concatBytes [u64le (valueSatoshis out), varInt (length (scriptPubKey out)), scriptPubKey out]"

definition serializeTx :: "int \<Rightarrow> tx_in list \<Rightarrow> tx_out list \<Rightarrow> int \<Rightarrow> bytes" where
  "serializeTx version inputs outputs locktime =
     concatBytes ([u32le version, varInt (length inputs)] @ map put_in inputs @
       [varInt (length outputs)] @ map put_out outputs @ [u32le locktime])"

section \<open>Signatures\<close>

type_synonym signer = "bytes \<Rightarrow> bytes option \<Rightarrow> signature result"

definition blank_in :: "nat \<Rightarrow> bytes \<Rightarrow> nat \<Rightarrow> tx_in \<Rightarrow> tx_in" where
  "blank_in inputIndex subscript i inp =
     \<lparr>prevTxid = prevTxid inp, prevVout = prevVout inp,
      scriptSig = (if i = inputIndex then subscript else []), txSequence = txSequence inp\<rparr>"

definition sighash_preimage :: "tx_in list \<Rightarrow> tx_out list \<Rightarrow> nat \<Rightarrow> bytes \<Rightarrow> int \<Rightarrow> bytes" where
  "sighash_preimage inputs outputs inputIndex subscript locktime =
     concatBytes [serializeTx 2 (map2 (blank_in inputIndex subscript) [0..<length inputs] inputs)
       outputs locktime, u32le 1]"

definition legacySighash ::
  "hash_fun \<Rightarrow> tx_in list \<Rightarrow> tx_out list \<Rightarrow> nat \<Rightarrow> bytes \<Rightarrow> int \<Rightarrow> bytes" where
  "legacySighash sha256 inputs outputs inputIndex subscript locktime =
     doubleSha256 sha256 (sighash_preimage inputs outputs inputIndex subscript locktime)"

section \<open>Building a signed transaction\<close>

record utxo_in =
  u_txid :: bytes
  u_vout :: int
  u_value :: int
  u_pubkeyHash :: bytes
  u_privateKey :: "bytes option"
  u_publicKey :: "bytes option"
  u_sequence :: "int option"

definition unsigned_in :: "utxo_in \<Rightarrow> tx_in" where
  "unsigned_in u =
     \<lparr>prevTxid = u_txid u, prevVout = u_vout u, scriptSig = [],
      txSequence = Some (case u_sequence u of None \<Rightarrow> 0xfffffffd | Some s \<Rightarrow> s)\<rparr>"

text \<open>\<open>a ?? b\<close>.\<close>

definition or_else :: "'a option \<Rightarrow> 'a option \<Rightarrow> 'a option" where
  "or_else a b = (case a of None \<Rightarrow> b | Some _ \<Rightarrow> a)"

text \<open>One round of the signing loop: it reads the inputs as they stand and sets input \<open>i\<close>.\<close>

definition sign_input ::
  "hash_fun \<Rightarrow> signer \<Rightarrow> tx_out list \<Rightarrow> bytes option \<Rightarrow> bytes option \<Rightarrow> int \<Rightarrow> nat \<Rightarrow> utxo_in \<Rightarrow>
   tx_in list \<Rightarrow> tx_in list result" where
  "sign_input sha256 sign outputs privateKey publicKeyCompressed locktime i u txInputs =
     (let inputPrivateKey = or_else (u_privateKey u) privateKey;
          inputPublicKey = or_else (u_publicKey u) publicKeyCompressed;
          subscript = p2pkhScriptPubKey (u_pubkeyHash u);
          sighash = legacySighash sha256 txInputs outputs i subscript locktime
      in bindr (sign sighash inputPrivateKey) (\<lambda>sig.
        let sigWithType = concatBytes [derEncodeSignature sig, [0x01]]
        in case inputPublicKey of None \<Rightarrow> Inl TypeError
           | Some pk \<Rightarrow>
               Inr (txInputs[i := (txInputs ! i)\<lparr>scriptSig :=
                 concatBytes [[of_nat (length sigWithType)], sigWithType, [of_nat (length pk)], pk]\<rparr>])))"

fun sign_inputs ::
  "hash_fun \<Rightarrow> signer \<Rightarrow> tx_out list \<Rightarrow> bytes option \<Rightarrow> bytes option \<Rightarrow> int \<Rightarrow> nat \<Rightarrow> utxo_in list \<Rightarrow>
   tx_in list \<Rightarrow> tx_in list result" where
  "sign_inputs sha256 sign outputs priv pub locktime i [] txInputs = Inr txInputs"
| "sign_inputs sha256 sign outputs priv pub locktime i (u # us) txInputs =
     bindr (sign_input sha256 sign outputs priv pub locktime i u txInputs)
       (sign_inputs sha256 sign outputs priv pub locktime (Suc i) us)"

definition buildAndSignTransaction ::
  "hash_fun \<Rightarrow> signer \<Rightarrow> utxo_in list \<Rightarrow> tx_out list \<Rightarrow> bytes option \<Rightarrow> bytes option \<Rightarrow> int \<Rightarrow> bytes result"
where
  "buildAndSignTransaction sha256 sign inputs outputs privateKey publicKeyCompressed locktime =
     (if inputs = [] then Inl (Error ''No inputs provided'')
      else bindr (sign_inputs sha256 sign outputs privateKey publicKeyCompressed locktime 0 inputs
                    (map unsigned_in inputs)) (\<lambda>txInputs.
        Inr (serializeTx 2 txInputs outputs locktime)))"

section \<open>Reading a transaction back\<close>

text \<open>
  The legacy transaction format as a node reads it. A parsed input always has a
  sequence number.
\<close>

definition get_in :: "bytes \<Rightarrow> (tx_in \<times> bytes) option" where
  "get_in bs =
     (case get_block 32 bs of None \<Rightarrow> None | Some (txid, bs1) \<Rightarrow>
      case get_le 4 bs1 of None \<Rightarrow> None | Some (vout, bs2) \<Rightarrow>
      case get_var_bytes bs2 of None \<Rightarrow> None | Some (script, bs3) \<Rightarrow>
      case get_le 4 bs3 of None \<Rightarrow> None | Some (sq, bs4) \<Rightarrow>
        Some (\<lparr>prevTxid = txid, prevVout = vout, scriptSig = script, txSequence = Some sq\<rparr>, bs4))"

definition get_out :: "bytes \<Rightarrow> (tx_out \<times> bytes) option" where
  "get_out bs =
     (case get_le 8 bs of None \<Rightarrow> None | Some (v, bs1) \<Rightarrow>
      case get_var_bytes bs1 of None \<Rightarrow> None | Some (script, bs2) \<Rightarrow>
        Some (\<lparr>scriptPubKey = script, valueSatoshis = v\<rparr>, bs2))"

definition wf_in :: "tx_in \<Rightarrow> bool" where
  "wf_in inp \<longleftrightarrow> length (prevTxid inp) = 32 \<and> 0 \<le> prevVout inp \<and> prevVout inp < 2 ^ 32 \<and>
     length (scriptSig inp) < 2 ^ 64 \<and> 0 \<le> in_sequence inp \<and> in_sequence inp < 2 ^ 32"

definition wf_out :: "tx_out \<Rightarrow> bool" where
  "wf_out out \<longleftrightarrow> 0 \<le> valueSatoshis out \<and> valueSatoshis out < 2 ^ 64 \<and> length (scriptPubKey out) < 2 ^ 64"

text \<open>The value a reader sees for an input: its sequence made explicit.\<close>

definition norm_in :: "tx_in \<Rightarrow> tx_in" where
  "norm_in inp = inp\<lparr>txSequence := Some (in_sequence inp)\<rparr>"

interpretation inp: stream_codec put_in get_in "\<lambda>i. wf_in i \<and> txSequence i \<noteq> None"
proof
  fix x :: tx_in and rest :: bytes
  assume x: "wf_in x \<and> txSequence x \<noteq> None"
  have "get_block 32 (put_in x @ rest) =
      Some (prevTxid x, u32le (prevVout x) @ put_var_bytes (scriptSig x) @ u32le (in_sequence x) @ rest)"
    using x by (simp add: put_in_def concatBytes_def put_var_bytes_def get_block_put wf_in_def)
  with x show "get_in (put_in x @ rest) = Some (x, rest)"
    by (auto simp: get_in_def u32.get_put vb.get_put wf_in_def in_sequence_def split: option.splits)
qed

interpretation outp: stream_codec put_out get_out wf_out
proof
  fix x :: tx_out and rest :: bytes
  assume x: "wf_out x"
  have "put_out x @ rest = u64le (valueSatoshis x) @ put_var_bytes (scriptPubKey x) @ rest"
    by (simp add: put_out_def concatBytes_def put_var_bytes_def)
  with x show "get_out (put_out x @ rest) = Some (x, rest)"
    by (simp add: get_out_def u64.get_put vb.get_put wf_out_def)
qed

record tx =
  tx_version :: int
  tx_ins :: "tx_in list"
  tx_outs :: "tx_out list"
  tx_locktime :: int

definition get_tx :: "bytes \<Rightarrow> (tx \<times> bytes) option" where
  "get_tx bs =
     (case get_le 4 bs of None \<Rightarrow> None | Some (v, bs1) \<Rightarrow>
      case get_varInt bs1 of None \<Rightarrow> None | Some (n, bs2) \<Rightarrow>
      case inp.get_n n bs2 of None \<Rightarrow> None | Some (ins, bs3) \<Rightarrow>
      case get_varInt bs3 of None \<Rightarrow> None | Some (m, bs4) \<Rightarrow>
      case outp.get_n m bs4 of None \<Rightarrow> None | Some (outs, bs5) \<Rightarrow>
      case get_le 4 bs5 of None \<Rightarrow> None | Some (lt, bs6) \<Rightarrow>
        Some (\<lparr>tx_version = v, tx_ins = ins, tx_outs = outs, tx_locktime = lt\<rparr>, bs6))"

definition wf_tx :: "int \<Rightarrow> tx_in list \<Rightarrow> tx_out list \<Rightarrow> int \<Rightarrow> bool" where
  "wf_tx version ins outs locktime \<longleftrightarrow> 0 \<le> version \<and> version < 2 ^ 32 \<and> 0 \<le> locktime \<and> locktime < 2 ^ 32 \<and>
     length ins < 2 ^ 64 \<and> length outs < 2 ^ 64 \<and> list_all wf_in ins \<and> list_all wf_out outs"

lemma put_in_norm [simp]: "put_in (norm_in x) = put_in x"
  by (simp add: put_in_def norm_in_def in_sequence_def)

lemma wf_norm_in: "wf_in x \<Longrightarrow> wf_in (norm_in x) \<and> txSequence (norm_in x) \<noteq> None"
  by (simp add: wf_in_def norm_in_def in_sequence_def)

lemma get_ins_put:
  "list_all wf_in ins \<Longrightarrow>
     inp.get_n (length ins) (concat (map put_in ins) @ rest) = Some (map norm_in ins, rest)"
  using inp.get_n_put [of "map norm_in ins" rest] wf_norm_in by (auto simp: list_all_iff o_def)

lemma serializeTx_append:
  "serializeTx v ins outs lt @ rest = u32le v @ varInt (length ins) @ concat (map put_in ins) @
     varInt (length outs) @ concat (map put_out outs) @ u32le lt @ rest"
  by (simp add: serializeTx_def concatBytes_def)

lemma get_tx_serializeTx:
  assumes "wf_tx version ins outs locktime"
  shows "get_tx (serializeTx version ins outs locktime @ rest) =
    Some (\<lparr>tx_version = version, tx_ins = map norm_in ins, tx_outs = outs, tx_locktime = locktime\<rparr>, rest)"
proof -
  have "\<forall>x \<in> set outs. wf_out x" "list_all wf_in ins" using assms by (auto simp: wf_tx_def list_all_iff)
  then show ?thesis
    using assms unfolding serializeTx_append
    by (simp add: get_tx_def u32.get_put vi.get_put get_ins_put outp.get_n_put wf_tx_def)
qed



section \<open>What a signature commits to\<close>

lemma serializeTx_inject:
  assumes "wf_tx v ins outs lt" "wf_tx v' ins' outs' lt'"
    "serializeTx v ins outs lt @ r = serializeTx v' ins' outs' lt' @ r'"
  shows "v = v' \<and> map norm_in ins = map norm_in ins' \<and> outs = outs' \<and> lt = lt' \<and> r = r'"
  using get_tx_serializeTx [OF assms(1), of r] get_tx_serializeTx [OF assms(2), of r'] assms(3) by simp

lemma blank_in_simps [simp]:
  "prevTxid (blank_in k sub i x) = prevTxid x" "prevVout (blank_in k sub i x) = prevVout x"
  "in_sequence (blank_in k sub i x) = in_sequence x"
  "scriptSig (blank_in k sub i x) = (if i = k then sub else [])"
  by (simp_all add: blank_in_def in_sequence_def)

lemma wf_blank:
  assumes "list_all wf_in ins" "length sub < 2 ^ 64"
  shows "list_all wf_in (map2 (blank_in k sub) [0..<length ins] ins)"
  using assms by (auto simp: list_all_length wf_in_def)

lemma wf_tx_blank:
  assumes "wf_tx 2 ins outs lt" "length sub < 2 ^ 64"
  shows "wf_tx 2 (map2 (blank_in k sub) [0..<length ins] ins) outs lt"
  using assms wf_blank by (simp add: wf_tx_def)

text \<open>An input without its script: what a signature commits to in every input.\<close>

definition outpoint :: "tx_in \<Rightarrow> bytes \<times> int \<times> int" where
  "outpoint x = (prevTxid x, prevVout x, in_sequence x)"

lemma sighash_preimage_append:
  "sighash_preimage ins outs k sub lt =
     serializeTx 2 (map2 (blank_in k sub) [0..<length ins] ins) outs lt @ u32le 1"
  by (simp add: sighash_preimage_def concatBytes_def)

lemma sighash_preimage_inject:
  assumes "wf_tx 2 ins outs lt" "wf_tx 2 ins' outs' lt'" "length sub < 2 ^ 64" "length sub' < 2 ^ 64"
    "k < length ins" "k' < length ins'" "sub \<noteq> []"
    "sighash_preimage ins outs k sub lt = sighash_preimage ins' outs' k' sub' lt'"
  shows "map outpoint ins = map outpoint ins' \<and> outs = outs' \<and> k = k' \<and> sub = sub' \<and> lt = lt'"
proof -
  let ?b = "map2 (blank_in k sub) [0..<length ins] ins"
  let ?b' = "map2 (blank_in k' sub') [0..<length ins'] ins'"
  have eq: "map norm_in ?b = map norm_in ?b'" "outs = outs'" "lt = lt'"
    using serializeTx_inject [OF wf_tx_blank [OF assms(1,3)] wf_tx_blank [OF assms(2,4)]
        assms(8) [unfolded sighash_preimage_append]] by blast+
  then have len: "length ins = length ins'" by (metis length_map length_zip length_upt min.idem minus_nat.diff_0)
  have n: "norm_in (blank_in k sub i (ins ! i)) = norm_in (blank_in k' sub' i (ins' ! i))"
    if "i < length ins" for i
    using arg_cong [OF eq(1), of "\<lambda>l. l ! i"] that len by simp
  have "outpoint (ins ! i) = outpoint (ins' ! i)" if "i < length ins" for i
    using arg_cong [OF n [OF that], of outpoint]
    by (simp add: outpoint_def norm_in_def in_sequence_def blank_in_def)
  then have "map outpoint ins = map outpoint ins'" using len by (intro nth_equalityI) auto
  moreover have sc: "(if i = k then sub else []) = (if i = k' then sub' else [])" if "i < length ins" for i
    using arg_cong [OF n [OF that], of scriptSig] by (simp add: norm_in_def)
  ultimately show ?thesis using eq sc [OF assms(5)] assms(7) by (auto split: if_splits)
qed

text \<open>
  C4: the bytes that are hashed for a signature determine everything the
  signature is meant to bind: each input's outpoint and sequence number, all
  outputs, the lock time, which input is signed and the script it spends. Two
  signing requests with the same preimage are the same request.
\<close>

theorem sighash_commits:
  assumes "wf_tx 2 ins outs lt" "wf_tx 2 ins' outs' lt'" "k < length ins" "k' < length ins'"
    "length h < 2 ^ 63" "length h' < 2 ^ 63"
    "sighash_preimage ins outs k (p2pkhScriptPubKey h) lt =
      sighash_preimage ins' outs' k' (p2pkhScriptPubKey h') lt'"
  shows "map outpoint ins = map outpoint ins' \<and> outs = outs' \<and> k = k' \<and> h = h' \<and> lt = lt'"
  using sighash_preimage_inject [OF assms(1,2) _ _ assms(3,4) _ assms(7)] assms(5,6)
  by (auto simp: p2pkhScriptPubKey_def)

theorem sighash_commits_witness:
  "\<exists>ins outs. wf_tx 2 ins outs 0 \<and> length ins = 2 \<and>
    sighash_preimage ins outs 0 (p2pkhScriptPubKey (replicate 20 1)) 0 \<noteq>
      sighash_preimage ins outs 1 (p2pkhScriptPubKey (replicate 20 1)) 0"
proof -
  define ins where "ins = [\<lparr>prevTxid = replicate 32 1, prevVout = 0, scriptSig = [], txSequence = None\<rparr>,
    \<lparr>prevTxid = replicate 32 2, prevVout = 1, scriptSig = [], txSequence = None\<rparr>]"
  define outs where "outs = [\<lparr>scriptPubKey = [6, 7], valueSatoshis = 1000\<rparr>]"
  have "wf_tx 2 ins outs 0" "length ins = 2"
    by (simp_all add: ins_def outs_def wf_tx_def wf_in_def wf_out_def in_sequence_def)
  then show ?thesis
    using sighash_commits [of ins outs 0 ins outs 0 0 1 "replicate 20 1" "replicate 20 1"] by auto
qed

end
