(* ===== verification/Script.thy ===== *)
theory Script
  imports Tx
begin

text \<open>
  Scripts as a node reads them: the data pushes of a \<open>scriptSig\<close> and the check
  that a P2PKH input is properly signed. The wallet's builders are verified
  against these; they are not part of the wallet.
\<close>

section \<open>Data pushes\<close>

text \<open>
  A push opcode is 1 to 75 followed by that many bytes, \<open>OP_PUSHDATA1\<close> (0x4c)
  with a one-byte length, \<open>OP_PUSHDATA2\<close> (0x4d) with a two-byte length, or
  \<open>OP_0\<close>, which pushes the empty string. Any other opcode is not a push.
\<close>

definition get_push :: "bytes \<Rightarrow> (bytes \<times> bytes) option" where
  "get_push s =
     (case s of [] \<Rightarrow> None
      | op # r \<Rightarrow>
          if op \<le> 75 then get_block (unat op) r
          else if op = 0x4c then
            (case r of [] \<Rightarrow> None | l # r' \<Rightarrow> get_block (unat l) r')
          else if op = 0x4d then
            (case get_le 2 r of None \<Rightarrow> None | Some (l, r') \<Rightarrow> get_block (nat l) r')
          else None)"

lemma get_block_shorter: "get_block k bs = Some (b, r) \<Longrightarrow> length r \<le> length bs"
  by (auto simp: get_block_def split: if_splits)

lemma get_le_shorter: "get_le k bs = Some (b, r) \<Longrightarrow> length r \<le> length bs"
  by (auto simp: get_le_def split: if_splits)

lemma get_push_shorter: "get_push s = Some (d, r) \<Longrightarrow> length r < length s"
  by (auto simp: get_push_def split: list.splits if_splits option.splits
      dest!: get_block_shorter get_le_shorter)

function pushes :: "bytes \<Rightarrow> bytes list option" where
  "pushes s =
     (if s = [] then Some []
      else case get_push s of None \<Rightarrow> None
        | Some (d, r) \<Rightarrow> (case pushes r of None \<Rightarrow> None | Some ds \<Rightarrow> Some (d # ds)))"
  by pat_completeness auto
termination
  by (relation "measure length") (auto dest: get_push_shorter)

declare pushes.simps [simp del]

lemma pushes_Nil [simp]: "pushes [] = Some []"
  by (simp add: pushes.simps)

text \<open>A direct push of at most 75 bytes reads back.\<close>

definition small_push :: "bytes \<Rightarrow> bytes" where
  "small_push d = of_nat (length d) # d"

lemma get_push_small:
  assumes "length d \<le> 75"
  shows "get_push (small_push d @ r) = Some (d, r)"
proof -
  have "(of_nat (length d) :: byte) \<le> 75" "unat (of_nat (length d) :: byte) = length d"
    using assms by (simp_all add: word_le_nat_alt unat_of_nat)
  then show ?thesis by (simp add: get_push_def small_push_def get_block_put)
qed

interpretation push: stream_codec small_push get_push "\<lambda>d. length d \<le> 75"
  by unfold_locales (rule get_push_small)

lemma pushes_small:
  "length d \<le> 75 \<Longrightarrow> pushes (small_push d @ r) = map_option ((#) d) (pushes r)"
  by (subst pushes.simps) (simp add: get_push_small, simp add: small_push_def map_option_case)

section \<open>A properly signed P2PKH input\<close>

text \<open>
  The node's side: the input's script pushes a signature and a public key, the
  key hashes to the hash in the spent script, the signature ends in the byte
  \<open>SIGHASH_ALL\<close>, is strict DER, and verifies on the signature hash the node
  computes from the transaction it received.
\<close>

type_synonym verifier = "bytes \<Rightarrow> int \<times> int \<Rightarrow> bytes \<Rightarrow> bool"

definition sig_valid :: "verifier \<Rightarrow> bytes \<Rightarrow> bytes \<Rightarrow> bytes \<Rightarrow> bool" where
  "sig_valid verify h sg pk \<longleftrightarrow>
     sg \<noteq> [] \<and> last sg = 0x01 \<and>
     (case der_decode (butlast sg) of None \<Rightarrow> False | Some rs \<Rightarrow> verify h rs pk)"

definition p2pkh_spend_ok ::
  "hash_fun \<Rightarrow> hash_fun \<Rightarrow> verifier \<Rightarrow> tx \<Rightarrow> nat \<Rightarrow> bytes \<Rightarrow> bool" where
  "p2pkh_spend_ok sha256 ripemd160 verify t i h \<longleftrightarrow>
     (case pushes (scriptSig (tx_ins t ! i)) of
        Some [sg, pk] \<Rightarrow>
          hash160 sha256 ripemd160 pk = h \<and>
          sig_valid verify
            (legacySighash sha256 (tx_ins t) (tx_outs t) i (p2pkhScriptPubKey h) (tx_locktime t)) sg pk
      | _ \<Rightarrow> False)"

lemma sig_valid_der:
  assumes "sig_range sig" "verify h (sig_r sig, sig_s sig) pk"
  shows "sig_valid verify h (derEncodeSignature sig @ [0x01]) pk"
  using assms by (simp add: sig_valid_def der_decode_encode)

end
