(* ===== verification/Tx_Sign.thy ===== *)
theory Tx_Sign
  imports Script
begin

text \<open>
  The signing loop of \<open>buildAndSignTransaction\<close>: it signs one input after
  another and each round sees the scripts the earlier rounds have set. The
  signature hash does not depend on them, so the result is the same as signing
  every input of the unsigned transaction, and every input passes the node's check.
\<close>

section \<open>The signature hash ignores the scripts\<close>

definition unscript :: "tx_in \<Rightarrow> tx_in" where
  "unscript x = x\<lparr>scriptSig := []\<rparr>"

lemma unscript_set [simp]: "unscript (x\<lparr>scriptSig := s\<rparr>) = unscript x"
  by (simp add: unscript_def)

lemma blank_in_unscript: "blank_in k sub i (unscript x) = blank_in k sub i x"
  by (simp add: blank_in_def unscript_def)

lemma sighash_unscript:
  assumes "map unscript xs = map unscript ys"
  shows "legacySighash sha256 xs outs k sub lt = legacySighash sha256 ys outs k sub lt"
proof -
  have len: "length xs = length ys" using assms by (metis length_map)
  have "blank_in k sub i (xs ! i) = blank_in k sub i (ys ! i)" if "i < length xs" for i
    using arg_cong [OF assms, of "\<lambda>l. blank_in k sub i (l ! i)"] that len
    by (simp add: blank_in_unscript)
  then have "map2 (blank_in k sub) [0..<length xs] xs = map2 (blank_in k sub) [0..<length ys] ys"
    using len by (intro nth_equalityI) auto
  then show ?thesis by (simp add: legacySighash_def sighash_preimage_def)
qed

section \<open>Signing each input of the unsigned transaction\<close>

definition p2pkh_script :: "signature \<Rightarrow> bytes \<Rightarrow> bytes" where
  "p2pkh_script sig pk = small_push (derEncodeSignature sig @ [0x01]) @ small_push pk"

definition signed_in ::
  "hash_fun \<Rightarrow> signer \<Rightarrow> tx_out list \<Rightarrow> bytes option \<Rightarrow> bytes option \<Rightarrow> int \<Rightarrow> tx_in list \<Rightarrow>
   nat \<times> utxo_in \<Rightarrow> tx_in result" where
  "signed_in sha256 sign outs priv pub lt base = (\<lambda>(i, u).
     bindr (sign (legacySighash sha256 base outs i (p2pkhScriptPubKey (u_pubkeyHash u)) lt)
       (or_else (u_privateKey u) priv)) (\<lambda>sig.
     case or_else (u_publicKey u) pub of None \<Rightarrow> Inl TypeError
     | Some pk \<Rightarrow> Inr ((unsigned_in u)\<lparr>scriptSig := p2pkh_script sig pk\<rparr>)))"

lemma sign_inputs_each:
  assumes "map unscript (done_ins @ map unsigned_in us) = map unscript base" "length done_ins = i"
  shows "sign_inputs sha256 sign outs priv pub lt i us (done_ins @ map unsigned_in us) =
    bindr (mapr (signed_in sha256 sign outs priv pub lt base) (zip [i..<i + length us] us))
      (\<lambda>xs. Inr (done_ins @ xs))"
  using assms
proof (induction us arbitrary: done_ins i)
  case (Cons u us)
  let ?ins = "done_ins @ unsigned_in u # map unsigned_in us"
  have h: "legacySighash sha256 ?ins outs k sub lt = legacySighash sha256 base outs k sub lt" for k sub
    using Cons.prems(1) by (intro sighash_unscript) simp
  have s: "sign_input sha256 sign outs priv pub lt i u ?ins =
      bindr (signed_in sha256 sign outs priv pub lt base (i, u)) (\<lambda>x. Inr (done_ins @ x # map unsigned_in us))"
    using Cons.prems(2)
    by (auto simp: sign_input_def signed_in_def h Let_def bindr_def nth_append p2pkh_script_def
        small_push_def concatBytes_def split: sum.splits option.splits)
  have step: "sign_inputs sha256 sign outs priv pub lt (Suc i) us ((done_ins @ [x]) @ map unsigned_in us) =
      bindr (mapr (signed_in sha256 sign outs priv pub lt base) (zip [Suc i..<Suc i + length us] us))
        (\<lambda>xs. Inr ((done_ins @ [x]) @ xs))" if "unscript x = unscript (unsigned_in u)" for x
    using Cons.prems that by (intro Cons.IH) auto
  have un: "unscript x = unscript (unsigned_in u)"
    if "signed_in sha256 sign outs priv pub lt base (i, u) = Inr x" for x
    using that by (auto simp: signed_in_def result_simps split: option.splits)
  have z: "zip [i..<i + length (u # us)] (u # us) = (i, u) # zip [Suc i..<Suc i + length us] us"
    by (simp add: upt_rec)
  show ?case
  proof (cases "signed_in sha256 sign outs priv pub lt base (i, u)")
    case (Inr x)
    with s step [OF un [OF Inr]] show ?thesis
      unfolding z by (simp add: bindr_def split: sum.splits)
  qed (use s z in \<open>simp add: bindr_def\<close>)
qed simp

lemma buildAndSign_total:
  assumes "\<And>h k. \<exists>sig. sign h k = Inr sig" "us \<noteq> []" "\<And>u. u \<in> set us \<Longrightarrow> or_else (u_publicKey u) pub \<noteq> None"
  shows "\<exists>raw. buildAndSignTransaction sha256 sign us outs priv pub lt = Inr raw"
proof -
  have "\<exists>x. signed_in sha256 sign outs priv pub lt (map unsigned_in us) (i, u) = Inr x" if "u \<in> set us" for i u
  proof -
    obtain sig where "sign (legacySighash sha256 (map unsigned_in us) outs i (p2pkhScriptPubKey (u_pubkeyHash u)) lt)
        (or_else (u_privateKey u) priv) = Inr sig" using assms(1) by blast
    with assms(3) [OF that] show ?thesis by (auto simp: signed_in_def)
  qed
  then have "\<exists>xs. mapr (signed_in sha256 sign outs priv pub lt (map unsigned_in us)) (zip [0..<length us] us) = Inr xs"
    by (intro mapr_exists) (auto dest: set_zip_rightD)
  then show ?thesis
    using sign_inputs_each [of "[]" us "map unsigned_in us" 0 sha256 sign outs priv pub lt] assms(2)
    by (auto simp: buildAndSignTransaction_def)
qed

section \<open>Every input of the result is properly signed\<close>

text \<open>
  What the wallet relies on of the secp256k1 library: signing with a valid
  private key returns a signature that verifies under its 33-byte public key.
\<close>

definition signer_ok :: "bytes set \<Rightarrow> (bytes \<Rightarrow> bytes) \<Rightarrow> signer \<Rightarrow> verifier \<Rightarrow> bool" where
  "signer_ok keys pubkey sign verify \<longleftrightarrow>
     (\<forall>h. \<forall>k \<in> keys. length (pubkey k) = 33 \<and>
       (\<exists>sig. sign h (Some k) = Inr sig \<and> sig_range sig \<and> verify h (sig_r sig, sig_s sig) (pubkey k)))"

text \<open>The keys an input is signed with belong to the address it spends.\<close>

definition has_key ::
  "hash_fun \<Rightarrow> hash_fun \<Rightarrow> (bytes \<Rightarrow> bytes) \<Rightarrow> bytes set \<Rightarrow> bytes option \<Rightarrow> bytes option \<Rightarrow> utxo_in \<Rightarrow> bool" where
  "has_key sha256 ripemd160 pubkey keys priv pub u \<longleftrightarrow>
     (\<exists>k \<in> keys. or_else (u_privateKey u) priv = Some k \<and> or_else (u_publicKey u) pub = Some (pubkey k) \<and>
       hash160 sha256 ripemd160 (pubkey k) = u_pubkeyHash u)"

definition signed_ok ::
  "hash_fun \<Rightarrow> hash_fun \<Rightarrow> verifier \<Rightarrow> tx_out list \<Rightarrow> int \<Rightarrow> tx_in list \<Rightarrow> nat \<Rightarrow> utxo_in \<Rightarrow> tx_in \<Rightarrow> bool" where
  "signed_ok sha256 ripemd160 verify outs lt base i u x \<longleftrightarrow>
     (\<exists>sig pk. x = (unsigned_in u)\<lparr>scriptSig := p2pkh_script sig pk\<rparr> \<and> sig_range sig \<and> length pk = 33 \<and>
       hash160 sha256 ripemd160 pk = u_pubkeyHash u \<and>
       verify (legacySighash sha256 base outs i (p2pkhScriptPubKey (u_pubkeyHash u)) lt) (sig_r sig, sig_s sig) pk)"

lemma signed_in_ok:
  assumes "signer_ok keys pubkey sign verify" "has_key sha256 ripemd160 pubkey keys priv pub u"
  shows "\<exists>x. signed_in sha256 sign outs priv pub lt base (i, u) = Inr x \<and>
    signed_ok sha256 ripemd160 verify outs lt base i u x"
proof -
  let ?h = "legacySighash sha256 base outs i (p2pkhScriptPubKey (u_pubkeyHash u)) lt"
  obtain k where k: "k \<in> keys" "or_else (u_privateKey u) priv = Some k"
    "or_else (u_publicKey u) pub = Some (pubkey k)" "hash160 sha256 ripemd160 (pubkey k) = u_pubkeyHash u"
    using assms(2) by (auto simp: has_key_def)
  obtain sig where "sign ?h (Some k) = Inr sig" "sig_range sig" "verify ?h (sig_r sig, sig_s sig) (pubkey k)"
    "length (pubkey k) = 33"
    using assms(1) k(1) by (auto simp: signer_ok_def)
  with k show ?thesis by (auto simp: signed_in_def signed_ok_def)
qed

lemma signed_ok_wf:
  assumes "signed_ok sha256 ripemd160 verify outs lt base i u x" "wf_in (unsigned_in u)"
  shows "wf_in x" "norm_in x = x" "unscript x = unscript (unsigned_in u)" "outpoint x = outpoint (unsigned_in u)"
proof -
  obtain sig pk where x: "x = (unsigned_in u)\<lparr>scriptSig := p2pkh_script sig pk\<rparr>" "sig_range sig" "length pk = 33"
    using assms(1) by (auto simp: signed_ok_def)
  have "length (p2pkh_script sig pk) < 2 ^ 64"
    using length_derEncodeSignature [OF x(2)] x(3) by (simp add: p2pkh_script_def small_push_def)
  then show "wf_in x" "norm_in x = x" "unscript x = unscript (unsigned_in u)" "outpoint x = outpoint (unsigned_in u)"
    using assms(2) x(1) by (auto simp: wf_in_def in_sequence_def norm_in_def unsigned_in_def outpoint_def unscript_def)
qed

lemma signed_ok_spend:
  assumes ok: "signed_ok sha256 ripemd160 verify (tx_outs t) (tx_locktime t) base i u (tx_ins t ! i)"
    and base: "map unscript (tx_ins t) = map unscript base"
  shows "p2pkh_spend_ok sha256 ripemd160 verify t i (u_pubkeyHash u)"
proof -
  obtain sig pk where x: "tx_ins t ! i = (unsigned_in u)\<lparr>scriptSig := p2pkh_script sig pk\<rparr>" "sig_range sig"
    "length pk = 33" "hash160 sha256 ripemd160 pk = u_pubkeyHash u"
    "verify (legacySighash sha256 base (tx_outs t) i (p2pkhScriptPubKey (u_pubkeyHash u)) (tx_locktime t))
      (sig_r sig, sig_s sig) pk"
    using ok by (auto simp: signed_ok_def)
  have "length (derEncodeSignature sig @ [1]) \<le> 75"
    using length_derEncodeSignature [OF x(2)] by simp
  then have "pushes (p2pkh_script sig pk) = Some [derEncodeSignature sig @ [1], pk]"
    using pushes_small [of pk "[]"] x(3) by (simp add: p2pkh_script_def pushes_small)
  then show ?thesis
    using x sig_valid_der [of sig verify, OF x(2,5)] sighash_unscript [OF base] by (simp add: p2pkh_spend_ok_def)
qed

lemma sign_inputs_ok:
  assumes "signer_ok keys pubkey sign verify" "\<forall>u \<in> set us. has_key sha256 ripemd160 pubkey keys priv pub u"
  shows "\<exists>xs. sign_inputs sha256 sign outs priv pub lt 0 us (map unsigned_in us) = Inr xs \<and>
    list_all2 (\<lambda>(i, u). signed_ok sha256 ripemd160 verify outs lt (map unsigned_in us) i u) (zip [0..<length us] us) xs"
proof -
  let ?P = "\<lambda>iu x. signed_in sha256 sign outs priv pub lt (map unsigned_in us) iu = Inr x \<and>
      signed_ok sha256 ripemd160 verify outs lt (map unsigned_in us) (fst iu) (snd iu) x"
  have "\<forall>iu \<in> set (zip [0..<length us] us). \<exists>x. ?P iu x"
    using signed_in_ok [OF assms(1)] assms(2) by (auto dest: set_zip_rightD)
  then obtain g where g: "\<forall>iu \<in> set (zip [0..<length us] us). ?P iu (g iu)" by metis
  then have "mapr (signed_in sha256 sign outs priv pub lt (map unsigned_in us)) (zip [0..<length us] us) =
      Inr (map g (zip [0..<length us] us))"
    by (intro mapr_total) auto
  moreover have "list_all2 (\<lambda>(i, u). signed_ok sha256 ripemd160 verify outs lt (map unsigned_in us) i u)
      (zip [0..<length us] us) (map g (zip [0..<length us] us))"
    using g by (auto simp: list.rel_map intro!: list.rel_refl_strong)
  ultimately show ?thesis
    using sign_inputs_each [of "[]" us "map unsigned_in us" 0] by simp
qed

lemma buildAndSign_ok:
  assumes sig: "signer_ok keys pubkey sign verify" and ne: "inputs \<noteq> []"
    and wf: "wf_tx 2 (map unsigned_in inputs) outputs locktime"
    and keys: "\<forall>u \<in> set inputs. has_key sha256 ripemd160 pubkey keys priv pub u"
  shows "\<exists>raw t. buildAndSignTransaction sha256 sign inputs outputs priv pub locktime = Inr raw \<and>
    get_tx raw = Some (t, []) \<and> tx_version t = 2 \<and> tx_outs t = outputs \<and> tx_locktime t = locktime \<and>
    map outpoint (tx_ins t) = map (outpoint \<circ> unsigned_in) inputs \<and>
    (\<forall>i < length inputs. p2pkh_spend_ok sha256 ripemd160 verify t i (u_pubkeyHash (inputs ! i)))"
proof -
  let ?ok = "signed_ok sha256 ripemd160 verify outputs locktime (map unsigned_in inputs)"
  obtain xs where xs: "sign_inputs sha256 sign outputs priv pub locktime 0 inputs (map unsigned_in inputs) = Inr xs"
    "list_all2 (\<lambda>(i, u). ?ok i u) (zip [0..<length inputs] inputs) xs"
    using sign_inputs_ok [OF sig keys, of outputs locktime] by blast
  then have len: "length xs = length inputs" by (auto dest: list_all2_lengthD)
  have ok: "?ok i (inputs ! i) (xs ! i)" if "i < length inputs" for i
    using list_all2_nthD [OF xs(2), of i] that by simp
  have wfi: "wf_in (unsigned_in (inputs ! i))" if "i < length inputs" for i
    using wf that by (simp add: wf_tx_def list_all_length)
  note facts = signed_ok_wf [OF ok wfi]
  have norm: "map norm_in xs = xs" using facts(2) len by (intro nth_equalityI) auto
  have un: "map unscript xs = map unscript (map unsigned_in inputs)"
    using facts(3) len by (intro nth_equalityI) auto
  have out: "map outpoint xs = map (outpoint \<circ> unsigned_in) inputs"
    using facts(4) len by (intro nth_equalityI) auto
  have "wf_tx 2 xs outputs locktime"
    using wf facts(1) len by (simp add: wf_tx_def list_all_length)
  from get_tx_serializeTx [OF this, of "[]"] norm
  have "get_tx (serializeTx 2 xs outputs locktime) =
      Some (\<lparr>tx_version = 2, tx_ins = xs, tx_outs = outputs, tx_locktime = locktime\<rparr>, [])" by simp
  moreover have "p2pkh_spend_ok sha256 ripemd160 verify
      \<lparr>tx_version = 2, tx_ins = xs, tx_outs = outputs, tx_locktime = locktime\<rparr> i (u_pubkeyHash (inputs ! i))"
    if "i < length inputs" for i
    using ok [OF that] un by (intro signed_ok_spend) auto
  ultimately show ?thesis
    using ne xs(1) out by (simp add: buildAndSignTransaction_def)
qed



end
