(* ===== verification/Multisig.thy ===== *)
theory Multisig
  imports Tx_Sign
begin

text \<open>
  Multi-signature spending as in \<open>crypto.js\<close>: redeem scripts, the proposal that
  cosigners pass around, signing and merging copies of it, and the assembly of
  the final transaction.
\<close>

section \<open>Redeem scripts\<close>

definition OP_CHECKMULTISIG :: byte where
  "OP_CHECKMULTISIG = 0xae"

text \<open>
  The threshold comes from \<open>parseInt\<close>, so it may be \<open>NaN\<close>, here \<open>None\<close>: every
  comparison with it is false, and as a byte the sum with it is 0.
\<close>

definition outside :: "int option \<Rightarrow> int \<Rightarrow> int \<Rightarrow> bool" where
  "outside n lo hi = (case n of None \<Rightarrow> False | Some k \<Rightarrow> k < lo \<or> k > hi)"

definition opN :: "int option \<Rightarrow> byte result" where
  "opN n =
     (if outside n 1 16 then Inl (Error ''OP_N only supports 1..16'')
      else Inr (case n of None \<Rightarrow> 0 | Some k \<Rightarrow> word_of_int (0x50 + k)))"

definition pubkey_push :: "bytes \<Rightarrow> bytes result" where
  "pubkey_push pk =
     (if length pk \<noteq> 33 then Inl (Error ''Only compressed (33-byte) pubkeys are supported'')
      else Inr (concatBytes [[of_nat (length pk)], pk]))"

definition createMultisigRedeemScript :: "int option \<Rightarrow> bytes list \<Rightarrow> bytes result" where
  "createMultisigRedeemScript m pubkeysCompressed =
     (if outside m 1 (int (length pubkeysCompressed))
      then Inl (Error ''m must be between 1 and the number of pubkeys'')
      else if length pubkeysCompressed > 16
      then Inl (Error ''at most 16 pubkeys supported (OP_N range)'')
      else
        bindr (opN m) (\<lambda>om.
        bindr (mapr pubkey_push pubkeysCompressed) (\<lambda>parts.
        bindr (opN (Some (int (length pubkeysCompressed)))) (\<lambda>on.
          Inr (concatBytes ([[om]] @ parts @ [[on, OP_CHECKMULTISIG]]))))))"

definition multisigAddress :: "hash_fun \<Rightarrow> hash_fun \<Rightarrow> bytes \<Rightarrow> network \<Rightarrow> string result" where
  "multisigAddress sha256 ripemd160 redeemScript net =
     p2shAddress sha256 (hash160 sha256 ripemd160 redeemScript) net"

section \<open>Proposals\<close>

text \<open>
  A proposal is plain data with byte strings in hexadecimal, so that it survives
  JSON. \<open>signatures\<close> has one object per input, from public key to signature.
\<close>

record multisig_in =
  mi_txid :: bytes
  mi_vout :: int
  mi_value :: int
  mi_redeem :: bytes

record proposal_in =
  pi_txid :: string
  pi_vout :: int
  pi_value :: int
  pi_redeemScript :: string

record proposal_out =
  po_scriptPubKey :: string
  po_value :: int

type_synonym sig_map = "string \<rightharpoonup> string"

record proposal =
  pr_version :: int
  pr_locktime :: int
  pr_inputs :: "proposal_in list"
  pr_outputs :: "proposal_out list"
  pr_signatures :: "sig_map list"

definition createMultisigProposal :: "multisig_in list \<Rightarrow> tx_out list \<Rightarrow> int \<Rightarrow> proposal" where
  "createMultisigProposal inputs outputs locktime =
     \<lparr>pr_version = 2, pr_locktime = locktime,
      pr_inputs = map (\<lambda>i. \<lparr>pi_txid = bytesToHex (mi_txid i), pi_vout = mi_vout i, pi_value = mi_value i,
        pi_redeemScript = bytesToHex (mi_redeem i)\<rparr>) inputs,
      pr_outputs = map (\<lambda>out. \<lparr>po_scriptPubKey = bytesToHex (scriptPubKey out), po_value = valueSatoshis out\<rparr>) outputs,
      pr_signatures = map (\<lambda>_. Map.empty) inputs\<rparr>"

definition proposal_ins :: "proposal \<Rightarrow> tx_in list" where
  "proposal_ins proposal =
     map (\<lambda>i. \<lparr>prevTxid = hexToBytes (pi_txid i), prevVout = pi_vout i, scriptSig = [], txSequence = None\<rparr>)
       (pr_inputs proposal)"

definition proposal_outs :: "proposal \<Rightarrow> tx_out list" where
  "proposal_outs proposal =
     map (\<lambda>out. \<lparr>scriptPubKey = hexToBytes (po_scriptPubKey out), valueSatoshis = po_value out\<rparr>) (pr_outputs proposal)"

definition proposalToTxInputsOutputs :: "proposal \<Rightarrow> tx_in list \<times> tx_out list" where
  "proposalToTxInputsOutputs proposal = (proposal_ins proposal, proposal_outs proposal)"

section \<open>Signing and merging\<close>

definition scriptContainsPubkey :: "bytes \<Rightarrow> bytes \<Rightarrow> bool" where
  "scriptContainsPubkey redeemScript pubkeyCompressed =
     js_includes (bytesToHex redeemScript) (bytesToHex pubkeyCompressed)"

text \<open>One round of the signing loop, on the signature objects as they stand.\<close>

definition sign_proposal_input ::
  "hash_fun \<Rightarrow> signer \<Rightarrow> tx_in list \<Rightarrow> tx_out list \<Rightarrow> int \<Rightarrow> bytes option \<Rightarrow> bytes \<Rightarrow> nat \<Rightarrow> proposal_in \<Rightarrow>
   sig_map list \<Rightarrow> sig_map list result" where
  "sign_proposal_input sha256 sign txInputs outputs locktime privateKey pk i inp sigs =
     (let redeemScript = hexToBytes (pi_redeemScript inp) in
      if \<not> scriptContainsPubkey redeemScript pk then Inr sigs
      else bindr (sign (legacySighash sha256 txInputs outputs i redeemScript locktime) privateKey) (\<lambda>sig.
        if i < length sigs
        then Inr (sigs[i := (sigs ! i)(bytesToHex pk \<mapsto>
               bytesToHex (concatBytes [derEncodeSignature sig, [0x01]]))])
        else Inl TypeError))"

fun sign_proposal_inputs ::
  "hash_fun \<Rightarrow> signer \<Rightarrow> tx_in list \<Rightarrow> tx_out list \<Rightarrow> int \<Rightarrow> bytes option \<Rightarrow> bytes \<Rightarrow> nat \<Rightarrow> proposal_in list \<Rightarrow>
   sig_map list \<Rightarrow> sig_map list result" where
  "sign_proposal_inputs sha256 sign txInputs outputs locktime privateKey pk i [] sigs = Inr sigs"
| "sign_proposal_inputs sha256 sign txInputs outputs locktime privateKey pk i (inp # inps) sigs =
     bindr (sign_proposal_input sha256 sign txInputs outputs locktime privateKey pk i inp sigs)
       (sign_proposal_inputs sha256 sign txInputs outputs locktime privateKey pk (Suc i) inps)"

definition signMultisigProposal ::
  "hash_fun \<Rightarrow> signer \<Rightarrow> proposal \<Rightarrow> bytes option \<Rightarrow> bytes \<Rightarrow> proposal result" where
  "signMultisigProposal sha256 sign proposal privateKey publicKeyCompressed =
     (let (txInputs, outputs) = proposalToTxInputsOutputs proposal in
      bindr (sign_proposal_inputs sha256 sign txInputs outputs (pr_locktime proposal) privateKey
               publicKeyCompressed 0 (pr_inputs proposal) (pr_signatures proposal)) (\<lambda>sigs.
        Inr (proposal\<lparr>pr_signatures := sigs\<rparr>)))"

text \<open>
  \<open>Object.assign\<close> overrides entry by entry, and ignores a source that is
  \<open>undefined\<close>, as when a copy has fewer signature objects.
\<close>

definition assign_sigs :: "sig_map list \<Rightarrow> sig_map list \<Rightarrow> sig_map list" where
  "assign_sigs merged other =
     map (\<lambda>i. if i < length other then (merged ! i) ++ (other ! i) else merged ! i) [0..<length merged]"

definition mergeMultisigProposals :: "proposal list \<Rightarrow> proposal result" where
  "mergeMultisigProposals proposals =
     (case proposals of [] \<Rightarrow> Inl SyntaxError
      | p # ps \<Rightarrow>
          Inr (foldl (\<lambda>merged q. merged\<lparr>pr_signatures := assign_sigs (pr_signatures merged) (pr_signatures q)\<rparr>) p ps))"

section \<open>Assembling the transaction\<close>

function pubkeys_loop :: "bytes \<Rightarrow> nat \<Rightarrow> string list \<Rightarrow> string list" where
  "pubkeys_loop redeemScript i pubkeys =
     (if i < length redeemScript then
        let opcode = unat (redeemScript ! i) in
        if opcode \<ge> 1 \<and> opcode \<le> 75
        then pubkeys_loop redeemScript (i + (1 + opcode))
               (pubkeys @ [bytesToHex (take opcode (drop (i + 1) redeemScript))])
        else pubkeys
      else pubkeys)"
  by pat_completeness auto
termination
  by (relation "measure (\<lambda>(s, i, _). length s - i)") auto

declare pubkeys_loop.simps [simp del]

definition parsePubkeysInOrder :: "bytes \<Rightarrow> string list" where
  "parsePubkeysInOrder redeemScript = pubkeys_loop redeemScript 1 []"

text \<open>
  \<open>redeemScript[0] - 0x50\<close>, \<open>None\<close> standing for \<open>NaN\<close>, with which the comparison
  is false and the slice empty.
\<close>

definition script_m :: "bytes \<Rightarrow> int option" where
  "script_m redeemScript = (case redeemScript of [] \<Rightarrow> None | b # _ \<Rightarrow> Some (uint b - 0x50))"

definition collect_sigs :: "string list \<Rightarrow> sig_map \<Rightarrow> string list" where
  "collect_sigs pubkeysInOrder collected =
     filter (\<lambda>s. s \<noteq> []) (List.map_filter collected pubkeysInOrder)"

definition missing_sigs :: "nat \<Rightarrow> nat \<Rightarrow> int \<Rightarrow> string" where
  "missing_sigs i have m =
     ''Input '' @ js_toString 10 (int i) @ '' has '' @ js_toString 10 (int have) @
     '' signature(s), needs '' @ js_toString 10 m"

definition multisig_scriptSig :: "bytes list \<Rightarrow> bytes \<Rightarrow> bytes" where
  "multisig_scriptSig sigsToUse redeemScript =
     concatBytes ([[0x00]] @ concat (map (\<lambda>sig. [[of_nat (length sig)], sig]) sigsToUse) @
       [varInt (length redeemScript), redeemScript])"

definition finalize_input :: "proposal \<Rightarrow> nat \<Rightarrow> proposal_in \<Rightarrow> bytes result" where
  "finalize_input proposal i inp =
     (let redeemScript = hexToBytes (pi_redeemScript inp);
          m = script_m redeemScript;
          pubkeysInOrder = parsePubkeysInOrder redeemScript
      in
        if pubkeysInOrder \<noteq> [] \<and> length (pr_signatures proposal) \<le> i then Inl TypeError
        else
          let orderedSigs = collect_sigs pubkeysInOrder (pr_signatures proposal ! i) in
          case m of
            None \<Rightarrow> Inr (multisig_scriptSig [] redeemScript)
          | Some m \<Rightarrow>
              if int (length orderedSigs) < m then Inl (Error (missing_sigs i (length orderedSigs) m))
              else Inr (multisig_scriptSig (map hexToBytes (js_slice 0 m orderedSigs)) redeemScript))"

definition finalizeMultisigTransaction :: "proposal \<Rightarrow> bytes result" where
  "finalizeMultisigTransaction proposal =
     (let (txInputs, outputs) = proposalToTxInputsOutputs proposal in
      bindr (mapr (\<lambda>(i, inp). finalize_input proposal i inp)
               (zip [0..<length (pr_inputs proposal)] (pr_inputs proposal))) (\<lambda>scripts.
        Inr (serializeTx (pr_version proposal)
          (map2 (\<lambda>x s. x\<lparr>scriptSig := s\<rparr>) txInputs scripts) outputs (pr_locktime proposal))))"

end
