(* ===== verification/Multisig_Spec.thy ===== *)
theory Multisig_Spec
  imports Multisig
begin

text \<open>
  What multi-signature proposals guarantee: the redeem script reads back to its
  keys, signing and merging keep every collected signature valid, and a
  finalised transaction of at most two cosigners passes the node's check. With
  three cosigners or more the final script cannot be read as data pushes.
\<close>

section \<open>Redeem scripts read back\<close>

definition redeem :: "int \<Rightarrow> bytes list \<Rightarrow> bytes" where
  "redeem m pks =
     word_of_int (0x50 + m) # concat (map small_push pks) @ [word_of_int (0x50 + int (length pks)), 0xae]"

definition multisig_keys_ok :: "int \<Rightarrow> bytes list \<Rightarrow> bool" where
  "multisig_keys_ok m pks \<longleftrightarrow> 1 \<le> m \<and> m \<le> int (length pks) \<and> length pks \<le> 16 \<and> list_all (\<lambda>pk. length pk = 33) pks"

lemma mapr_pubkey_push:
  "mapr pubkey_push pks = Inr parts \<longleftrightarrow> list_all (\<lambda>pk. length pk = 33) pks \<and> parts = map small_push pks"
  by (induction pks arbitrary: parts)
     (auto simp: result_simps pubkey_push_def small_push_def concatBytes_def split: if_splits)

lemma createMultisigRedeemScript_Inr:
  "createMultisigRedeemScript (Some m) pks = Inr s \<longleftrightarrow> multisig_keys_ok m pks \<and> s = redeem m pks"
  by (auto simp: createMultisigRedeemScript_def result_simps mapr_pubkey_push opN_def outside_def multisig_keys_ok_def
      redeem_def concatBytes_def OP_CHECKMULTISIG_def split: if_splits)

lemma length_small_pushes:
  "list_all (\<lambda>pk. length pk = 33) pks \<Longrightarrow> length (concat (map small_push pks)) = 34 * length pks"
  by (induction pks) (auto simp: small_push_def)

lemma length_redeem:
  "multisig_keys_ok m pks \<Longrightarrow> length (redeem m pks) = 34 * length pks + 3"
  by (simp add: redeem_def multisig_keys_ok_def length_small_pushes)

lemma unat_opN: "0 \<le> n \<Longrightarrow> n \<le> 16 \<Longrightarrow> uint (word_of_int (0x50 + n) :: byte) = 0x50 + n"
  by (simp only: uint_word_of_int) simp

lemma pubkeys_loop_pushes:
  assumes "list_all (\<lambda>pk. length pk = 33) pks" "75 < unat stop"
  shows "pubkeys_loop (pre @ concat (map small_push pks) @ stop # rest) (length pre) acc =
    acc @ map bytesToHex pks"
  using assms(1)
proof (induction pks arbitrary: pre acc)
  case Nil
  with assms(2) show ?case by (subst pubkeys_loop.simps) (simp add: nth_append)
next
  case (Cons pk pks)
  have pk: "length pk = 33" using Cons.prems by simp
  have eq: "pre @ concat (map small_push (pk # pks)) @ stop # rest =
      (pre @ small_push pk) @ concat (map small_push pks) @ stop # rest" by simp
  have "pubkeys_loop (pre @ concat (map small_push (pk # pks)) @ stop # rest) (length pre) acc =
      pubkeys_loop ((pre @ small_push pk) @ concat (map small_push pks) @ stop # rest)
        (length (pre @ small_push pk)) (acc @ [bytesToHex pk])"
    unfolding eq using pk by (subst pubkeys_loop.simps) (simp add: nth_append small_push_def)
  also have "\<dots> = (acc @ [bytesToHex pk]) @ map bytesToHex pks"
    using Cons.prems by (intro Cons.IH) simp
  finally show ?case by simp
qed

lemma parsePubkeysInOrder_pushes:
  assumes "length pks \<le> 16" "list_all (\<lambda>pk. length pk = 33) pks"
  shows "parsePubkeysInOrder (b # concat (map small_push pks) @ [word_of_int (0x50 + int (length pks)), 0xae]) =
    map bytesToHex pks"
proof -
  have "75 < uint (word_of_int (0x50 + int (length pks)) :: byte)" using assms by (subst unat_opN) auto
  then have "75 < unat (word_of_int (0x50 + int (length pks)) :: byte)"
    by (simp only: unat_eq_nat_uint zless_nat_conj)
  from pubkeys_loop_pushes [OF assms(2) this, of "[b]" "[0xae]" "[]"] show ?thesis
    by (simp add: parsePubkeysInOrder_def)
qed

lemma parsePubkeysInOrder_redeem: "multisig_keys_ok m pks \<Longrightarrow> parsePubkeysInOrder (redeem m pks) = map bytesToHex pks"
  unfolding redeem_def by (rule parsePubkeysInOrder_pushes) (auto simp: multisig_keys_ok_def)

lemma script_m_redeem: "multisig_keys_ok m pks \<Longrightarrow> script_m (redeem m pks) = Some m"
  using unat_opN [of m] by (auto simp: script_m_def redeem_def multisig_keys_ok_def)


text \<open>
  A threshold that is no number, as from an empty field, is accepted for any 1 to 16 keys: the redeem
  script then asks for zero signatures, its first opcode being the one that pushes 0.
\<close>

lemma createMultisigRedeemScript_blank:
  assumes "pks \<noteq> []" "length pks \<le> 16" "list_all (\<lambda>pk. length pk = 33) pks"
  shows "\<exists>s. createMultisigRedeemScript None pks = Inr s \<and> hd s = 0 \<and> parsePubkeysInOrder s = map bytesToHex pks"
proof -
  have "createMultisigRedeemScript None pks = Inr (0 # concat (map small_push pks) @ [word_of_int (0x50 + int (length pks)), 0xae])"
    using assms mapr_pubkey_push [of pks "map small_push pks"]
    by (simp add: createMultisigRedeemScript_def opN_def outside_def concatBytes_def OP_CHECKMULTISIG_def)
  then show ?thesis using parsePubkeysInOrder_pushes [OF assms(2,3), of 0] by simp
qed

lemma createMultisigRedeemScript_blank_witness:
  "\<exists>s. createMultisigRedeemScript None [replicate 33 2, replicate 33 3] = Inr s \<and> hd s = 0"
  using createMultisigRedeemScript_blank [of "[replicate 33 2, replicate 33 3]"] by auto

section \<open>The node's check of a multi-signature input\<close>

text \<open>
  The input's script pushes an empty string, \<open>m\<close> signatures and the redeem
  script; the signatures verify under a subsequence of the keys, in order.
\<close>

definition multisig_spend_ok ::
  "hash_fun \<Rightarrow> verifier \<Rightarrow> tx \<Rightarrow> nat \<Rightarrow> int \<Rightarrow> bytes list \<Rightarrow> bool" where
  "multisig_spend_ok sha256 verify t i m pks \<longleftrightarrow>
     (\<exists>sigs. pushes (scriptSig (tx_ins t ! i)) = Some ([] # sigs @ [redeem m pks]) \<and> int (length sigs) = m \<and>
       list_emb (sig_valid verify
         (legacySighash sha256 (tx_ins t) (tx_outs t) i (redeem m pks) (tx_locktime t))) sigs pks)"

lemma pushes_small_list:
  "list_all (\<lambda>d. length d \<le> 75) ds \<Longrightarrow> pushes (concat (map small_push ds) @ r) = map_option ((@) ds) (pushes r)"
proof (induction ds)
  case Nil
  show ?case by (cases "pushes r") auto
next
  case (Cons d ds)
  then show ?case by (simp add: pushes_small option.map_comp o_def)
qed

lemma multisig_scriptSig_append:
  "multisig_scriptSig sigs script = concat (map small_push ([] # sigs)) @ varInt (length script) @ script"
proof -
  have "concat (concat (map (\<lambda>sig. [[of_nat (length sig)], sig]) sigs)) = concat (map small_push sigs)"
    by (induction sigs) (auto simp: small_push_def)
  then show ?thesis by (simp add: multisig_scriptSig_def concatBytes_def small_push_def)
qed

lemma multisig_scriptSig_pushes:
  assumes "list_all (\<lambda>d. length d \<le> 75) sigs" "length script \<le> 75"
  shows "pushes (multisig_scriptSig sigs script) = Some ([] # sigs @ [script])"
proof -
  have "varInt (length script) @ script = small_push script @ []"
    using assms(2) by (simp add: varInt_def small_push_def)
  then have "pushes (varInt (length script) @ script) = Some [script]"
    using pushes_small [OF assms(2), of "[]"] by simp
  then show ?thesis
    using assms(1) pushes_small_list [of "[] # sigs"] by (simp add: multisig_scriptSig_append)
qed

lemma get_push_varInt:
  assumes "77 < n" "n < 2 ^ 16"
  shows "get_push (varInt n @ r) = None"
proof (cases "n < 0xfd")
  case True
  then have "unat (of_nat n :: byte) = n" by (simp add: unat_of_nat)
  then have "\<not> (of_nat n :: byte) \<le> 75" "(of_nat n :: byte) \<noteq> 0x4c" "(of_nat n :: byte) \<noteq> 0x4d"
    using assms(1) by (auto simp: word_le_nat_alt)
  with True show ?thesis by (simp add: varInt_def get_push_def)
next
  case False
  with assms show ?thesis by (simp add: varInt_def get_push_def)
qed

lemma multisig_scriptSig_no_pushes:
  assumes "list_all (\<lambda>d. length d \<le> 75) sigs" "77 < length script" "length script < 2 ^ 16"
  shows "pushes (multisig_scriptSig sigs script) = None"
proof -
  have "varInt (length script) @ script \<noteq> []" using assms by (simp add: varInt_def)
  then have "pushes (varInt (length script) @ script) = None"
    using get_push_varInt [OF assms(2,3), of script] by (subst pushes.simps) simp
  then show ?thesis
    using assms(1) pushes_small_list [of "[] # sigs"] by (simp add: multisig_scriptSig_append)
qed

section \<open>The signatures of a proposal\<close>

definition proposal_sighash :: "hash_fun \<Rightarrow> proposal \<Rightarrow> nat \<Rightarrow> bytes" where
  "proposal_sighash sha256 p i =
     legacySighash sha256 (proposal_ins p) (proposal_outs p) i
       (hexToBytes (pi_redeemScript (pr_inputs p ! i))) (pr_locktime p)"

definition sig_entry_ok :: "verifier \<Rightarrow> bytes \<Rightarrow> string \<Rightarrow> string \<Rightarrow> bool" where
  "sig_entry_ok verify h k v \<longleftrightarrow>
     (\<exists>pk sg. k = bytesToHex pk \<and> v = bytesToHex sg \<and> length sg \<le> 75 \<and> sig_valid verify h sg pk)"

definition sigs_ok :: "verifier \<Rightarrow> bytes \<Rightarrow> sig_map \<Rightarrow> bool" where
  "sigs_ok verify h c \<longleftrightarrow> (\<forall>k v. c k = Some v \<longrightarrow> sig_entry_ok verify h k v)"

definition proposal_ok :: "hash_fun \<Rightarrow> verifier \<Rightarrow> proposal \<Rightarrow> bool" where
  "proposal_ok sha256 verify p \<longleftrightarrow>
     length (pr_signatures p) = length (pr_inputs p) \<and>
     (\<forall>i < length (pr_inputs p). sigs_ok verify (proposal_sighash sha256 p i) (pr_signatures p ! i))"

lemma sigs_okD:
  assumes "sigs_ok verify h c" "c (bytesToHex pk) = Some v"
  shows "\<exists>sg. v = bytesToHex sg \<and> length sg \<le> 75 \<and> sig_valid verify h sg pk"
  using assms bytesToHex_inject by (fastforce simp: sigs_ok_def sig_entry_ok_def)

lemma sigs_ok_update: "sigs_ok verify h c \<Longrightarrow> sig_entry_ok verify h k v \<Longrightarrow> sigs_ok verify h (c(k \<mapsto> v))"
  by (simp add: sigs_ok_def)

lemma sigs_ok_add: "sigs_ok verify h c \<Longrightarrow> sigs_ok verify h d \<Longrightarrow> sigs_ok verify h (c ++ d)"
  by (auto simp: sigs_ok_def map_add_Some_iff)

lemma collect_sigs_emb:
  assumes "sigs_ok verify h c"
  shows "\<exists>sgs. collect_sigs (map bytesToHex pks) c = map bytesToHex sgs \<and>
    length sgs = length (filter (\<lambda>pk. c (bytesToHex pk) \<noteq> None) pks) \<and>
    list_emb (sig_valid verify h) sgs pks \<and> list_all (\<lambda>d. length d \<le> 75) sgs"
proof (induction pks)
  case Nil
  show ?case by (auto simp: collect_sigs_def map_filter_def)
next
  case (Cons pk pks)
  then obtain sgs where sgs: "collect_sigs (map bytesToHex pks) c = map bytesToHex sgs"
    "length sgs = length (filter (\<lambda>pk. c (bytesToHex pk) \<noteq> None) pks)"
    "list_emb (sig_valid verify h) sgs pks" "list_all (\<lambda>d. length d \<le> 75) sgs" by blast
  show ?case
  proof (cases "c (bytesToHex pk)")
    case None
    with sgs show ?thesis by (intro exI [of _ sgs]) (auto simp: collect_sigs_def map_filter_def)
  next
    case (Some v)
    obtain sg where sg: "v = bytesToHex sg" "length sg \<le> 75" "sig_valid verify h sg pk"
      using sigs_okD [OF assms Some] by blast
    then have "bytesToHex sg \<noteq> []" by (auto simp: sig_valid_def bytesToHex_def byteHex_digits)
    with sg sgs Some show ?thesis
      by (intro exI [of _ "sg # sgs"]) (auto simp: collect_sigs_def map_filter_def)
  qed
qed

section \<open>Creating, signing and merging keep the signatures valid\<close>

lemma proposal_ok_create: "proposal_ok sha256 verify (createMultisigProposal inputs outputs locktime)"
  by (simp add: proposal_ok_def createMultisigProposal_def sigs_ok_def)

text \<open>The entry a key adds to the signature object of an input.\<close>

definition sig_entry :: "signer \<Rightarrow> bytes option \<Rightarrow> bytes \<Rightarrow> string" where
  "sig_entry sign priv h =
     (case sign h priv of Inl _ \<Rightarrow> [] | Inr sig \<Rightarrow> bytesToHex (derEncodeSignature sig @ [0x01]))"

definition add_sig :: "(nat \<Rightarrow> bytes \<Rightarrow> string) \<Rightarrow> bytes \<Rightarrow> nat \<Rightarrow> proposal_in \<Rightarrow> sig_map \<Rightarrow> sig_map" where
  "add_sig entry pk i inp c =
     (let script = hexToBytes (pi_redeemScript inp) in
      if scriptContainsPubkey script pk then c(bytesToHex pk \<mapsto> entry i script) else c)"

lemma sign_proposal_inputs_closed:
  assumes total: "\<And>h. \<exists>sig. sign h priv = Inr sig"
  shows "length sigs = i + length inps \<Longrightarrow>
    sign_proposal_inputs sha256 sign ins outs lt priv pk i inps sigs =
    Inr (map (\<lambda>j. if j < i then sigs ! j else
      add_sig (\<lambda>j script. sig_entry sign priv (legacySighash sha256 ins outs j script lt)) pk j (inps ! (j - i)) (sigs ! j))
      [0..<length sigs])"
proof (induction inps arbitrary: i sigs)
  case Nil
  then show ?case by (auto simp: intro!: nth_equalityI)
next
  case (Cons inp inps)
  let ?add = "add_sig (\<lambda>j script. sig_entry sign priv (legacySighash sha256 ins outs j script lt)) pk"
  let ?sigs = "sigs[i := ?add i inp (sigs ! i)]"
  obtain sig where "sign (legacySighash sha256 ins outs i (hexToBytes (pi_redeemScript inp)) lt) priv = Inr sig"
    using total by blast
  then have "sign_proposal_input sha256 sign ins outs lt priv pk i inp sigs = Inr ?sigs"
    using Cons.prems by (simp add: sign_proposal_input_def add_sig_def sig_entry_def concatBytes_def Let_def)
  moreover have "sign_proposal_inputs sha256 sign ins outs lt priv pk (Suc i) inps ?sigs =
      Inr (map (\<lambda>j. if j < Suc i then ?sigs ! j else ?add j (inps ! (j - Suc i)) (?sigs ! j)) [0..<length ?sigs])"
    using Cons.prems by (intro Cons.IH) simp
  moreover have "(if j < Suc i then ?sigs ! j else ?add j (inps ! (j - Suc i)) (?sigs ! j)) =
      (if j < i then sigs ! j else ?add j ((inp # inps) ! (j - i)) (sigs ! j))" if "j < length sigs" for j
    using that by (cases j i rule: linorder_cases) (simp_all add: nth_Cons')
  ultimately show ?case by (simp cong: map_cong)
qed

lemma signMultisigProposal_closed:
  assumes "\<And>h. \<exists>sig. sign h priv = Inr sig" "length (pr_signatures p) = length (pr_inputs p)"
  shows "signMultisigProposal sha256 sign p priv pk =
    Inr (p\<lparr>pr_signatures := map (\<lambda>j. add_sig (\<lambda>j script. sig_entry sign priv
        (legacySighash sha256 (proposal_ins p) (proposal_outs p) j script (pr_locktime p)))
      pk j (pr_inputs p ! j) (pr_signatures p ! j)) [0..<length (pr_inputs p)]\<rparr>)"
  using sign_proposal_inputs_closed [where sign = sign and priv = priv and i = 0 and sigs = "pr_signatures p"
      and inps = "pr_inputs p", OF assms(1)] assms(2)
  by (simp add: signMultisigProposal_def proposalToTxInputsOutputs_def)

text \<open>The proposal without its signatures.\<close>

definition proposal_tx :: "proposal \<Rightarrow> proposal" where
  "proposal_tx p = p\<lparr>pr_signatures := []\<rparr>"

lemma proposal_tx_same:
  assumes "proposal_tx p = proposal_tx q"
  shows "pr_inputs p = pr_inputs q" "pr_version p = pr_version q" "proposal_sighash sha256 p i = proposal_sighash sha256 q i"
proof -
  have "pr_inputs p = pr_inputs q \<and> pr_outputs p = pr_outputs q \<and> pr_locktime p = pr_locktime q \<and>
      pr_version p = pr_version q"
    using assms by (cases p; cases q) (simp add: proposal_tx_def)
  then show "pr_inputs p = pr_inputs q" "pr_version p = pr_version q" "proposal_sighash sha256 p i = proposal_sighash sha256 q i"
    by (simp_all add: proposal_sighash_def proposal_ins_def proposal_outs_def)
qed

lemma sign_adds:
  assumes sig: "signer_ok keys pubkey sign verify" and k: "k \<in> keys" and p: "proposal_ok sha256 verify p"
  shows "\<exists>p'. signMultisigProposal sha256 sign p (Some k) (pubkey k) = Inr p' \<and>
    proposal_tx p' = proposal_tx p \<and> proposal_ok sha256 verify p' \<and>
    (\<forall>i < length (pr_inputs p).
      (if scriptContainsPubkey (hexToBytes (pi_redeemScript (pr_inputs p ! i))) (pubkey k)
       then \<exists>v. pr_signatures p' ! i = (pr_signatures p ! i)(bytesToHex (pubkey k) \<mapsto> v)
       else pr_signatures p' ! i = pr_signatures p ! i))"
proof -
  have total: "\<exists>sig. sign h (Some k) = Inr sig" for h using sig k by (fastforce simp: signer_ok_def)
  have entry: "sig_entry_ok verify h (bytesToHex (pubkey k)) (sig_entry sign (Some k) h)" for h
  proof -
    obtain sg where "sign h (Some k) = Inr sg" "sig_range sg" "verify h (sig_r sg, sig_s sg) (pubkey k)"
      using sig k by (auto simp: signer_ok_def)
    then show ?thesis
      using sig_valid_der [of sg verify h "pubkey k"] length_derEncodeSignature [of sg]
      by (auto simp: sig_entry_ok_def sig_entry_def intro!: exI [of _ "pubkey k"] exI [of _ "derEncodeSignature sg @ [1]"])
  qed
  define p' where "p' = p\<lparr>pr_signatures := map (\<lambda>j. add_sig (\<lambda>j script. sig_entry sign (Some k)
        (legacySighash sha256 (proposal_ins p) (proposal_outs p) j script (pr_locktime p)))
      (pubkey k) j (pr_inputs p ! j) (pr_signatures p ! j)) [0..<length (pr_inputs p)]\<rparr>"
  have "signMultisigProposal sha256 sign p (Some k) (pubkey k) = Inr p'"
    unfolding p'_def using total p by (intro signMultisigProposal_closed) (auto simp: proposal_ok_def)
  moreover have tx: "proposal_tx p' = proposal_tx p" by (simp add: p'_def proposal_tx_def)
  moreover have "proposal_ok sha256 verify p'"
    using p entry unfolding proposal_ok_def proposal_tx_same [OF tx]
    by (auto simp: p'_def add_sig_def Let_def proposal_sighash_def intro!: sigs_ok_update)
  ultimately show ?thesis by (auto simp: p'_def add_sig_def Let_def)
qed

text \<open>
  C19: a cosigner's call adds exactly one entry, under that cosigner's key, to
  every input whose redeem script contains the key, changes nothing else of the
  proposal, and keeps every collected signature valid for its input.
\<close>

theorem signMultisigProposal_adds:
  assumes sig: "signer_ok keys pubkey sign verify" and k: "k \<in> keys" and p: "proposal_ok sha256 verify p"
  shows "\<exists>p'. signMultisigProposal sha256 sign p (Some k) (pubkey k) = Inr p' \<and>
    proposal_tx p' = proposal_tx p \<and> proposal_ok sha256 verify p' \<and>
    (\<forall>i < length (pr_inputs p).
      (if scriptContainsPubkey (hexToBytes (pi_redeemScript (pr_inputs p ! i))) (pubkey k)
       then \<exists>v. pr_signatures p' ! i = (pr_signatures p ! i)(bytesToHex (pubkey k) \<mapsto> v)
       else pr_signatures p' ! i = pr_signatures p ! i))"
  using sign_adds [OF assms] .

lemma scriptContainsPubkey_redeem:
  assumes "pk \<in> set pks"
  shows "scriptContainsPubkey (redeem m pks) pk"
proof -
  obtain us vs where "pks = us @ pk # vs" using assms by (meson split_list)
  then have "redeem m pks = (word_of_int (0x50 + m) # concat (map small_push us) @ [of_nat (length pk)]) @ pk @
      (concat (map small_push vs) @ [word_of_int (0x50 + int (length pks)), 0xae])"
    by (simp add: redeem_def small_push_def)
  then show ?thesis
    unfolding scriptContainsPubkey_def js_includes_iff by (metis bytesToHex_append)
qed

theorem signMultisigProposal_adds_witness:
  "\<exists>sign p'. signMultisigProposal (\<lambda>x. x) sign
     (createMultisigProposal [\<lparr>mi_txid = [1], mi_vout = 0, mi_value = 5, mi_redeem = redeem 1 [replicate 33 2]\<rparr>] [] 0)
     (Some [7]) (replicate 33 2) = Inr p' \<and>
   pr_signatures p' ! 0 \<noteq> Map.empty"
proof -
  define sign :: signer where "sign h k = Inr \<lparr>sig_r = bytes_num h mod 2 ^ 256, sig_s = 1, sig_recovery = 0\<rparr>" for h k
  define verify :: verifier where "verify h rs pk \<longleftrightarrow> fst rs = bytes_num h mod 2 ^ 256" for h rs pk
  have "signer_ok {[7]} (\<lambda>_. replicate 33 2) sign verify"
    by (simp add: signer_ok_def sign_def verify_def sig_range_def)
  moreover define pk :: bytes where "pk = replicate 33 2"
  moreover define p where "p =
    createMultisigProposal [\<lparr>mi_txid = [1], mi_vout = 0, mi_value = 5, mi_redeem = redeem 1 [pk]\<rparr>] [] 0"
  ultimately obtain p' where p': "signMultisigProposal (\<lambda>x. x) sign p (Some [7]) pk = Inr p'"
    "\<forall>i < length (pr_inputs p).
      (if scriptContainsPubkey (hexToBytes (pi_redeemScript (pr_inputs p ! i))) pk
       then \<exists>v. pr_signatures p' ! i = (pr_signatures p ! i)(bytesToHex pk \<mapsto> v)
       else pr_signatures p' ! i = pr_signatures p ! i)"
    using signMultisigProposal_adds [of "{[7]}" "\<lambda>_. pk" sign verify "[7]" "\<lambda>x. x" p] proposal_ok_create
    by auto
  have "0 < length (pr_inputs p)" "hexToBytes (pi_redeemScript (pr_inputs p ! 0)) = redeem 1 [pk]"
    by (simp_all add: p_def createMultisigProposal_def)
  then have "\<exists>v. pr_signatures p' ! 0 = (pr_signatures p ! 0)(bytesToHex pk \<mapsto> v)"
    using p'(2) scriptContainsPubkey_redeem [of pk "[pk]" 1] by auto
  then have "pr_signatures p' ! 0 \<noteq> Map.empty" by (metis map_upd_nonempty)
  with p'(1) show ?thesis unfolding p_def pk_def by blast
qed

lemma assign_sigs_nth:
  "i < length merged \<Longrightarrow> length other = length merged \<Longrightarrow> assign_sigs merged other ! i = (merged ! i) ++ (other ! i)"
  by (simp add: assign_sigs_def)

lemma length_assign_sigs [simp]: "length (assign_sigs merged other) = length merged"
  by (simp add: assign_sigs_def)

definition merge_step :: "proposal \<Rightarrow> proposal \<Rightarrow> proposal" where
  "merge_step merged q = merged\<lparr>pr_signatures := assign_sigs (pr_signatures merged) (pr_signatures q)\<rparr>"

lemma merge_step_ok:
  assumes "proposal_ok sha256 verify p" "proposal_ok sha256 verify q" "proposal_tx q = proposal_tx p"
  shows "proposal_ok sha256 verify (merge_step p q)" "proposal_tx (merge_step p q) = proposal_tx p"
    "i < length (pr_inputs p) \<Longrightarrow>
      pr_signatures (merge_step p q) ! i = (pr_signatures p ! i) ++ (pr_signatures q ! i)"
proof -
  show tx: "proposal_tx (merge_step p q) = proposal_tx p" by (simp add: merge_step_def proposal_tx_def)
  have len: "length (pr_signatures p) = length (pr_inputs p)" "length (pr_signatures q) = length (pr_inputs p)"
    using assms proposal_tx_same(1) [OF assms(3)] by (auto simp: proposal_ok_def)
  show sg: "pr_signatures (merge_step p q) ! i = (pr_signatures p ! i) ++ (pr_signatures q ! i)"
    if "i < length (pr_inputs p)" for i
    using that len by (simp add: merge_step_def assign_sigs_nth)
  show "proposal_ok sha256 verify (merge_step p q)"
    unfolding proposal_ok_def proposal_tx_same [OF tx]
  proof (intro conjI allI impI)
    show "length (pr_signatures (merge_step p q)) = length (pr_inputs p)" using len by (simp add: merge_step_def)
    fix i assume i: "i < length (pr_inputs p)"
    show "sigs_ok verify (proposal_sighash sha256 p i) (pr_signatures (merge_step p q) ! i)"
      unfolding sg [OF i] using i assms proposal_tx_same [OF assms(3)]
      by (intro sigs_ok_add) (auto simp: proposal_ok_def)
  qed
qed

lemma foldl_merge_ok:
  assumes "proposal_ok sha256 verify p" "\<forall>q \<in> set ps. proposal_ok sha256 verify q \<and> proposal_tx q = proposal_tx p"
  shows "proposal_ok sha256 verify (foldl merge_step p ps) \<and> proposal_tx (foldl merge_step p ps) = proposal_tx p \<and>
    (\<forall>i < length (pr_inputs p). dom (pr_signatures (foldl merge_step p ps) ! i) =
      (\<Union>q \<in> set (p # ps). dom (pr_signatures q ! i)))"
  using assms
proof (induction ps arbitrary: p)
  case (Cons q ps)
  note ms = merge_step_ok [of sha256 verify p q]
  have q: "proposal_ok sha256 verify q" "proposal_tx q = proposal_tx p" using Cons.prems by auto
  have "proposal_ok sha256 verify (merge_step p q)" "proposal_tx (merge_step p q) = proposal_tx p"
    using ms(1,2) Cons.prems(1) q by blast+
  moreover from this have "length (pr_inputs (merge_step p q)) = length (pr_inputs p)"
    using proposal_tx_same(1) by metis
  moreover have "dom (pr_signatures (merge_step p q) ! i) = dom (pr_signatures p ! i) \<union> dom (pr_signatures q ! i)"
    if "i < length (pr_inputs p)" for i
    using ms(3) [OF Cons.prems(1) q that] by auto
  ultimately show ?case using Cons.IH [of "merge_step p q"] Cons.prems(2) by (simp add: Un_assoc)
qed simp

text \<open>
  C20: merging copies of one proposal that were signed independently keeps the
  transaction and has, for every input, a valid signature of each cosigner who
  signed any copy, and of no one else.
\<close>

theorem mergeMultisigProposals_union:
  assumes "proposal_ok sha256 verify p" "\<forall>q \<in> set ps. proposal_ok sha256 verify q \<and> proposal_tx q = proposal_tx p"
  shows "\<exists>r. mergeMultisigProposals (p # ps) = Inr r \<and> proposal_ok sha256 verify r \<and> proposal_tx r = proposal_tx p \<and>
    (\<forall>i < length (pr_inputs p). dom (pr_signatures r ! i) = (\<Union>q \<in> set (p # ps). dom (pr_signatures q ! i)))"
  using foldl_merge_ok [OF assms]
  by (auto simp: mergeMultisigProposals_def merge_step_def [abs_def])

theorem mergeMultisigProposals_union_witness:
  "\<exists>r. mergeMultisigProposals
    [createMultisigProposal [\<lparr>mi_txid = [1], mi_vout = 0, mi_value = 5, mi_redeem = [3]\<rparr>] [] 0,
     createMultisigProposal [\<lparr>mi_txid = [1], mi_vout = 0, mi_value = 5, mi_redeem = [3]\<rparr>] [] 0] = Inr r \<and>
    dom (pr_signatures r ! 0) = {}"
proof -
  let ?p = "createMultisigProposal [\<lparr>mi_txid = [1], mi_vout = 0, mi_value = 5, mi_redeem = [3]\<rparr>] [] 0"
  have "dom (pr_signatures ?p ! 0) = {}" "0 < length (pr_inputs ?p)" by (simp_all add: createMultisigProposal_def)
  then show ?thesis
    using mergeMultisigProposals_union [of "\<lambda>x. x" "\<lambda>_ _ _. True" ?p "[?p]"] proposal_ok_create by fastforce
qed

section \<open>The final transaction\<close>

lemma sighash_norm:
  "legacySighash sha256 (map norm_in xs) outs k sub lt = legacySighash sha256 xs outs k sub lt"
proof -
  have "put_in (blank_in k sub i (norm_in x)) = put_in (blank_in k sub i x)" for i x
    by (simp add: put_in_def blank_in_def norm_in_def in_sequence_def)
  then have "map put_in (map2 (blank_in k sub) [0..<length xs] (map norm_in xs)) =
      map put_in (map2 (blank_in k sub) [0..<length xs] xs)"
    by (intro nth_equalityI) auto
  then show ?thesis by (simp add: legacySighash_def sighash_preimage_def serializeTx_def)
qed

lemma list_emb_take: "list_emb P xs ys \<Longrightarrow> list_emb P (take n xs) ys"
  using list_emb_appendD [of P "take n xs" "drop n xs" ys] by (auto intro: list_emb_prefix)

text \<open>Input \<open>i\<close> spends an \<open>m\<close>-of-\<open>pks\<close> script and enough of the keys have signed.\<close>

definition enough_sigs :: "proposal \<Rightarrow> nat \<Rightarrow> int \<Rightarrow> bytes list \<Rightarrow> bool" where
  "enough_sigs p i m pks \<longleftrightarrow>
     multisig_keys_ok m pks \<and> hexToBytes (pi_redeemScript (pr_inputs p ! i)) = redeem m pks \<and>
     m \<le> int (length (filter (\<lambda>pk. (pr_signatures p ! i) (bytesToHex pk) \<noteq> None) pks))"

definition final_sigs :: "hash_fun \<Rightarrow> verifier \<Rightarrow> proposal \<Rightarrow> nat \<Rightarrow> int \<Rightarrow> bytes list \<Rightarrow> bytes list \<Rightarrow> bool" where
  "final_sigs sha256 verify p i m pks sigs \<longleftrightarrow>
     int (length sigs) = m \<and> list_all (\<lambda>d. length d \<le> 75) sigs \<and>
     list_emb (sig_valid verify (proposal_sighash sha256 p i)) sigs pks"

lemma finalize_input_ok:
  assumes p: "proposal_ok sha256 verify p" and i: "i < length (pr_inputs p)" and e: "enough_sigs p i m pks"
  shows "\<exists>sigs. finalize_input p i (pr_inputs p ! i) = Inr (multisig_scriptSig sigs (redeem m pks)) \<and>
    final_sigs sha256 verify p i m pks sigs"
proof -
  have m: "0 \<le> m" "multisig_keys_ok m pks" "hexToBytes (pi_redeemScript (pr_inputs p ! i)) = redeem m pks"
    using e by (auto simp: enough_sigs_def multisig_keys_ok_def)
  have len: "i < length (pr_signatures p)" "sigs_ok verify (proposal_sighash sha256 p i) (pr_signatures p ! i)"
    using p i by (auto simp: proposal_ok_def)
  obtain sgs where sgs: "collect_sigs (map bytesToHex pks) (pr_signatures p ! i) = map bytesToHex sgs"
    "m \<le> int (length sgs)" "list_emb (sig_valid verify (proposal_sighash sha256 p i)) sgs pks"
    "list_all (\<lambda>d. length d \<le> 75) sgs"
    using collect_sigs_emb [OF len(2), of pks] e by (auto simp: enough_sigs_def)
  have "map hexToBytes (js_slice 0 m (map bytesToHex sgs)) = take (nat m) sgs"
    using js_slice_take [of "nat m" "map bytesToHex sgs"] m(1) by (simp add: take_map o_def)
  then have "finalize_input p i (pr_inputs p ! i) = Inr (multisig_scriptSig (take (nat m) sgs) (redeem m pks))"
    using m len sgs by (simp add: finalize_input_def Let_def script_m_redeem parsePubkeysInOrder_redeem)
  moreover have "final_sigs sha256 verify p i m pks (take (nat m) sgs)"
    using sgs m(1) list_emb_take by (auto simp: final_sigs_def list_all_iff dest: in_set_takeD)
  ultimately show ?thesis by blast
qed

lemma multisig_scriptSig_short:
  assumes "final_sigs sha256 verify p i m pks sigs" "multisig_keys_ok m pks"
  shows "length (multisig_scriptSig sigs (redeem m pks)) < 2 ^ 64"
proof -
  have le: "list_all (\<lambda>d. length d \<le> 75) ds \<Longrightarrow> length (concat (map small_push ds)) \<le> 76 * length ds" for ds
    by (induction ds) (auto simp: small_push_def)
  have "length (concat (map small_push sigs)) \<le> 76 * 16"
    using assms le [of sigs] by (auto simp: final_sigs_def multisig_keys_ok_def)
  moreover have "length (redeem m pks) \<le> 547" "length (varInt (length (redeem m pks))) \<le> 9"
    using assms(2) length_redeem [of m pks] by (auto simp: multisig_keys_ok_def length_varInt)
  ultimately show ?thesis by (simp add: multisig_scriptSig_append small_push_def)
qed

lemma finalize_inputs_ok:
  assumes p: "proposal_ok sha256 verify p" and e: "\<forall>i < length (pr_inputs p). enough_sigs p i (m i) (pks i)"
  shows "\<exists>sigs. mapr (\<lambda>(i, inp). finalize_input p i inp) (zip [0..<length (pr_inputs p)] (pr_inputs p)) =
      Inr (map (\<lambda>i. multisig_scriptSig (sigs i) (redeem (m i) (pks i))) [0..<length (pr_inputs p)]) \<and>
    (\<forall>i < length (pr_inputs p). final_sigs sha256 verify p i (m i) (pks i) (sigs i))"
proof -
  have "\<forall>i. \<exists>sigs. i < length (pr_inputs p) \<longrightarrow>
      finalize_input p i (pr_inputs p ! i) = Inr (multisig_scriptSig sigs (redeem (m i) (pks i))) \<and>
      final_sigs sha256 verify p i (m i) (pks i) sigs"
    using finalize_input_ok [OF p] e by blast
  then obtain sigs where sigs: "\<And>i. i < length (pr_inputs p) \<Longrightarrow>
      finalize_input p i (pr_inputs p ! i) = Inr (multisig_scriptSig (sigs i) (redeem (m i) (pks i))) \<and>
      final_sigs sha256 verify p i (m i) (pks i) (sigs i)" by metis
  have "mapr (\<lambda>(i, inp). finalize_input p i inp) (zip [0..<length (pr_inputs p)] (pr_inputs p)) =
      Inr (map (\<lambda>(i, inp). multisig_scriptSig (sigs i) (redeem (m i) (pks i)))
        (zip [0..<length (pr_inputs p)] (pr_inputs p)))"
    using sigs by (intro mapr_total) (auto simp: set_zip)
  also have "map (\<lambda>(i, inp). multisig_scriptSig (sigs i) (redeem (m i) (pks i)))
        (zip [0..<length (pr_inputs p)] (pr_inputs p)) =
      map (\<lambda>i. multisig_scriptSig (sigs i) (redeem (m i) (pks i))) [0..<length (pr_inputs p)]"
    by (intro nth_equalityI) auto
  finally show ?thesis using sigs by blast
qed

text \<open>The transaction that comes out, once every input has enough signatures.\<close>

lemma finalizeMultisigTransaction_parses:
  assumes p: "proposal_ok sha256 verify p" and v: "pr_version p = 2"
    and wf: "wf_tx 2 (proposal_ins p) (proposal_outs p) (pr_locktime p)"
    and e: "\<forall>i < length (pr_inputs p). enough_sigs p i (m i) (pks i)"
  shows "\<exists>raw t sigs. finalizeMultisigTransaction p = Inr raw \<and> get_tx raw = Some (t, []) \<and>
    map outpoint (tx_ins t) = map outpoint (proposal_ins p) \<and> tx_outs t = proposal_outs p \<and>
    (\<forall>i < length (pr_inputs p). final_sigs sha256 verify p i (m i) (pks i) (sigs i) \<and>
      scriptSig (tx_ins t ! i) = multisig_scriptSig (sigs i) (redeem (m i) (pks i)) \<and>
      legacySighash sha256 (tx_ins t) (tx_outs t) i (redeem (m i) (pks i)) (tx_locktime t) = proposal_sighash sha256 p i)"
proof -
  let ?n = "length (pr_inputs p)"
  obtain sigs where s: "mapr (\<lambda>(i, inp). finalize_input p i inp) (zip [0..<?n] (pr_inputs p)) =
      Inr (map (\<lambda>i. multisig_scriptSig (sigs i) (redeem (m i) (pks i))) [0..<?n])"
    "\<And>i. i < ?n \<Longrightarrow> final_sigs sha256 verify p i (m i) (pks i) (sigs i)"
    using finalize_inputs_ok [OF p e] by blast
  define xs where "xs = map2 (\<lambda>x s. x\<lparr>scriptSig := s\<rparr>) (proposal_ins p)
      (map (\<lambda>i. multisig_scriptSig (sigs i) (redeem (m i) (pks i))) [0..<?n])"
  have len: "length (proposal_ins p) = ?n" "length xs = ?n" by (simp_all add: proposal_ins_def xs_def)
  have nth: "xs ! i = (proposal_ins p ! i)\<lparr>scriptSig := multisig_scriptSig (sigs i) (redeem (m i) (pks i))\<rparr>"
    if "i < ?n" for i using that len by (simp add: xs_def)
  have un: "map unscript xs = map unscript (proposal_ins p)"
    using nth len by (intro nth_equalityI) auto
  have out: "map outpoint (map norm_in xs) = map outpoint (proposal_ins p)"
    using nth len by (intro nth_equalityI) (auto simp: outpoint_def norm_in_def in_sequence_def)
  have short: "length (multisig_scriptSig (sigs i) (redeem (m i) (pks i))) < 2 ^ 64" if "i < ?n" for i
    using multisig_scriptSig_short [OF s(2) [OF that]] e that by (auto simp: enough_sigs_def)
  have "wf_tx 2 xs (proposal_outs p) (pr_locktime p)"
    using wf short nth len by (simp add: wf_tx_def list_all_length wf_in_def in_sequence_def)
  from get_tx_serializeTx [OF this, of "[]"] have
    "get_tx (serializeTx 2 xs (proposal_outs p) (pr_locktime p)) = Some (\<lparr>tx_version = 2, tx_ins = map norm_in xs,
      tx_outs = proposal_outs p, tx_locktime = pr_locktime p\<rparr>, [])" by simp
  moreover have "finalizeMultisigTransaction p = Inr (serializeTx 2 xs (proposal_outs p) (pr_locktime p))"
    using s(1) v by (simp add: finalizeMultisigTransaction_def proposalToTxInputsOutputs_def xs_def)
  moreover have "scriptSig (map norm_in xs ! i) = multisig_scriptSig (sigs i) (redeem (m i) (pks i))" if "i < ?n" for i
    using nth [OF that] that len by (simp add: norm_in_def)
  moreover have "legacySighash sha256 (map norm_in xs) (proposal_outs p) i (redeem (m i) (pks i)) (pr_locktime p) =
      proposal_sighash sha256 p i" if "i < ?n" for i
    using sighash_unscript [OF un] e that by (simp add: sighash_norm proposal_sighash_def enough_sigs_def)
  ultimately show ?thesis
    using out s(2)
    by (intro exI [of _ "serializeTx 2 xs (proposal_outs p) (pr_locktime p)"] exI [of _ "\<lparr>tx_version = 2,
      tx_ins = map norm_in xs, tx_outs = proposal_outs p, tx_locktime = pr_locktime p\<rparr>"] exI [of _ sigs]) simp
qed

text \<open>A proposal with one input and one signature, for the examples.\<close>

definition example_proposal :: "bytes list \<Rightarrow> bytes \<Rightarrow> signature \<Rightarrow> proposal" where
  "example_proposal pks pk sig =
     (createMultisigProposal [\<lparr>mi_txid = replicate 32 1, mi_vout = 0, mi_value = 5, mi_redeem = redeem 1 pks\<rparr>]
       [\<lparr>scriptPubKey = [6], valueSatoshis = 4\<rparr>] 0)
     \<lparr>pr_signatures := [[bytesToHex pk \<mapsto> bytesToHex (derEncodeSignature sig @ [0x01])]]\<rparr>"

lemma example_proposal_inputs:
  "pr_inputs (example_proposal pks pk sig) =
     [\<lparr>pi_txid = bytesToHex (replicate 32 1), pi_vout = 0, pi_value = 5, pi_redeemScript = bytesToHex (redeem 1 pks)\<rparr>]"
  "pr_signatures (example_proposal pks pk sig) = [[bytesToHex pk \<mapsto> bytesToHex (derEncodeSignature sig @ [0x01])]]"
  by (simp_all add: example_proposal_def createMultisigProposal_def)

lemma example_proposal_ok:
  assumes "multisig_keys_ok 1 pks" "pk \<in> set pks" "sig_range sig"
  shows "proposal_ok sha256 (\<lambda>_ rs _. rs = (sig_r sig, sig_s sig)) (example_proposal pks pk sig)"
    "pr_version (example_proposal pks pk sig) = 2"
    "wf_tx 2 (proposal_ins (example_proposal pks pk sig)) (proposal_outs (example_proposal pks pk sig))
      (pr_locktime (example_proposal pks pk sig))"
    "\<forall>i < length (pr_inputs (example_proposal pks pk sig)). enough_sigs (example_proposal pks pk sig) i 1 pks"
proof -
  have entry: "sig_entry_ok (\<lambda>_ rs _. rs = (sig_r sig, sig_s sig)) h (bytesToHex pk)
      (bytesToHex (derEncodeSignature sig @ [0x01]))" for h
    using sig_valid_der [OF assms(3), of "\<lambda>_ rs _. rs = (sig_r sig, sig_s sig)" h pk]
      length_derEncodeSignature [OF assms(3)] unfolding sig_entry_ok_def
    by (intro exI [of _ pk] exI [of _ "derEncodeSignature sig @ [0x01]"]) simp
  show "proposal_ok sha256 (\<lambda>_ rs _. rs = (sig_r sig, sig_s sig)) (example_proposal pks pk sig)"
    unfolding proposal_ok_def example_proposal_inputs using entry by (simp add: sigs_ok_def)
  show "pr_version (example_proposal pks pk sig) = 2"
    by (simp add: example_proposal_def createMultisigProposal_def)
  show "wf_tx 2 (proposal_ins (example_proposal pks pk sig)) (proposal_outs (example_proposal pks pk sig))
      (pr_locktime (example_proposal pks pk sig))"
    unfolding wf_tx_def proposal_ins_def proposal_outs_def example_proposal_inputs
    by (simp add: example_proposal_def createMultisigProposal_def wf_in_def wf_out_def in_sequence_def)
  have "filter (\<lambda>k. [bytesToHex pk \<mapsto> bytesToHex (derEncodeSignature sig @ [0x01])] (bytesToHex k) \<noteq> None) pks \<noteq> []"
    using assms(2) by (auto simp: filter_empty_conv)
  then show "\<forall>i < length (pr_inputs (example_proposal pks pk sig)). enough_sigs (example_proposal pks pk sig) i 1 pks"
    using assms(1) unfolding enough_sigs_def example_proposal_inputs
    by (simp add: Suc_le_eq)
qed

lemma finalize_valid:
  assumes "proposal_ok sha256 verify p" "pr_version p = 2"
    "wf_tx 2 (proposal_ins p) (proposal_outs p) (pr_locktime p)"
    "\<forall>i < length (pr_inputs p). enough_sigs p i (m i) (pks i) \<and> length (pks i) \<le> 2"
  shows "\<exists>raw t. finalizeMultisigTransaction p = Inr raw \<and> get_tx raw = Some (t, []) \<and>
    map outpoint (tx_ins t) = map outpoint (proposal_ins p) \<and> tx_outs t = proposal_outs p \<and>
    (\<forall>i < length (pr_inputs p). multisig_spend_ok sha256 verify t i (m i) (pks i))"
proof -
  have e: "\<forall>i < length (pr_inputs p). enough_sigs p i (m i) (pks i)" using assms(4) by blast
  obtain raw t sigs where t: "finalizeMultisigTransaction p = Inr raw" "get_tx raw = Some (t, [])"
    "map outpoint (tx_ins t) = map outpoint (proposal_ins p)" "tx_outs t = proposal_outs p"
    "\<forall>i < length (pr_inputs p). final_sigs sha256 verify p i (m i) (pks i) (sigs i) \<and>
      scriptSig (tx_ins t ! i) = multisig_scriptSig (sigs i) (redeem (m i) (pks i)) \<and>
      legacySighash sha256 (tx_ins t) (tx_outs t) i (redeem (m i) (pks i)) (tx_locktime t) = proposal_sighash sha256 p i"
    using finalizeMultisigTransaction_parses [OF assms(1-3) e] by blast
  have "multisig_spend_ok sha256 verify t i (m i) (pks i)" if i: "i < length (pr_inputs p)" for i
  proof -
    have "length (redeem (m i) (pks i)) \<le> 75"
      using assms(4) i length_redeem [of "m i" "pks i"] by (auto simp: enough_sigs_def)
    with t(5) i show ?thesis
      by (auto simp: multisig_spend_ok_def final_sigs_def intro!: exI [of _ "sigs i"] multisig_scriptSig_pushes)
  qed
  with t(1-4) show ?thesis by blast
qed

text \<open>
  C5: once every input has the signatures its redeem script asks for, and the
  script has at most two keys, the finalised transaction parses to the proposed
  outpoints and outputs and every input passes the node's multi-signature check.
\<close>

theorem finalizeMultisigTransaction_valid:
  assumes "proposal_ok sha256 verify p" "pr_version p = 2"
    "wf_tx 2 (proposal_ins p) (proposal_outs p) (pr_locktime p)"
    "\<forall>i < length (pr_inputs p). enough_sigs p i (m i) (pks i) \<and> length (pks i) \<le> 2"
  shows "\<exists>raw t. finalizeMultisigTransaction p = Inr raw \<and> get_tx raw = Some (t, []) \<and>
    map outpoint (tx_ins t) = map outpoint (proposal_ins p) \<and> tx_outs t = proposal_outs p \<and>
    (\<forall>i < length (pr_inputs p). multisig_spend_ok sha256 verify t i (m i) (pks i))"
  using finalize_valid [OF assms] .

theorem finalizeMultisigTransaction_valid_witness:
  "\<exists>raw t. finalizeMultisigTransaction (example_proposal [replicate 33 2, replicate 33 3] (replicate 33 3)
      \<lparr>sig_r = 1, sig_s = 1, sig_recovery = 0\<rparr>) = Inr raw \<and> get_tx raw = Some (t, []) \<and>
    multisig_spend_ok (\<lambda>x. x) (\<lambda>_ rs _. rs = (1, 1)) t 0 1 [replicate 33 2, replicate 33 3]"
proof -
  define pks :: "bytes list" where "pks = [replicate 33 2, replicate 33 3]"
  define pk :: bytes where "pk = replicate 33 3"
  define sig where "sig = \<lparr>sig_r = 1, sig_s = 1, sig_recovery = 0\<rparr>"
  have *: "multisig_keys_ok 1 pks" "pk \<in> set pks" "sig_range sig"
    by (simp_all add: multisig_keys_ok_def pks_def pk_def sig_def sig_range_def)
  have "\<exists>raw t. finalizeMultisigTransaction (example_proposal pks pk sig) = Inr raw \<and> get_tx raw = Some (t, []) \<and>
      multisig_spend_ok (\<lambda>x. x) (\<lambda>_ rs _. rs = (sig_r sig, sig_s sig)) t 0 1 pks"
    using finalizeMultisigTransaction_valid [OF example_proposal_ok(1-3) [OF *], where m = "\<lambda>_. 1" and pks = "\<lambda>_. pks"]
      example_proposal_ok(4) [OF *]
    by (fastforce simp: example_proposal_inputs pks_def)
  then show ?thesis unfolding pks_def pk_def sig_def by simp
qed

text \<open>
  C22: with three to sixteen keys the same steps succeed, and the transaction
  parses, but its input scripts cannot be read as data pushes: the redeem script
  is longer than 75 bytes and is preceded by a length in the format of the
  transaction encoding instead of \<open>OP_PUSHDATA1\<close> or \<open>OP_PUSHDATA2\<close>.
\<close>

theorem finalizeMultisigTransaction_unspendable:
  assumes "proposal_ok sha256 verify p" "pr_version p = 2"
    "wf_tx 2 (proposal_ins p) (proposal_outs p) (pr_locktime p)"
    "\<forall>i < length (pr_inputs p). enough_sigs p i (m i) (pks i) \<and> 3 \<le> length (pks i)"
  shows "\<exists>raw t. finalizeMultisigTransaction p = Inr raw \<and> get_tx raw = Some (t, []) \<and>
    (\<forall>i < length (pr_inputs p). pushes (scriptSig (tx_ins t ! i)) = None)"
proof -
  have e: "\<forall>i < length (pr_inputs p). enough_sigs p i (m i) (pks i)" using assms(4) by blast
  obtain raw t sigs where t: "finalizeMultisigTransaction p = Inr raw" "get_tx raw = Some (t, [])"
    "\<forall>i < length (pr_inputs p). final_sigs sha256 verify p i (m i) (pks i) (sigs i) \<and>
      scriptSig (tx_ins t ! i) = multisig_scriptSig (sigs i) (redeem (m i) (pks i))"
    using finalizeMultisigTransaction_parses [OF assms(1-3) e] by blast
  have "pushes (scriptSig (tx_ins t ! i)) = None" if i: "i < length (pr_inputs p)" for i
  proof -
    have "77 < length (redeem (m i) (pks i))" "length (redeem (m i) (pks i)) < 2 ^ 16"
      using assms(4) i length_redeem [of "m i" "pks i"] by (auto simp: enough_sigs_def multisig_keys_ok_def)
    with t(3) i show ?thesis by (simp add: final_sigs_def multisig_scriptSig_no_pushes)
  qed
  with t show ?thesis by blast
qed

theorem finalizeMultisigTransaction_unspendable_witness:
  "\<exists>raw t. finalizeMultisigTransaction (example_proposal [replicate 33 2, replicate 33 3, replicate 33 4]
      (replicate 33 3) \<lparr>sig_r = 1, sig_s = 1, sig_recovery = 0\<rparr>) = Inr raw \<and> get_tx raw = Some (t, []) \<and>
    pushes (scriptSig (tx_ins t ! 0)) = None"
proof -
  define pks :: "bytes list" where "pks = [replicate 33 2, replicate 33 3, replicate 33 4]"
  define pk :: bytes where "pk = replicate 33 3"
  define sig where "sig = \<lparr>sig_r = 1, sig_s = 1, sig_recovery = 0\<rparr>"
  have *: "multisig_keys_ok 1 pks" "pk \<in> set pks" "sig_range sig"
    by (simp_all add: multisig_keys_ok_def pks_def pk_def sig_def sig_range_def)
  have "\<exists>raw t. finalizeMultisigTransaction (example_proposal pks pk sig) = Inr raw \<and> get_tx raw = Some (t, []) \<and>
      pushes (scriptSig (tx_ins t ! 0)) = None"
    using finalizeMultisigTransaction_unspendable [OF example_proposal_ok(1-3) [OF *],
        where m = "\<lambda>_. 1" and pks = "\<lambda>_. pks"]
      example_proposal_ok(4) [OF *]
    by (fastforce simp: example_proposal_inputs pks_def)
  then show ?thesis unfolding pks_def pk_def sig_def by simp
qed

end
