(* ===== verification/BumpFee.thy ===== *)
theory BumpFee
  imports Tx_Sign
begin

text \<open>
  Replacing a sent transaction by one with a higher fee
  (\<open>buildBumpFeeTransaction\<close> in \<open>crypto.js\<close>): same inputs, same payments, and
  the increase taken out of the change output.
\<close>

section \<open>The record of a sent transaction\<close>

record sent_in =
  si_txid :: string
  si_vout :: int
  si_value :: int
  si_derivationIndex :: int

record sent_out =
  so_scriptPubKeyHex :: string
  so_value :: int
  so_isChange :: bool
  so_changeIndex :: "int option"

record sent_record =
  sr_inputs :: "sent_in list"
  sr_outputs :: "sent_out list"
  sr_fee :: int
  sr_replaces :: "string option"

record key_pair =
  kp_private :: bytes
  kp_public :: bytes

section \<open>Building the replacement\<close>

fun find_change :: "nat \<Rightarrow> sent_out list \<Rightarrow> nat option" where
  "find_change i [] = None"
| "find_change i (out # outs) = (if so_isChange out then Some i else find_change (Suc i) outs)"

definition bump_input :: "hash_fun \<Rightarrow> hash_fun \<Rightarrow> key_pair list \<Rightarrow> nat \<Rightarrow> sent_in \<Rightarrow> utxo_in result" where
  "bump_input sha256 ripemd160 inputKeys i inp =
     (if i < length inputKeys then
        let k = inputKeys ! i in
        Inr \<lparr>u_txid = rev (hexToBytes (si_txid inp)), u_vout = si_vout inp, u_value = si_value inp,
          u_pubkeyHash = hash160 sha256 ripemd160 (kp_public k),
          u_privateKey = Some (kp_private k), u_publicKey = Some (kp_public k), u_sequence = None\<rparr>
      else Inl TypeError)"

definition set_change :: "nat \<Rightarrow> int \<Rightarrow> sent_out list \<Rightarrow> sent_out list" where
  "set_change k v outs =
     map2 (\<lambda>i out. if i = k then out\<lparr>so_value := v\<rparr> else out) [0..<length outs] outs"

definition bump_output :: "nat \<Rightarrow> int \<Rightarrow> nat \<Rightarrow> sent_out \<Rightarrow> tx_out" where
  "bump_output k v i out =
     \<lparr>scriptPubKey = hexToBytes (so_scriptPubKeyHex out), valueSatoshis = (if i = k then v else so_value out)\<rparr>"

definition buildBumpFeeTransaction ::
  "hash_fun \<Rightarrow> hash_fun \<Rightarrow> signer \<Rightarrow> sent_record \<Rightarrow> int \<Rightarrow> key_pair list \<Rightarrow> (bytes \<times> sent_out list) result" where
  "buildBumpFeeTransaction sha256 ripemd160 sign rcd newFeeSatoshis inputKeys =
     (case find_change 0 (sr_outputs rcd) of
        None \<Rightarrow> Inl (Error ''This transaction has no change output to reduce -- can't bump its fee automatically here.'')
      | Some changeOutputIndex \<Rightarrow>
          let feeIncrease = newFeeSatoshis - sr_fee rcd;
              changeOutput = sr_outputs rcd ! changeOutputIndex;
              newChangeValue = so_value changeOutput - feeIncrease
          in if newChangeValue \<le> 0 then Inl (Error ''Not enough change left to cover a higher fee.'')
             else
               bindr (mapr (\<lambda>(i, inp). bump_input sha256 ripemd160 inputKeys i inp)
                        (zip [0..<length (sr_inputs rcd)] (sr_inputs rcd))) (\<lambda>inputs.
               let outputs = map2 (bump_output changeOutputIndex newChangeValue)
                               [0..<length (sr_outputs rcd)] (sr_outputs rcd)
               in bindr (buildAndSignTransaction sha256 sign inputs outputs None None 0) (\<lambda>rawTx.
                    Inr (rawTx, set_change changeOutputIndex newChangeValue (sr_outputs rcd)))))"

section \<open>The change output\<close>

lemma find_change_Some:
  "find_change i outs = Some k \<Longrightarrow> i \<le> k \<and> k < i + length outs \<and> so_isChange (outs ! (k - i)) \<and>
     (\<forall>j < k - i. \<not> so_isChange (outs ! j))"
proof (induction outs arbitrary: i)
  case (Cons out outs)
  show ?case
  proof (cases "so_isChange out")
    case False
    with Cons.prems have "find_change (Suc i) outs = Some k" by simp
    from Cons.IH [OF this] False show ?thesis
      by (auto simp: nth_Cons' Suc_diff_Suc [symmetric] less_Suc_eq_0_disj)
  qed (use Cons.prems in auto)
qed simp

lemma find_change_None: "find_change i outs = None \<longleftrightarrow> (\<forall>out \<in> set outs. \<not> so_isChange out)"
  by (induction outs arbitrary: i) auto

lemma set_change_update: "k < length outs \<Longrightarrow> set_change k v outs = outs[k := (outs ! k)\<lparr>so_value := v\<rparr>]"
  by (auto simp: set_change_def nth_list_update intro!: nth_equalityI)

lemma sum_list_update_value:
  "k < length outs \<Longrightarrow>
     sum_list (map so_value (outs[k := (outs ! k)\<lparr>so_value := v\<rparr>])) = sum_list (map so_value outs) - so_value (outs ! k) + v"
proof (induction outs arbitrary: k)
  case (Cons out outs)
  then show ?case by (cases k) auto
qed simp

section \<open>What the replacement pays\<close>

definition sent_tx_out :: "sent_out \<Rightarrow> tx_out" where
  "sent_tx_out out = \<lparr>scriptPubKey = hexToBytes (so_scriptPubKeyHex out), valueSatoshis = so_value out\<rparr>"

definition sent_outpoint :: "sent_in \<Rightarrow> bytes \<times> int \<times> int" where
  "sent_outpoint inp = (rev (hexToBytes (si_txid inp)), si_vout inp, 0xfffffffd)"

definition bumped_in :: "hash_fun \<Rightarrow> hash_fun \<Rightarrow> key_pair \<Rightarrow> sent_in \<Rightarrow> utxo_in" where
  "bumped_in sha256 ripemd160 k inp =
     \<lparr>u_txid = rev (hexToBytes (si_txid inp)), u_vout = si_vout inp, u_value = si_value inp,
      u_pubkeyHash = hash160 sha256 ripemd160 (kp_public k),
      u_privateKey = Some (kp_private k), u_publicKey = Some (kp_public k), u_sequence = None\<rparr>"

lemma bump_inputs_total:
  assumes "length inputKeys = length ins"
  shows "mapr (\<lambda>(i, inp). bump_input sha256 ripemd160 inputKeys i inp) (zip [0..<length ins] ins) =
    Inr (map2 (bumped_in sha256 ripemd160) inputKeys ins)"
proof -
  have "mapr (\<lambda>(i, inp). bump_input sha256 ripemd160 inputKeys i inp) (zip [0..<length ins] ins) =
      Inr (map (\<lambda>(i, inp). bumped_in sha256 ripemd160 (inputKeys ! i) inp) (zip [0..<length ins] ins))"
    using assms by (intro mapr_total) (auto simp: bump_input_def bumped_in_def set_zip Let_def)
  also have "map (\<lambda>(i, inp). bumped_in sha256 ripemd160 (inputKeys ! i) inp) (zip [0..<length ins] ins) =
      map2 (bumped_in sha256 ripemd160) inputKeys ins"
    using assms by (intro nth_equalityI) auto
  finally show ?thesis .
qed

lemma bump_outputs:
  "k < length outs \<Longrightarrow>
    map2 (bump_output k v) [0..<length outs] outs = map sent_tx_out (outs[k := (outs ! k)\<lparr>so_value := v\<rparr>])"
  by (auto simp: bump_output_def sent_tx_out_def nth_list_update intro!: nth_equalityI)

text \<open>The keys given for the inputs are valid pairs, and the recorded data fit the wire format.\<close>

definition bumpable :: "bytes set \<Rightarrow> (bytes \<Rightarrow> bytes) \<Rightarrow> sent_record \<Rightarrow> key_pair list \<Rightarrow> bool" where
  "bumpable keys pubkey rcd ks \<longleftrightarrow>
     sr_inputs rcd \<noteq> [] \<and> length ks = length (sr_inputs rcd) \<and> length (sr_inputs rcd) < 2 ^ 64 \<and>
     length (sr_outputs rcd) < 2 ^ 64 \<and>
     list_all (\<lambda>k. kp_private k \<in> keys \<and> kp_public k = pubkey (kp_private k)) ks \<and>
     list_all (\<lambda>inp. length (si_txid inp) = 64 \<and> 0 \<le> si_vout inp \<and> si_vout inp < 2 ^ 32) (sr_inputs rcd) \<and>
     list_all (\<lambda>out. length (so_scriptPubKeyHex out) < 2 ^ 64 \<and> 0 \<le> so_value out \<and> so_value out < 2 ^ 62) (sr_outputs rcd)"

lemma bumpable_wf:
  assumes "bumpable keys pubkey rcd ks" "k < length (sr_outputs rcd)" "0 \<le> v" "v < 2 ^ 62"
  shows "wf_tx 2 (map unsigned_in (map2 (bumped_in sha256 ripemd160) ks (sr_inputs rcd)))
    (map sent_tx_out ((sr_outputs rcd)[k := (sr_outputs rcd ! k)\<lparr>so_value := v\<rparr>])) 0"
proof -
  have "list_all wf_in (map unsigned_in (map2 (bumped_in sha256 ripemd160) ks (sr_inputs rcd)))"
    using assms(1)
    by (auto simp: bumpable_def list_all_length wf_in_def unsigned_in_def bumped_in_def in_sequence_def)
  moreover have "list_all wf_out (map sent_tx_out ((sr_outputs rcd)[k := (sr_outputs rcd ! k)\<lparr>so_value := v\<rparr>]))"
  proof -
    have "wf_out (sent_tx_out (((sr_outputs rcd)[k := (sr_outputs rcd ! k)\<lparr>so_value := v\<rparr>]) ! i))"
      if "i < length (sr_outputs rcd)" for i
    proof -
      have "length (so_scriptPubKeyHex (sr_outputs rcd ! i)) < 2 ^ 64" "0 \<le> so_value (sr_outputs rcd ! i)"
        "so_value (sr_outputs rcd ! i) < 2 ^ 62"
        using assms(1) that by (auto simp: bumpable_def list_all_length)
      with assms(3,4) that show ?thesis
        by (cases "i = k") (auto simp: wf_out_def sent_tx_out_def)
    qed
    then show ?thesis by (simp add: list_all_length)
  qed
  ultimately show ?thesis using assms(1) by (simp add: wf_tx_def bumpable_def)
qed

lemma bumpable_has_key:
  assumes "bumpable keys pubkey rcd ks"
  shows "\<forall>u \<in> set (map2 (bumped_in sha256 ripemd160) ks (sr_inputs rcd)).
    has_key sha256 ripemd160 pubkey keys None None u"
  using assms by (auto simp: bumpable_def list_all_iff has_key_def bumped_in_def or_else_def dest: set_zip_leftD)






end
