(* ===== verification/Js_Number.thy ===== *)
theory Js_Number
  imports Prelude "HOL-Library.Log_Nat"
begin

text \<open>
  JavaScript numbers as the wallet uses them: binary64 values with rounding to
  nearest even, \<open>parseFloat\<close>, \<open>Math.round\<close>, and the conversions between
  \<open>Number\<close> and \<open>BigInt\<close>. Finite values are exact rationals; the sign of zero is
  not kept, the program never observes it.
\<close>

section \<open>Rounding to binary64\<close>

datatype jsnum = NaN | Infinity bool | Fin rat

definition pow2 :: "int \<Rightarrow> rat" where
  "pow2 k = (if 0 \<le> k then 2 ^ nat k else 1 / 2 ^ nat (- k))"

definition ilog2 :: "rat \<Rightarrow> int" where
  "ilog2 x =
     (let (p, q) = quotient_of x; k = int (floorlog 2 (nat p)) - int (floorlog 2 (nat q))
      in if pow2 k \<le> x then k else k - 1)"

definition round_half_even :: "rat \<Rightarrow> int" where
  "round_half_even x =
     (let f = \<lfloor>x\<rfloor>; d = x - of_int f
      in if d < 1 / 2 then f else if 1 / 2 < d then f + 1 else if even f then f else f + 1)"

text \<open>The nearest multiple of the unit in the last place; -1074 is the subnormal unit.\<close>

definition round_double :: "rat \<Rightarrow> jsnum" where
  "round_double x =
     (if x = 0 then Fin 0
      else
        let u = max (ilog2 \<bar>x\<bar> - 52) (- 1074);
            r = of_int (round_half_even (\<bar>x\<bar> / pow2 u)) * pow2 u
        in if pow2 1024 \<le> r then Infinity (0 < x) else Fin (if 0 < x then r else - r))"

section \<open>Operations\<close>

fun js_neg :: "jsnum \<Rightarrow> jsnum" where
  "js_neg NaN = NaN"
| "js_neg (Infinity s) = Infinity (\<not> s)"
| "js_neg (Fin x) = Fin (- x)"

fun js_mul :: "jsnum \<Rightarrow> jsnum \<Rightarrow> jsnum" where
  "js_mul (Fin x) (Fin y) = round_double (x * y)"
| "js_mul (Infinity s) (Fin y) = (if y = 0 then NaN else Infinity (s = (0 < y)))"
| "js_mul (Fin x) (Infinity s) = (if x = 0 then NaN else Infinity (s = (0 < x)))"
| "js_mul (Infinity s) (Infinity t) = Infinity (s = t)"
| "js_mul _ _ = NaN"

fun js_div :: "jsnum \<Rightarrow> jsnum \<Rightarrow> jsnum" where
  "js_div (Fin x) (Fin y) = (if y = 0 then if x = 0 then NaN else Infinity (0 < x) else round_double (x / y))"
| "js_div (Infinity s) (Fin y) = Infinity (s = (0 \<le> y))"
| "js_div (Fin x) (Infinity s) = Fin 0"
| "js_div _ _ = NaN"

text \<open>\<open>Math.round\<close>: the nearest integer, halves upwards.\<close>

fun math_round :: "jsnum \<Rightarrow> jsnum" where
  "math_round (Fin x) = Fin (of_int \<lfloor>x + 1 / 2\<rfloor>)"
| "math_round n = n"

fun js_less :: "jsnum \<Rightarrow> jsnum \<Rightarrow> bool" where
  "js_less (Fin x) (Fin y) = (x < y)"
| "js_less (Infinity s) (Fin y) = (\<not> s)"
| "js_less (Fin x) (Infinity s) = s"
| "js_less (Infinity s) (Infinity t) = (\<not> s \<and> t)"
| "js_less _ _ = False"

definition js_less_eq :: "jsnum \<Rightarrow> jsnum \<Rightarrow> bool" where
  "js_less_eq a b = (a \<noteq> NaN \<and> b \<noteq> NaN \<and> \<not> js_less b a)"

definition js_truthy_num :: "jsnum \<Rightarrow> bool" where
  "js_truthy_num n = (n \<noteq> NaN \<and> n \<noteq> Fin 0)"

text \<open>\<open>BigInt(n)\<close> throws unless the number is an integer; \<open>Number(b)\<close> rounds.\<close>

fun js_BigInt :: "jsnum \<Rightarrow> int result" where
  "js_BigInt (Fin x) = (if of_int \<lfloor>x\<rfloor> = x then Inr \<lfloor>x\<rfloor> else Inl RangeError)"
| "js_BigInt _ = Inl RangeError"

definition js_Number :: "int \<Rightarrow> jsnum" where
  "js_Number n = round_double (of_int n)"

section \<open>Reading decimals\<close>

text \<open>A digit run, its remainder, and the exponent part behind \<open>e\<close> when it has digits.\<close>

definition dec_digit :: "char \<Rightarrow> bool" where
  "dec_digit c = (case digit_val c of None \<Rightarrow> False | Some d \<Rightarrow> d < 10)"

definition dec_val :: "string \<Rightarrow> int" where
  "dec_val s = from_base 10 (map (\<lambda>c. case digit_val c of None \<Rightarrow> 0 | Some d \<Rightarrow> d) s)"

definition parse_sign :: "string \<Rightarrow> bool \<times> string" where
  "parse_sign s =
     (case s of [] \<Rightarrow> (True, s)
      | c # r \<Rightarrow> if c = CHR ''-'' then (False, r) else if c = CHR ''+'' then (True, r) else (True, s))"

definition parse_exponent :: "string \<Rightarrow> int" where
  "parse_exponent s =
     (case s of [] \<Rightarrow> 0
      | c # r \<Rightarrow>
          if c = CHR ''e'' \<or> c = CHR ''E'' then
            let (pos, r') = parse_sign r; ds = takeWhile dec_digit r'
            in if pos then dec_val ds else - dec_val ds
          else 0)"

definition pow10 :: "int \<Rightarrow> rat" where
  "pow10 k = (if 0 \<le> k then 10 ^ nat k else 1 / 10 ^ nat (- k))"

text \<open>The value of the longest decimal prefix; \<open>None\<close> when there is none.\<close>

definition parse_decimal :: "string \<Rightarrow> rat option" where
  "parse_decimal s =
     (let ip = takeWhile dec_digit s;
          r = dropWhile dec_digit s;
          (fp, r') = (case r of [] \<Rightarrow> ([], r)
            | c # q \<Rightarrow> if c = CHR ''.'' then (takeWhile dec_digit q, dropWhile dec_digit q) else ([], r))
      in if ip = [] \<and> fp = [] then None
         else Some (of_int (dec_val (ip @ fp)) * pow10 (parse_exponent r' - int (length fp))))"

definition js_parseFloat :: "string \<Rightarrow> jsnum" where
  "js_parseFloat s =
     (let (pos, r) = parse_sign (js_trim_start s) in
      if js_startsWith r ''Infinity'' then Infinity pos
      else case parse_decimal r of None \<Rightarrow> NaN
        | Some v \<Rightarrow> if pos then round_double v else js_neg (round_double v))"

section \<open>Powers of two and the binary exponent\<close>

lemma pow2_powi: "pow2 k = 2 powi k"
  by (simp add: pow2_def power_int_def field_simps)

lemma pow2_pos [simp]: "0 < pow2 k"
  by (simp add: pow2_powi)

lemma pow2_nonzero [simp]: "pow2 k \<noteq> 0"
  by (metis less_irrefl pow2_pos)

lemma pow2_nonneg [simp]: "0 \<le> pow2 k"
  by (rule less_imp_le) simp

lemma pow2_add: "pow2 (j + k) = pow2 j * pow2 k"
  by (simp add: pow2_powi power_int_add)

lemma pow2_mono: "j \<le> k \<Longrightarrow> pow2 j \<le> pow2 k"
  by (simp add: pow2_powi power_int_increasing)

lemma pow2_less_iff: "pow2 j < pow2 k \<longleftrightarrow> j < k"
proof
  assume "j < k"
  then have "pow2 (k - j) \<ge> pow2 1" by (intro pow2_mono) simp
  then have "pow2 j * 2 \<le> pow2 j * pow2 (k - j)" by (intro mult_left_mono) (auto simp: pow2_def less_imp_le)
  then show "pow2 j < pow2 k" using pow2_add [of j "k - j"] pow2_pos [of j] by simp
next
  assume "pow2 j < pow2 k"
  then show "j < k" using pow2_mono [of k j] by force
qed

lemma pow2_nat: "0 \<le> k \<Longrightarrow> pow2 k = 2 ^ nat k"
  by (simp add: pow2_def)

lemma floorlog2_bounds:
  assumes "0 < n"
  shows "2 ^ (floorlog 2 n - 1) \<le> n" "n < 2 ^ floorlog 2 n" "0 < floorlog 2 n"
  using floorlog_bounds [of n 2] assms by (auto intro: ccontr)

lemma floorlog_pow2:
  assumes "0 < p"
  shows "pow2 (int (floorlog 2 (nat p)) - 1) \<le> of_int p" "of_int p < pow2 (int (floorlog 2 (nat p)))"
proof -
  note fb = floorlog2_bounds [of "nat p"]
  have "(2 :: rat) ^ (floorlog 2 (nat p) - 1) \<le> of_nat (nat p)"
    using fb(1) assms by (metis of_nat_le_iff of_nat_numeral of_nat_power zero_less_nat_eq)
  moreover have "pow2 (int (floorlog 2 (nat p)) - 1) = 2 ^ (floorlog 2 (nat p) - 1)"
    using fb(3) assms by (simp add: pow2_def nat_diff_distrib')
  ultimately show "pow2 (int (floorlog 2 (nat p)) - 1) \<le> of_int p" using assms by simp
  have "of_nat (nat p) < (2 :: rat) ^ floorlog 2 (nat p)"
    using fb(2) assms by (metis of_nat_less_iff of_nat_numeral of_nat_power zero_less_nat_eq)
  then show "of_int p < pow2 (int (floorlog 2 (nat p)))" using assms by (simp add: pow2_def)
qed

lemma ilog2_bounds:
  assumes "0 < x"
  shows "pow2 (ilog2 x) \<le> x" "x < pow2 (ilog2 x + 1)"
proof -
  obtain p q where pq: "quotient_of x = (p, q)" by (cases "quotient_of x")
  have q: "0 < q" using quotient_of_denom_pos [OF pq] .
  have x: "x = of_int p / of_int q" using quotient_of_div [OF pq] .
  then have p: "0 < p" using assms q by (simp add: zero_less_divide_iff)
  define a b where "a = int (floorlog 2 (nat p))" and "b = int (floorlog 2 (nat q))"
  have pb: "pow2 (a - 1) \<le> of_int p" "of_int p < pow2 a" using floorlog_pow2 [OF p] by (simp_all add: a_def)
  have qb: "pow2 (b - 1) \<le> of_int q" "of_int q < pow2 b" using floorlog_pow2 [OF q] by (simp_all add: b_def)
  have "pow2 (a - b - 1) * of_int q \<le> pow2 (a - b - 1) * pow2 b"
    using qb(2) by (intro mult_left_mono) (auto simp: less_imp_le)
  also have "\<dots> = pow2 (a - 1)" by (simp add: pow2_add [symmetric])
  finally have lo: "pow2 (a - b - 1) \<le> x" using pb(1) q by (simp add: x field_simps)
  have "pow2 a = pow2 (a - b + 1) * pow2 (b - 1)" by (simp add: pow2_add [symmetric])
  also have "\<dots> \<le> pow2 (a - b + 1) * of_int q"
    using qb(1) by (intro mult_left_mono) (auto simp: less_imp_le)
  finally have hi: "x < pow2 (a - b + 1)" using pb(2) q by (simp add: x field_simps)
  have "ilog2 x = (if pow2 (a - b) \<le> x then a - b else a - b - 1)"
    by (simp add: ilog2_def pq a_def b_def)
  then show "pow2 (ilog2 x) \<le> x" "x < pow2 (ilog2 x + 1)" using lo hi by auto
qed

lemma ilog2_unique:
  assumes "pow2 k \<le> x" "x < pow2 (k + 1)"
  shows "ilog2 x = k"
proof -
  have "0 < x" using assms(1) pow2_pos [of k] by linarith
  from ilog2_bounds [OF this] assms have "pow2 (ilog2 x) < pow2 (k + 1)" "pow2 k < pow2 (ilog2 x + 1)" by linarith+
  then show ?thesis by (simp add: pow2_less_iff)
qed

section \<open>Rounding errors\<close>

lemma round_half_even_error: "\<bar>of_int (round_half_even x) - x\<bar> \<le> 1 / 2"
  unfolding round_half_even_def Let_def
  using floor_correct [of x] by (auto simp: abs_le_iff)

lemma round_half_even_int [simp]: "round_half_even (of_int n) = n"
  by (simp add: round_half_even_def)

text \<open>Normal numbers: the relative error is at most \<open>2\<close> to the \<open>-53\<close>.\<close>

lemma round_double_error:
  assumes "pow2 (- 1022) \<le> x" "x < pow2 1000"
  shows "\<exists>y. round_double x = Fin y \<and> \<bar>y - x\<bar> \<le> x * pow2 (- 53)"
proof -
  have x: "0 < x" using assms(1) pow2_pos [of "- 1022"] by linarith
  define e where "e = ilog2 x"
  have e: "pow2 e \<le> x" "x < pow2 (e + 1)" using ilog2_bounds [OF x] by (simp_all add: e_def)
  have "pow2 (- 1022) < pow2 (e + 1)" "pow2 e < pow2 1000" using e assms by linarith+
  then have el: "- 1022 \<le> e" "e < 1000" by (simp_all add: pow2_less_iff)
  then have u: "max (e - 52) (- 1074) = e - 52" by simp
  define r where "r = of_int (round_half_even (x / pow2 (e - 52))) * pow2 (e - 52)"
  have "r - x = (of_int (round_half_even (x / pow2 (e - 52))) - x / pow2 (e - 52)) * pow2 (e - 52)"
    using pow2_pos [of "e - 52"] by (simp add: r_def left_diff_distrib)
  then have "\<bar>r - x\<bar> \<le> 1 / 2 * pow2 (e - 52)"
    using round_half_even_error [of "x / pow2 (e - 52)"] pow2_pos [of "e - 52"]
    by (simp only: abs_mult abs_of_pos) (intro mult_right_mono, auto)
  also have "\<dots> = pow2 e * pow2 (- 53)"
    using pow2_add [of e "- 53"] pow2_add [of "e - 53" 1] by (simp add: pow2_nat)
  also have "\<dots> \<le> x * pow2 (- 53)" using e(1) by (intro mult_right_mono) (auto simp: less_imp_le)
  finally have err: "\<bar>r - x\<bar> \<le> x * pow2 (- 53)" .
  have "x * pow2 (- 53) \<le> x * 1" using x by (intro mult_left_mono) (auto simp: pow2_def)
  then have "r \<le> 2 * x" using err by linarith
  also have "\<dots> < pow2 1001" using assms(2) by (simp add: pow2_def)
  also have "\<dots> \<le> pow2 1024" by (intro pow2_mono) simp
  finally have "round_double x = Fin r" using x u by (simp add: round_double_def r_def e_def [symmetric] Let_def)
  with err show ?thesis by blast
qed

text \<open>A value that is a multiple of its unit in the last place is kept.\<close>

lemma round_double_exact:
  assumes "0 < x" "x < pow2 1024" "- 1022 \<le> ilog2 x" "x = of_int k * pow2 (ilog2 x - 52)"
  shows "round_double x = Fin x" "round_double (- x) = Fin (- x)"
proof -
  have u: "max (ilog2 x - 52) (- 1074) = ilog2 x - 52" using assms(3) by simp
  have "x / pow2 (ilog2 x - 52) = of_int k"
    using assms(4) by (simp add: nonzero_divide_eq_eq)
  then have "of_int (round_half_even (x / pow2 (ilog2 x - 52))) * pow2 (ilog2 x - 52) = x"
    using assms(4) by simp
  then show "round_double x = Fin x" "round_double (- x) = Fin (- x)"
    using assms(1,2) u by (simp_all add: round_double_def Let_def)
qed

text \<open>Integers up to \<open>2\<close> to the \<open>53\<close> are represented exactly.\<close>

lemma round_double_posint:
  assumes "0 < n" "n \<le> 2 ^ 53"
  shows "round_double (of_int n) = Fin (of_int n)" "round_double (- of_int n) = Fin (- of_int n)"
proof -
  define e where "e = ilog2 (of_int n)"
  have e: "pow2 e \<le> of_int n" "of_int n < pow2 (e + 1)"
    using ilog2_bounds [of "of_int n"] assms by (simp_all add: e_def)
  have le: "of_int n \<le> pow2 53"
  proof -
    have "(of_int n :: rat) \<le> of_int (2 ^ 53)" using assms(2) by (simp only: of_int_le_iff)
    then show ?thesis by (simp add: pow2_def)
  qed
  have "pow2 0 < pow2 (e + 1)" using e(2) assms(1) by (simp add: pow2_nat [of 0])
  then have e0: "0 \<le> e" by (simp add: pow2_less_iff)
  have "pow2 e < pow2 54" using e(1) le pow2_less_iff [of 53 54] by linarith
  then have e53: "e = 53 \<or> e \<le> 52" by (auto simp: pow2_less_iff)
  have "\<exists>k. of_int n = of_int k * pow2 (e - 52)"
  proof (cases "e = 53")
    case True
    then have "of_int n = pow2 53" using e(1) le by simp
    then show ?thesis using True by (intro exI [of _ "2 ^ 52"]) (simp add: pow2_def)
  next
    case False
    then have "of_int n = of_int (n * 2 ^ nat (52 - e)) * pow2 (e - 52)"
      using e53 by (simp add: pow2_def)
    then show ?thesis by blast
  qed
  then obtain k where k: "of_int n = of_int k * pow2 (e - 52)" ..
  have lt: "of_int n < pow2 1024" using le pow2_less_iff [of 53 1024] by linarith
  have pos: "0 < (of_int n :: rat)" using assms(1) by simp
  have "- 1022 \<le> e" using e0 by simp
  note exact = round_double_exact [OF pos lt this [unfolded e_def] k [unfolded e_def]]
  show "round_double (of_int n) = Fin (of_int n)" "round_double (- of_int n) = Fin (- of_int n)"
    by (rule exact)+
qed

lemma round_double_int:
  assumes "\<bar>n\<bar> \<le> 2 ^ 53"
  shows "round_double (of_int n) = Fin (of_int n)"
proof (cases n "0 :: int" rule: linorder_cases)
  case less
  with assms round_double_posint(2) [of "- n"] show ?thesis by simp
next
  case greater
  with assms round_double_posint(1) [of n] show ?thesis by simp
qed (simp add: round_double_def)

lemma js_Number_exact: "\<bar>n\<bar> \<le> 2 ^ 53 \<Longrightarrow> js_Number n = Fin (of_int n)"
  by (simp add: js_Number_def round_double_int)

section \<open>Typed amounts\<close>

text \<open>
  A decimal with at most eight places, \<open>a\<close> hundred-millionths, read as a number,
  multiplied by \<open>1e8\<close> and rounded, is \<open>a\<close> again while \<open>a\<close> is below \<open>2\<close> to the \<open>51\<close>.
\<close>

definition to_satoshis :: "jsnum \<Rightarrow> jsnum" where
  "to_satoshis amountFic = math_round (js_mul amountFic (Fin 100000000))"

lemma round_twice:
  assumes "0 < a" "a < 2 ^ 51"
  shows "\<exists>x. round_double (of_int a / 100000000) = Fin x \<and> 0 < x \<and> to_satoshis (Fin x) = Fin (of_int a)"
proof -
  let ?v = "of_int a / 100000000 :: rat" and ?d = "pow2 (- 53)"
  have "a \<le> 2 ^ 51 - 1" using assms(2) by simp
  then have "(of_int a :: rat) \<le> of_int (2 ^ 51 - 1)" by (simp only: of_int_le_iff)
  then have a: "1 \<le> (of_int a :: rat)" "(of_int a :: rat) \<le> 2 ^ 51 - 1" using assms(1) by simp_all
  have d: "0 < ?d" "?d = 1 / 2 ^ 53" by (simp_all add: pow2_def)
  have small: "pow2 (- 1022) \<le> pow2 (- 30)" by (rule pow2_mono) simp
  have big: "pow2 60 < pow2 1000" by (simp add: pow2_less_iff)
  have "pow2 (- 30) \<le> ?v" "?v < pow2 60" using a by (simp_all add: pow2_def field_simps)
  then obtain x where x: "round_double ?v = Fin x" "\<bar>x - ?v\<bar> \<le> ?v * ?d"
    using round_double_error [of ?v] small big by force
  have xl: "?v * (1 - ?d) \<le> x" "x \<le> ?v * (1 + ?d)" 
    using x(2) unfolding distrib_left right_diff_distrib mult_1_right abs_le_iff by linarith+
  define y where "y = x * 100000000"
  have yl: "of_int a * (1 - ?d) \<le> y" "y \<le> of_int a * (1 + ?d)" using xl by (simp_all add: y_def)
  have yb: "1 / 2 \<le> y" "y \<le> 2 ^ 52"
  proof -
    have "1 * (1 - ?d) \<le> of_int a * (1 - ?d)" using a(1) d(2) by (intro mult_right_mono) auto
    then show "1 / 2 \<le> y" using yl(1) d(2) by simp
    have "of_int a * (1 + ?d) \<le> 2 ^ 51 * 2" using a d(2) by (intro mult_mono) auto
    then show "y \<le> 2 ^ 52" using yl(2) by simp
  qed
  have "pow2 (- 30) \<le> y" "y < pow2 60" using yb by (simp_all add: pow2_def)
  then obtain z where z: "round_double y = Fin z" "\<bar>z - y\<bar> \<le> y * ?d"
    using round_double_error [of y] small big by force
  have "y * ?d \<le> of_int a * (1 + ?d) * ?d" using yl(2) d(1) by (intro mult_right_mono) auto
  then have "\<bar>z - of_int a\<bar> \<le> of_int a * (2 * ?d + ?d * ?d)"
    using z(2) yl unfolding distrib_left distrib_right right_diff_distrib mult_1_right abs_le_iff
    by (simp add: mult.assoc)
  also have "\<dots> \<le> (2 ^ 51 - 1) * (2 * ?d + ?d * ?d)" using a(2) d(1) by (intro mult_right_mono) auto
  also have "\<dots> < 1 / 2" by (simp add: d(2))
  finally have "\<bar>z - of_int a\<bar> < 1 / 2" .
  then have "\<lfloor>z + 1 / 2\<rfloor> = a" unfolding floor_eq_iff by linarith
  moreover have "0 < x" using yb(1) by (simp add: y_def)
  ultimately show ?thesis using x(1) z(1) by (simp add: to_satoshis_def y_def)
qed

text \<open>A decimal as it is typed: digits before the point and up to eight behind it.\<close>

definition decimal_text :: "nat list \<Rightarrow> nat list \<Rightarrow> string" where
  "decimal_text ip fp = map digit_char ip @ (if fp = [] then [] else CHR ''.'' # map digit_char fp)"

definition decimal_sats :: "nat list \<Rightarrow> nat list \<Rightarrow> int" where
  "decimal_sats ip fp = from_base 10 (ip @ fp) * 10 ^ (8 - length fp)"

definition digits_ok :: "nat list \<Rightarrow> bool" where
  "digits_ok ds = list_all (\<lambda>d. d < 10) ds"

lemma dec_digit_char: "d < 10 \<Longrightarrow> dec_digit (digit_char d)"
  by (simp add: dec_digit_def)

lemma dec_val_digits: "digits_ok ds \<Longrightarrow> dec_val (map digit_char ds) = from_base 10 ds"
proof -
  assume "digits_ok ds"
  then have "map (\<lambda>d. case digit_val (digit_char d) of None \<Rightarrow> 0 | Some d \<Rightarrow> d) ds = ds"
    by (induction ds) (auto simp: digits_ok_def)
  then show ?thesis by (simp add: dec_val_def o_def)
qed

lemma takeWhile_digits:
  assumes "digits_ok ds" "r = [] \<or> \<not> dec_digit (hd r)"
  shows "takeWhile dec_digit (map digit_char ds @ r) = map digit_char ds"
    "dropWhile dec_digit (map digit_char ds @ r) = r"
proof -
  have all: "dec_digit c" if "c \<in> set (map digit_char ds)" for c
    using assms(1) that by (auto simp: digits_ok_def list_all_iff dec_digit_char)
  have r: "takeWhile dec_digit r = []" "dropWhile dec_digit r = r" using assms(2) by (cases r; simp)+
  have "takeWhile dec_digit (map digit_char ds @ r) = map digit_char ds @ takeWhile dec_digit r"
    by (rule takeWhile_append2) (rule all)
  then show "takeWhile dec_digit (map digit_char ds @ r) = map digit_char ds" by (simp only: r append_Nil2)
  have "dropWhile dec_digit (map digit_char ds @ r) = dropWhile dec_digit r"
    by (rule dropWhile_append2) (rule all)
  then show "dropWhile dec_digit (map digit_char ds @ r) = r" by (simp only: r)
qed

lemma dec_digit_point [simp]: "\<not> dec_digit (CHR ''.'')"
  by code_simp

lemma pow10_minus: "pow10 (- int k) = 1 / 10 ^ k"
  by (simp add: pow10_def)

lemma parse_decimal_text:
  assumes "digits_ok ip" "digits_ok fp" "ip \<noteq> [] \<or> fp \<noteq> []"
  shows "parse_decimal (decimal_text ip fp) = Some (of_int (from_base 10 (ip @ fp)) / 10 ^ length fp)"
proof -
  have ipfp: "dec_val (map digit_char ip @ map digit_char fp) = from_base 10 (ip @ fp)"
    using assms dec_val_digits [of "ip @ fp"] by (simp add: digits_ok_def)
  have t: "takeWhile dec_digit (map digit_char ds) = map digit_char ds"
    "dropWhile dec_digit (map digit_char ds) = []" if "digits_ok ds" for ds
    using takeWhile_digits [OF that, of "[]"] by (simp_all only: append_Nil2 simp_thms)
  note tp = takeWhile_digits [OF assms(1), of "CHR ''.'' # map digit_char fp"]
  show ?thesis
  proof (cases "fp = []")
    case True
    with assms ipfp show ?thesis
      by (simp add: parse_decimal_def decimal_text_def parse_exponent_def pow10_def t del: takeWhile_eq_all_conv)
  next
    case False
    with assms ipfp show ?thesis
      by (simp add: parse_decimal_def decimal_text_def parse_exponent_def pow10_minus t tp Let_def)
  qed
qed

lemma digit_first:
  assumes "dec_digit c \<or> c = CHR ''.''"
  shows "\<not> js_space c" "c \<noteq> CHR ''-''" "c \<noteq> CHR ''+''" "c \<noteq> CHR ''I''"
proof -
  have "(of_char c :: nat) = 46 \<or> 48 \<le> (of_char c :: nat) \<and> (of_char c :: nat) \<le> 57"
    using assms by (auto simp: dec_digit_def digit_val_def Let_def split: if_splits option.splits)
  then show "\<not> js_space c" "c \<noteq> CHR ''-''" "c \<noteq> CHR ''+''" "c \<noteq> CHR ''I''"
    by (auto simp: js_space_def)
qed

lemma js_parseFloat_unsigned:
  assumes "s \<noteq> []" "dec_digit (hd s) \<or> hd s = CHR ''.''"
  shows "js_parseFloat s = (case parse_decimal s of None \<Rightarrow> NaN | Some v \<Rightarrow> round_double v)"
proof -
  obtain c r where s: "s = c # r" using assms(1) by (cases s) auto
  then have "\<not> js_space c" "c \<noteq> CHR ''-''" "c \<noteq> CHR ''+''" "c \<noteq> CHR ''I''"
    using digit_first [of c] assms(2) by auto
  then show ?thesis
    by (simp add: s js_parseFloat_def js_trim_start_def parse_sign_def js_startsWith_def split: option.split)
qed

lemma js_parseFloat_text:
  assumes "digits_ok ip" "digits_ok fp" "ip \<noteq> [] \<or> fp \<noteq> []"
  shows "js_parseFloat (decimal_text ip fp) = round_double (of_int (from_base 10 (ip @ fp)) / 10 ^ length fp)"
proof -
  have "decimal_text ip fp \<noteq> []" "dec_digit (hd (decimal_text ip fp)) \<or> hd (decimal_text ip fp) = CHR ''.''"
    using assms by (cases ip; auto simp: decimal_text_def digits_ok_def dec_digit_char)+
  then show ?thesis using js_parseFloat_unsigned parse_decimal_text [OF assms] by simp
qed

lemma typed_sats:
  assumes "digits_ok ip" "digits_ok fp" "length fp \<le> 8" "0 < decimal_sats ip fp" "decimal_sats ip fp < 2 ^ 51"
  shows "js_BigInt (to_satoshis (js_parseFloat (decimal_text ip fp))) = Inr (decimal_sats ip fp)"
proof -
  have ne: "ip \<noteq> [] \<or> fp \<noteq> []" using assms(4) by (auto simp: decimal_sats_def)
  have "(100000000 :: rat) = 10 ^ (8 - length fp) * 10 ^ length fp"
    using assms(3) by (simp flip: power_add)
  then have eq: "(of_int (from_base 10 (ip @ fp)) / 10 ^ length fp :: rat) = of_int (decimal_sats ip fp) / 100000000"
    by (simp add: decimal_sats_def divide_eq_eq eq_divide_eq mult.assoc)
  obtain x where "round_double (of_int (decimal_sats ip fp) / 100000000) = Fin x"
    "to_satoshis (Fin x) = Fin (of_int (decimal_sats ip fp))"
    using round_twice [OF assms(4,5)] by blast
  then show ?thesis unfolding js_parseFloat_text [OF assms(1,2) ne] eq by simp
qed

text \<open>
  C13: an amount typed with at most eight decimals, as long as it is below
  22.5 million coins (\<open>2\<close> to the \<open>51\<close> hundred-millionths), is converted to exactly
  that many hundred-millionths, although it passes through a binary fraction, a
  rounded product with \<open>1e8\<close> and \<open>Math.round\<close>.
\<close>

theorem typed_amount_exact:
  assumes "digits_ok ip" "digits_ok fp" "length fp \<le> 8" "0 < decimal_sats ip fp" "decimal_sats ip fp < 2 ^ 51"
  shows "js_BigInt (to_satoshis (js_parseFloat (decimal_text ip fp))) = Inr (decimal_sats ip fp)"
  by (rule typed_sats [OF assms])

theorem typed_amount_exact_witness:
  "js_BigInt (to_satoshis (js_parseFloat ''0.1'')) = Inr 10000000"
proof -
  have "decimal_text [0] [1] = ''0.1''" by code_simp
  then show ?thesis using typed_amount_exact [of "[0]" "[1]"] by (simp add: digits_ok_def decimal_sats_def)
qed

end
