(* ===== verification/Js_Print.thy ===== *)
theory Js_Print
  imports Js_Number
begin

text \<open>
  Numbers as text: the conversion a template literal or \<open>JSON.stringify\<close> applies to
  a \<open>Number\<close>, which writes the fewest digits that read back to the same value.
\<close>

section \<open>The shortest decimal\<close>

text \<open>The number of decimal digits before the point: the least \<open>k\<close> with \<open>x < 10^k\<close>.\<close>

definition dec_exps :: "int list" where
  "dec_exps = [- 330 .. 310]"

definition dec_exp :: "rat \<Rightarrow> int" where
  "dec_exp x = (case find (\<lambda>k. x < pow10 k) dec_exps of Some k \<Rightarrow> k | None \<Rightarrow> 0)"

text \<open>The two decimals of \<open>k\<close> digits around \<open>x\<close>, the closer one first.\<close>

definition dec_candidates :: "rat \<Rightarrow> nat \<Rightarrow> (int \<times> int) list" where
  "dec_candidates x k =
     (let e = dec_exp x - int k; f = \<lfloor>x / pow10 e\<rfloor>
      in if x / pow10 e - of_int f \<le> 1 / 2 then [(f, e), (f + 1, e)] else [(f + 1, e), (f, e)])"

definition dec_reads :: "rat \<Rightarrow> int \<times> int \<Rightarrow> bool" where
  "dec_reads x = (\<lambda>(s, e). 0 < s \<and> round_double (of_int s * pow10 e) = Fin x)"

text \<open>A binary64 value has at most 767 significant decimal digits, so the search ends.\<close>

definition shortest :: "rat \<Rightarrow> (int \<times> int) option" where
  "shortest x = find (dec_reads x) (concat (map (dec_candidates x) [1..<800]))"

section \<open>Formatting\<close>

definition strip_zeros :: "nat list \<Rightarrow> nat list" where
  "strip_zeros ds = rev (dropWhile (\<lambda>d. d = 0) (rev ds))"

definition exponent_text :: "int \<Rightarrow> string" where
  "exponent_text e = ''e'' @ (if 0 \<le> e then ''+'' else ''-'') @ js_toString 10 \<bar>e\<bar>"

definition format_dec :: "nat list \<Rightarrow> int \<Rightarrow> string" where
  "format_dec ds n =
     (let k = int (length ds) in
      if k \<le> n \<and> n \<le> 21 then decimal_text (ds @ replicate (nat (n - k)) 0) []
      else if 0 < n \<and> n \<le> 21 then decimal_text (take (nat n) ds) (drop (nat n) ds)
      else if - 6 < n \<and> n \<le> 0 then decimal_text [0] (replicate (nat (- n)) 0 @ ds)
      else decimal_text (take 1 ds) (drop 1 ds) @ exponent_text (n - 1))"

definition pos_text :: "rat \<Rightarrow> string" where
  "pos_text x =
     (case shortest x of None \<Rightarrow> ''NaN''
      | Some (s, e) \<Rightarrow>
          let ds = to_base 10 s in format_dec (strip_zeros ds) (e + int (length ds)))"

fun js_numToString :: "jsnum \<Rightarrow> string" where
  "js_numToString NaN = ''NaN''"
| "js_numToString (Infinity s) = (if s then ''Infinity'' else ''-Infinity'')"
| "js_numToString (Fin x) =
     (if x = 0 then ''0'' else if 0 < x then pos_text x else CHR ''-'' # pos_text (- x))"

section \<open>Reading the text back\<close>

lemma pow10_powi: "pow10 k = 10 powi k"
  by (simp add: pow10_def power_int_def field_simps)

lemma pow10_add: "pow10 (j + k) = pow10 j * pow10 k"
  by (simp add: pow10_powi power_int_add)

lemma pow10_pos [simp]: "0 < pow10 k"
  by (simp add: pow10_powi)

lemma pow10_nonzero [simp]: "pow10 k \<noteq> 0"
  by (metis less_irrefl pow10_pos)

lemma pow10_nat: "pow10 (int k) = 10 ^ k"
  by (simp add: pow10_def)

lemma parse_decimal_suffix:
  assumes ip: "digits_ok ip" and fp: "digits_ok fp" and ne: "ip \<noteq> [] \<or> fp \<noteq> []"
    and r: "r = [] \<or> \<not> dec_digit (hd r) \<and> hd r \<noteq> CHR ''.''"
  shows "parse_decimal (decimal_text ip fp @ r) =
    Some (of_int (from_base 10 (ip @ fp)) * pow10 (parse_exponent r - int (length fp)))"
proof -
  have v: "dec_val (map digit_char ip @ map digit_char fp) = from_base 10 (ip @ fp)"
    using ip fp dec_val_digits [of "ip @ fp"] by (simp add: digits_ok_def)
  have r': "r = [] \<or> \<not> dec_digit (hd r)" using r by blast
  show ?thesis
  proof (cases "fp = []")
    case True
    then have t: "decimal_text ip fp @ r = map digit_char ip @ r" by (simp add: decimal_text_def)
    have c: "(case r of [] \<Rightarrow> ([], r) | c # q \<Rightarrow> if c = CHR ''.'' then (takeWhile dec_digit q, dropWhile dec_digit q) else ([], r))
        = ([], r)" using r by (cases r) auto
    show ?thesis
      unfolding t parse_decimal_def Let_def takeWhile_digits [OF ip r'] c using True ne v by simp
  next
    case False
    then have t: "decimal_text ip fp @ r = map digit_char ip @ CHR ''.'' # map digit_char fp @ r"
      by (simp add: decimal_text_def)
    show ?thesis
      unfolding t parse_decimal_def Let_def
      using False v by (simp add: takeWhile_digits [OF ip] takeWhile_digits [OF fp r'])
  qed
qed

lemma digits_to_base: "digits_ok (to_base 10 n)"
  using to_base_digits [of 10 _ n] by (fastforce simp: digits_ok_def list_all_iff)

lemma parse_exponent_text: "parse_exponent (exponent_text e) = e"
proof -
  have v: "dec_val (js_toString 10 n) = n" "takeWhile dec_digit (js_toString 10 n) = js_toString 10 n" if "0 \<le> n" for n
  proof -
    have "js_toString 10 n = map digit_char (if n = 0 then [0] else to_base 10 n)"
      using that by (auto simp: js_toString_def) code_simp
    moreover have d: "digits_ok (if n = 0 then [0] else to_base 10 n)" using digits_to_base [of n] by (auto simp: digits_ok_def)
    ultimately show "dec_val (js_toString 10 n) = n" "takeWhile dec_digit (js_toString 10 n) = js_toString 10 n"
      using that takeWhile_digits(1) [OF d, of "[]"] by (simp_all only: dec_val_digits append_Nil2 simp_thms)
        (simp_all add: from_base_to_base)
  qed
  show ?thesis
    by (simp add: exponent_text_def parse_exponent_def parse_sign_def v)
qed

lemma exponent_text_hd:
  "exponent_text e \<noteq> [] \<and> \<not> dec_digit (hd (exponent_text e)) \<and> hd (exponent_text e) \<noteq> CHR ''.''"
proof -
  have "\<not> dec_digit (CHR ''e'')" by code_simp
  then show ?thesis by (simp add: exponent_text_def)
qed

lemma from_base_zeros: "from_base 10 (ds @ replicate k 0) = from_base 10 ds * 10 ^ k"
  by (simp add: from_base_append)

lemma from_base_lead_zeros: "from_base 10 (replicate k 0 @ ds) = from_base 10 ds"
  by (simp add: from_base_append)

lemma digits_ok_simps [simp]:
  "digits_ok []"
  "digits_ok (d # ds) \<longleftrightarrow> d < 10 \<and> digits_ok ds"
  "digits_ok (xs @ ys) \<longleftrightarrow> digits_ok xs \<and> digits_ok ys"
  "digits_ok (replicate k 0)"
  by (auto simp: digits_ok_def list_all_iff)

lemma digits_ok_take: "digits_ok ds \<Longrightarrow> digits_ok (take k ds) \<and> digits_ok (drop k ds)"
  by (auto simp: digits_ok_def list_all_iff dest: in_set_takeD in_set_dropD)

lemma parse_decimal_format:
  assumes "digits_ok ds" "ds \<noteq> []"
  shows "parse_decimal (format_dec ds n) = Some (of_int (from_base 10 ds) * pow10 (n - int (length ds)))"
proof -
  let ?k = "int (length ds)"
  note tk = digits_ok_take [OF assms(1)]
  consider (whole) "?k \<le> n \<and> n \<le> 21" | (point) "\<not> (?k \<le> n \<and> n \<le> 21)" "0 < n \<and> n \<le> 21"
    | (small) "\<not> (?k \<le> n \<and> n \<le> 21)" "\<not> (0 < n \<and> n \<le> 21)" "- 6 < n \<and> n \<le> 0"
    | (exp) "\<not> (?k \<le> n \<and> n \<le> 21)" "\<not> (0 < n \<and> n \<le> 21)" "\<not> (- 6 < n \<and> n \<le> 0)" by blast
  then show ?thesis
  proof cases
    case whole
    then have "pow10 (n - ?k) = 10 ^ nat (n - ?k)" by (simp add: pow10_def)
    with whole show ?thesis
      using parse_decimal_suffix [of "ds @ replicate (nat (n - ?k)) 0" "[]" "[]"] assms
      by (simp add: format_dec_def from_base_zeros parse_exponent_def pow10_def)
  next
    case point
    then have l: "int (length (drop (nat n) ds)) = ?k - n" "take (nat n) ds @ drop (nat n) ds = ds" by auto
    have "format_dec ds n = decimal_text (take (nat n) ds) (drop (nat n) ds) @ []"
      using point by (simp add: format_dec_def)
    moreover have "take (nat n) ds \<noteq> [] \<or> drop (nat n) ds \<noteq> []" using assms(2) l(2) by fastforce
    ultimately show ?thesis
      using parse_decimal_suffix [of "take (nat n) ds" "drop (nat n) ds" "[]"] tk l point
      by (simp add: parse_exponent_def)
  next
    case small
    then have "format_dec ds n = decimal_text [0] (replicate (nat (- n)) 0 @ ds) @ []" "?k > 0"
      using assms(2) by (auto simp: format_dec_def)
    with small show ?thesis
      using parse_decimal_suffix [of "[0]" "replicate (nat (- n)) 0 @ ds" "[]"] assms
      by (simp add: parse_exponent_def from_base_lead_zeros)
  next
    case exp
    then have f: "format_dec ds n = decimal_text (take 1 ds) (drop 1 ds) @ exponent_text (n - 1)"
      by (auto simp: format_dec_def Let_def)
    have l: "int (length (drop 1 ds)) = ?k - 1" "take 1 ds @ drop 1 ds = ds" "take 1 ds \<noteq> []"
      using assms(2) by (cases ds; simp)+
    show ?thesis
      unfolding f using parse_decimal_suffix [of "take 1 ds" "drop 1 ds" "exponent_text (n - 1)"] tk l exponent_text_hd
      by (simp only: parse_exponent_text) (simp add: algebra_simps)
  qed
qed

lemma strip_zeros_append: "\<exists>k. ds = strip_zeros ds @ replicate k 0"
proof -
  have "rev ds = takeWhile (\<lambda>d. d = 0) (rev ds) @ dropWhile (\<lambda>d. d = 0) (rev ds)" by simp
  then have "ds = strip_zeros ds @ rev (takeWhile (\<lambda>d. d = 0) (rev ds))"
    unfolding strip_zeros_def by (metis rev_append rev_rev_ident)
  moreover have "takeWhile (\<lambda>d. d = (0 :: nat)) xs = replicate (length (takeWhile (\<lambda>d. d = 0) xs)) 0" for xs
    by (induction xs) auto
  ultimately show ?thesis by (metis rev_replicate)
qed

lemma pos_text_parts:
  assumes "shortest x = Some (s, e)"
  shows "\<exists>ds n. pos_text x = format_dec ds n \<and> digits_ok ds \<and> ds \<noteq> [] \<and>
    of_int (from_base 10 ds) * pow10 (n - int (length ds)) = of_int s * pow10 e \<and> hd ds \<noteq> 0"
proof -
  have "dec_reads x (s, e)" using assms find_Some_iff [of "dec_reads x"] by (fastforce simp: shortest_def)
  then have s: "0 < s" by (simp add: dec_reads_def)
  obtain k where k: "to_base 10 s = strip_zeros (to_base 10 s) @ replicate k 0" using strip_zeros_append by blast
  define ds where "ds = strip_zeros (to_base 10 s)"
  have v: "from_base 10 ds * 10 ^ k = s"
    using from_base_to_base [of 10 s] s k from_base_zeros [of ds k] by (simp add: ds_def)
  then have ne: "ds \<noteq> []" using s by auto
  have ok: "digits_ok ds" using digits_to_base [of s] k by (metis ds_def digits_ok_simps(3))
  have hd: "hd ds \<noteq> 0"
    using hd_to_base [of 10 s] ne k by (metis append_is_Nil_conv ds_def hd_append2 one_less_numeral_iff semiring_norm(76))
  have len: "int (length (to_base 10 s)) = int (length ds) + int k" using arg_cong [OF k, of length] by (simp add: ds_def)
  have "of_int (from_base 10 ds) * pow10 (e + int (length (to_base 10 s)) - int (length ds)) =
      (of_int (from_base 10 ds * 10 ^ k) :: rat) * pow10 e"
    unfolding len using pow10_add [of e "int k"] by (simp add: pow10_nat)
  then have "of_int (from_base 10 ds) * pow10 (e + int (length (to_base 10 s)) - int (length ds)) = of_int s * pow10 e"
    unfolding v .
  moreover have "pos_text x = format_dec ds (e + int (length (to_base 10 s)))"
    using assms by (simp add: pos_text_def ds_def Let_def)
  ultimately show ?thesis using ok ne hd by blast
qed

lemma format_dec_hd:
  assumes "digits_ok ds" "ds \<noteq> []"
  shows "format_dec ds n \<noteq> [] \<and> dec_digit (hd (format_dec ds n))"
proof -
  obtain d r where ds: "ds = d # r" "d < 10" using assms by (cases ds) auto
  have "decimal_text (d # q) fp @ z \<noteq> [] \<and> dec_digit (hd (decimal_text (d # q) fp @ z))"
    "decimal_text (0 # q) fp \<noteq> [] \<and> dec_digit (hd (decimal_text (0 # q) fp))" for q fp z
    using ds(2) by (simp_all add: decimal_text_def dec_digit_char)
  moreover have "take (nat n) ds = d # take (nat n - 1) r" if "0 < n"
    using that by (simp add: ds take_Cons')
  ultimately show ?thesis by (auto simp: format_dec_def Let_def ds) (metis append_Nil2)+
qed

text \<open>Text to number and back, for every value whose digits the search finds.\<close>

lemma js_parseFloat_pos_text:
  assumes "0 < x" "shortest x = Some (s, e)"
  shows "js_parseFloat (pos_text x) = Fin x"
proof -
  obtain ds n where ds: "pos_text x = format_dec ds n" "digits_ok ds" "ds \<noteq> []"
    "of_int (from_base 10 ds) * pow10 (n - int (length ds)) = of_int s * pow10 e"
    using pos_text_parts [OF assms(2)] by blast
  have "dec_reads x (s, e)" using assms(2) find_Some_iff [of "dec_reads x"] by (fastforce simp: shortest_def)
  then have "round_double (of_int s * pow10 e) = Fin x" by (simp add: dec_reads_def)
  then show ?thesis
    using js_parseFloat_unsigned [of "pos_text x"] format_dec_hd [OF ds(2,3)] parse_decimal_format [OF ds(2,3)] ds(1,4)
    by simp
qed

section \<open>The search succeeds\<close>

lemma pow10_mono: "j \<le> k \<Longrightarrow> pow10 j \<le> pow10 k"
  by (simp add: pow10_powi power_int_increasing)

lemma pow10_less_iff: "pow10 j < pow10 k \<longleftrightarrow> j < k"
proof
  assume "j < k"
  then have "pow10 1 \<le> pow10 (k - j)" by (intro pow10_mono) simp
  then have "pow10 j * 10 \<le> pow10 j * pow10 (k - j)" by (intro mult_left_mono) (auto simp: pow10_def)
  then show "pow10 j < pow10 k" using pow10_add [of j "k - j"] pow10_pos [of j] by simp
next
  assume "pow10 j < pow10 k"
  then show "j < k" using pow10_mono [of k j] by force
qed

lemma dec_exps_nth:
  "j < length dec_exps \<Longrightarrow> dec_exps ! j = - 330 + int j"
  "length dec_exps = 641"
  "set dec_exps = {- 330 .. 310}"
proof -
  show l: "length dec_exps = 641" unfolding dec_exps_def length_upto by simp
  show "dec_exps ! j = - 330 + int j" if "j < length dec_exps"
    using that unfolding l unfolding dec_exps_def by (intro nth_upto) simp
  show "set dec_exps = {- 330 .. 310}" unfolding dec_exps_def by (rule set_upto)
qed

lemma dec_exp_bounds:
  assumes "pow10 (- 300) \<le> x" "x < pow10 300"
  shows "x < pow10 (dec_exp x)" "pow10 (dec_exp x - 1) \<le> x" "- 300 < dec_exp x" "dec_exp x \<le> 300"
proof -
  let ?ks = dec_exps
  have "\<exists>k \<in> set ?ks. x < pow10 k" using assms(2) by (intro bexI [of _ 300]) (auto simp: dec_exps_nth)
  then obtain k where k: "find (\<lambda>k. x < pow10 k) ?ks = Some k"
    by (metis find_None_iff not_None_eq)
  then obtain i where i: "i < length ?ks" "x < pow10 (?ks ! i)" "k = ?ks ! i" "\<forall>j < i. \<not> x < pow10 (?ks ! j)"
    unfolding find_Some_iff by blast
  note nth = dec_exps_nth(1)
  have d: "dec_exp x = - 330 + int i" using k i nth by (simp add: dec_exp_def)
  then show up: "x < pow10 (dec_exp x)" using i nth by simp
  have "pow10 (- 300) < pow10 (dec_exp x)" using assms(1) up by linarith
  then show lo: "- 300 < dec_exp x" by (simp only: pow10_less_iff)
  then have "i - 1 < i" using d by linarith
  then have "\<not> x < pow10 (?ks ! (i - 1))" using i(4) by blast
  moreover have "?ks ! (i - 1) = dec_exp x - 1" using d lo i(1) nth [of "i - 1"] by simp
  ultimately show low: "pow10 (dec_exp x - 1) \<le> x" by simp
  then have "pow10 (dec_exp x - 1) < pow10 300" using assms(2) by linarith
  then show "dec_exp x \<le> 300" by (simp only: pow10_less_iff)
qed

lemma find_app: "find P (xs @ ys) = (case find P xs of None \<Rightarrow> find P ys | Some x \<Rightarrow> Some x)"
  by (induction xs) auto

lemma find_first_in: "find P xs = Some c \<Longrightarrow> c \<in> set xs \<and> P c"
  by (induction xs) (auto split: if_splits)

lemma dec_candidates_exp: "(s, e) \<in> set (dec_candidates x k) \<Longrightarrow> e = dec_exp x - int k"
  by (auto simp: dec_candidates_def Let_def split: if_splits)

lemma dec_candidates_iff:
  "(s, dec_exp x - int k) \<in> set (dec_candidates x k) \<longleftrightarrow>
     s = \<lfloor>x / pow10 (dec_exp x - int k)\<rfloor> \<or> s = \<lfloor>x / pow10 (dec_exp x - int k)\<rfloor> + 1"
  by (auto simp: dec_candidates_def Let_def)

text \<open>A decimal of \<open>k\<close> digits that reads as \<open>x\<close> bounds the length of the one that is found.\<close>

lemma shortest_found:
  assumes "1 \<le> k" "k < 800" "(s, dec_exp x - int k) \<in> set (dec_candidates x k)" "dec_reads x (s, dec_exp x - int k)"
  shows "\<exists>s' k'. shortest x = Some (s', dec_exp x - int k') \<and> dec_reads x (s', dec_exp x - int k') \<and>
    1 \<le> k' \<and> k' \<le> k \<and> (s', dec_exp x - int k') \<in> set (dec_candidates x k')"
proof -
  let ?before = "concat (map (dec_candidates x) [1..<Suc k])"
  have "[1..<800] = [1..<Suc k] @ [Suc k..<800]"
    using assms(1,2) upt_add_eq_append [of 1 "Suc k" "800 - Suc k"] by (simp del: upt_Suc upt_conv_Cons)
  then have sh: "shortest x = find (dec_reads x) (?before @ concat (map (dec_candidates x) [Suc k..<800]))"
    by (simp only: shortest_def map_append concat_append)
  have "(s, dec_exp x - int k) \<in> set ?before" using assms(1,3) by (auto simp del: upt_Suc)
  then obtain c where c: "find (dec_reads x) ?before = Some c" using assms(4) by (metis find_None_iff not_None_eq)
  then have "shortest x = Some c" unfolding sh find_app by (simp only: option.case)
  moreover obtain k' where "k' \<in> {1..<Suc k}" "c \<in> set (dec_candidates x k')" "dec_reads x c"
    using find_first_in [OF c] by (auto simp del: upt_Suc)
  moreover have "c = (fst c, dec_exp x - int k')" 
    using dec_candidates_exp [of "fst c" "snd c" x k'] calculation by (metis prod.collapse)
  ultimately show ?thesis by (intro exI [of _ "fst c"] exI [of _ k']) auto
qed

text \<open>Hundred-millionths: every amount that can be typed has a text that reads back.\<close>

lemma near_floor: "\<bar>y - of_int a\<bar> < (1 :: rat) \<Longrightarrow> a = \<lfloor>y\<rfloor> \<or> a = \<lfloor>y\<rfloor> + 1"
  by linarith

lemma amount_near:
  assumes "0 < a" "a < 2 ^ 51" "round_double (of_int a / 100000000) = Fin x"
  shows "\<bar>x * 100000000 - of_int a\<bar> \<le> of_int a * pow2 (- 53)" "pow10 (- 9) < x" "x < pow10 20"
proof -
  let ?v = "of_int a / 100000000 :: rat"
  have "(of_int a :: rat) \<le> of_int (2 ^ 51)" using assms(2) by (simp only: of_int_le_iff less_imp_le)
  then have a: "1 \<le> (of_int a :: rat)" "(of_int a :: rat) \<le> 2 ^ 51" using assms(1) by simp_all
  have "pow2 (- 1022) \<le> pow2 (- 30)" "pow2 60 < pow2 1000" by (simp_all add: pow2_mono pow2_less_iff)
  moreover have "pow2 (- 30) \<le> ?v" "?v < pow2 60" using a by (simp_all add: pow2_def field_simps)
  ultimately obtain y where "round_double ?v = Fin y" "\<bar>y - ?v\<bar> \<le> ?v * pow2 (- 53)"
    using round_double_error [of ?v] by force
  then have e: "\<bar>x - ?v\<bar> \<le> ?v * pow2 (- 53)" using assms(3) by simp
  have "\<bar>x * 100000000 - of_int a\<bar> = \<bar>x - ?v\<bar> * 100000000" by (simp add: abs_if field_simps)
  also have "\<dots> \<le> ?v * pow2 (- 53) * 100000000" using e by (intro mult_right_mono) auto
  finally show near: "\<bar>x * 100000000 - of_int a\<bar> \<le> of_int a * pow2 (- 53)" by simp
  have "of_int a * pow2 (- 53) \<le> of_int a * (1 / 2 :: rat)" using a(1) by (intro mult_left_mono) (auto simp: pow2_def)
  then have "of_int a / 2 \<le> x * 100000000" "x * 100000000 \<le> of_int a * 2" using near a(1) by linarith+
  then show "pow10 (- 9) < x" "x < pow10 20" using a by (simp_all add: pow10_def)
qed

lemma shortest_amount:
  assumes "0 < a" "a < 2 ^ 51" "round_double (of_int a / 100000000) = Fin x"
  shows "\<exists>s e. shortest x = Some (s, e)"
proof -
  note near = amount_near [OF assms]
  have "pow10 (- 300) < pow10 (- 9)" "pow10 20 < pow10 300" by (simp_all only: pow10_less_iff)
  then have "pow10 (- 300) \<le> x" "x < pow10 300" using near by linarith+
  note db = dec_exp_bounds [OF this]
  have "(of_int a :: rat) < of_int (2 ^ 51)" using assms(2) by (simp only: of_int_less_iff)
  then have small: "of_int a * pow2 (- 53) < 1 / 4" by (simp add: pow2_def)
  have "pow10 (- 9) < pow10 (dec_exp x)" using near(2) db(1) by linarith
  then have "dec_exp x = - 8 \<or> - 7 \<le> dec_exp x" by (auto simp only: pow10_less_iff)
  then show ?thesis
  proof
    assume n: "- 7 \<le> dec_exp x"
    define k where "k = nat (dec_exp x + 8)"
    have e: "dec_exp x - int k = - 8" using n by (simp add: k_def)
    have "\<bar>x * 100000000 - of_int a\<bar> < 1" using near(1) small by linarith
    then have "(a, dec_exp x - int k) \<in> set (dec_candidates x k)"
      unfolding dec_candidates_iff unfolding e using near_floor [of "x * 100000000" a] by (simp add: pow10_def)
    moreover have "dec_reads x (a, dec_exp x - int k)" using assms unfolding e by (simp add: dec_reads_def pow10_def)
    moreover have "1 \<le> k" "k < 800" using n db(4) by (simp_all add: k_def nat_less_iff)
    ultimately show ?thesis using shortest_found [of k a x] by blast
  next
    assume n: "dec_exp x = - 8"
    have e: "dec_exp x - int 1 = - 9" using n by simp
    have "x * 100000000 < 1" using db(1) n by (simp add: pow10_def)
    then have "(of_int a :: rat) < 2" using near(1) small by linarith
    then have a: "a = 1" using assms(1) by simp
    have "\<bar>x * 100000000 - 1\<bar> < 1 / 100" using near(1) by (simp add: a pow2_def)
    then have "\<bar>x * 1000000000 - of_int 10\<bar> < 1" unfolding abs_less_iff by simp
    then have "(10, dec_exp x - int 1) \<in> set (dec_candidates x 1)"
      unfolding dec_candidates_iff unfolding e using near_floor [of "x * 1000000000" 10] by (simp add: pow10_def)
    moreover have "dec_reads x (10, dec_exp x - int 1)" using assms(3) unfolding e by (simp add: dec_reads_def pow10_def a)
    ultimately show ?thesis using shortest_found [of 1 10 x] by fastforce
  qed
qed

section \<open>Integers are written in full\<close>

lemma to_base_length_le: "n < 10 ^ k \<Longrightarrow> length (to_base 10 n) \<le> k"
proof (induction k arbitrary: n)
  case (Suc k)
  then have "n div 10 < 10 ^ k" by simp
  from Suc.IH [OF this] show ?case by (cases "0 < n") (simp_all add: to_base.simps [of 10 n])
qed (simp add: to_base.simps)

lemma shortest_int:
  assumes "0 < n" "n < 2 ^ 52"
  shows "\<exists>s k. shortest (of_int n) = Some (s, int k) \<and> 0 < s \<and> s * 10 ^ k = n"
proof -
  let ?x = "of_int n :: rat"
  have "?x < of_int (2 ^ 52)" using assms(2) by (simp only: of_int_less_iff)
  then have x: "1 \<le> ?x" "?x < 2 ^ 52" using assms(1) by simp_all
  have "pow10 (- 300) \<le> pow10 0" by (rule pow10_mono) simp
  then have "pow10 (- 300) \<le> ?x" using x(1) by (simp add: pow10_nat [of 0, simplified])
  moreover have "?x < pow10 300" using x(2) pow10_mono [of 20 300] by (simp add: pow10_nat [of 20, simplified])
  ultimately have db: "?x < pow10 (dec_exp ?x)" "pow10 (dec_exp ?x - 1) \<le> ?x" "dec_exp ?x \<le> 300"
    using dec_exp_bounds by blast+
  have "pow10 0 < pow10 (dec_exp ?x)" using x(1) db(1) by (simp add: pow10_nat [of 0, simplified])
  then have d: "0 < dec_exp ?x" by (simp only: pow10_less_iff)
  define m where "m = nat (dec_exp ?x)"
  have e: "dec_exp ?x - int m = 0" using d by (simp add: m_def)
  have "(n, dec_exp ?x - int m) \<in> set (dec_candidates ?x m)"
    unfolding dec_candidates_iff unfolding e by (simp add: pow10_nat [of 0, simplified])
  moreover have "dec_reads ?x (n, dec_exp ?x - int m)"
    unfolding e using round_double_int [of n] assms by (simp add: dec_reads_def pow10_nat [of 0, simplified])
  moreover have "1 \<le> m" "m < 800" using d db(3) by (simp_all add: m_def nat_less_iff)
  ultimately obtain s k where s: "shortest ?x = Some (s, dec_exp ?x - int k)" "dec_reads ?x (s, dec_exp ?x - int k)"
    "1 \<le> k" "k \<le> m" "(s, dec_exp ?x - int k) \<in> set (dec_candidates ?x k)"
    using shortest_found [of m n ?x] by blast
  define j where "j = m - k"
  have j: "dec_exp ?x - int k = int j" using s(4) d by (simp add: j_def m_def)
  have "of_int s \<le> ?x / pow10 (int j) + 1"
    using s(5) unfolding dec_candidates_iff unfolding j by linarith
  then have "of_int s * pow10 (int j) \<le> (?x / pow10 (int j) + 1) * pow10 (int j)"
    by (intro mult_right_mono) (auto simp: less_imp_le)
  also have "\<dots> = ?x + pow10 (int j)" using pow10_pos [of "int j"] by (simp add: distrib_right)
  also have "pow10 (int j) \<le> pow10 (dec_exp ?x - 1)" using s(3) d by (intro pow10_mono) (simp add: j_def m_def)
  finally have "of_int s * pow10 (int j) \<le> 2 * ?x" using db(2) by linarith
  then have "of_int (s * 10 ^ j) \<le> (of_int (2 * n) :: rat)" by (simp add: pow10_nat)
  then have le: "s * 10 ^ j \<le> 2 * n" by (simp only: of_int_le_iff)
  have pos: "0 < s" "round_double (of_int (s * 10 ^ j)) = Fin ?x"
    using s(2) unfolding j by (simp_all add: dec_reads_def pow10_nat)
  moreover have "\<bar>s * 10 ^ j\<bar> \<le> 2 ^ 53" using le assms(2) pos(1) by simp
  ultimately have "(of_int (s * 10 ^ j) :: rat) = of_int n"
    using round_double_int [of "s * 10 ^ j"] by (simp only: jsnum.inject)
  then have "s * 10 ^ j = n" by (simp only: of_int_eq_iff)
  with s(1) pos(1) j show ?thesis by auto
qed

lemma pos_text_int:
  assumes "0 < n" "n < 2 ^ 52"
  shows "pos_text (of_int n) = js_toString 10 n"
proof -
  obtain s k where s: "shortest (of_int n) = Some (s, int k)" "0 < s" "s * 10 ^ k = n"
    using shortest_int [OF assms] by blast
  obtain j where j: "to_base 10 s = strip_zeros (to_base 10 s) @ replicate j 0" using strip_zeros_append by blast
  define ds where "ds = strip_zeros (to_base 10 s)"
  have sj: "to_base 10 s = ds @ replicate j 0" using j by (simp add: ds_def)
  have "to_base 10 n = to_base 10 s @ replicate k 0"
  proof (rule to_base_eq)
    show "n = from_base 10 (to_base 10 s @ replicate k 0)"
      using s from_base_to_base [of 10 s] by (simp add: from_base_zeros)
    show "\<forall>d \<in> set (to_base 10 s @ replicate k 0). int d < 10" using to_base_digits [of 10 _ s] by auto
    show "to_base 10 s @ replicate k 0 = [] \<or> hd (to_base 10 s @ replicate k 0) \<noteq> 0"
    proof -
      have "to_base 10 s \<noteq> []" using s(2) by (simp add: to_base.simps [of 10 s])
      then show ?thesis using hd_to_base [of 10 s] by simp
    qed
  qed simp
  then have n: "to_base 10 n = ds @ replicate (j + k) 0" by (simp add: sj replicate_add)
  have "length (to_base 10 n) \<le> 21"
    using assms by (intro to_base_length_le) auto
  moreover have "pos_text (of_int n) = format_dec ds (int k + int (length (to_base 10 s)))"
    using s(1) by (simp add: pos_text_def ds_def Let_def)
  then have "pos_text (of_int n) = format_dec ds (int (length ds + (j + k)))" by (simp add: sj ac_simps)
  ultimately show ?thesis
    using n assms by (simp add: format_dec_def js_toString_def decimal_text_def nat_int_add)
qed

lemma js_numToString_int:
  assumes "\<bar>n\<bar> < 2 ^ 52"
  shows "js_numToString (Fin (of_int n)) = js_toString 10 n"
proof (cases n "0 :: int" rule: linorder_cases)
  case less
  then have "pos_text (of_int (- n)) = js_toString 10 (- n)" using assms by (intro pos_text_int) auto
  with less show ?thesis by (simp add: js_toString_def)
next
  case greater
  with assms show ?thesis by (simp add: pos_text_int)
qed (simp add: js_toString_def)

text \<open>The text of a typed amount reads back to the same number.\<close>

lemma amount_text_round_trip:
  assumes "0 < a" "a < 2 ^ 51"
  shows "\<exists>x. round_double (of_int a / 100000000) = Fin x \<and> js_parseFloat (js_numToString (Fin x)) = Fin x"
proof -
  obtain x where x: "round_double (of_int a / 100000000) = Fin x" "0 < x"
    using round_twice [OF assms] by blast
  obtain s e where "shortest x = Some (s, e)" using shortest_amount [OF assms x(1)] by blast
  with x show ?thesis using js_parseFloat_pos_text by auto
qed

end
