(* ===== verification/Json.thy ===== *)
theory Json
  imports Js_Print
begin

text \<open>
  JavaScript values as they pass through \<open>JSON.stringify\<close> and \<open>JSON.parse\<close>, which
  carry everything the wallet keeps in the browser's storage, sends to the
  gateway or hands to a cosigner. Characters are those of Latin-1.
\<close>

section \<open>Values\<close>

text \<open>An object is the list of its entries in insertion order.\<close>

datatype jsval =
    JUndef
  | JNull
  | JBool bool
  | JNum jsnum
  | JStr string
  | JArr "jsval list"
  | JObj "(string \<times> jsval) list"

text \<open>Defining a property: an existing key keeps its place.\<close>

fun obj_set :: "(string \<times> 'a) list \<Rightarrow> string \<Rightarrow> 'a \<Rightarrow> (string \<times> 'a) list" where
  "obj_set [] k v = [(k, v)]"
| "obj_set ((k', v') # kvs) k v = (if k' = k then (k, v) # kvs else (k', v') # obj_set kvs k v)"

definition obj_delete :: "(string \<times> 'a) list \<Rightarrow> string \<Rightarrow> (string \<times> 'a) list" where
  "obj_delete kvs k = filter (\<lambda>(k', _). k' \<noteq> k) kvs"

text \<open>
  Reading a property: \<open>undefined\<close> and \<open>null\<close> have none, an absent one is \<open>undefined\<close>,
  arrays and strings have their \<open>length\<close>. Methods and inherited properties are not
  data the program reads from a parsed text.
\<close>

fun js_get :: "jsval \<Rightarrow> string \<Rightarrow> jsval result" where
  "js_get JUndef k = Inl TypeError"
| "js_get JNull k = Inl TypeError"
| "js_get (JObj kvs) k = Inr (case map_of kvs k of None \<Rightarrow> JUndef | Some v \<Rightarrow> v)"
| "js_get (JArr vs) k = Inr (if k = ''length'' then JNum (Fin (of_nat (length vs))) else JUndef)"
| "js_get (JStr s) k = Inr (if k = ''length'' then JNum (Fin (of_nat (length s))) else JUndef)"
| "js_get _ k = Inr JUndef"

fun js_truthy :: "jsval \<Rightarrow> bool" where
  "js_truthy JUndef = False"
| "js_truthy JNull = False"
| "js_truthy (JBool b) = b"
| "js_truthy (JNum n) = js_truthy_num n"
| "js_truthy (JStr s) = (s \<noteq> [])"
| "js_truthy _ = True"

section \<open>\<open>JSON.stringify\<close>\<close>

definition hex4 :: "nat \<Rightarrow> string" where
  "hex4 n = js_padStart 4 (CHR ''0'') (js_toString 16 (int n))"

definition esc_char :: "char \<Rightarrow> string" where
  "esc_char c =
     (if c = CHR 0x22 then [CHR 0x5C, CHR 0x22]
      else if c = CHR 0x5C then [CHR 0x5C, CHR 0x5C]
      else if c = CHR 0x08 then [CHR 0x5C, CHR ''b'']
      else if c = CHR 0x09 then [CHR 0x5C, CHR ''t'']
      else if c = CHR 0x0A then [CHR 0x5C, CHR ''n'']
      else if c = CHR 0x0C then [CHR 0x5C, CHR ''f'']
      else if c = CHR 0x0D then [CHR 0x5C, CHR ''r'']
      else if (of_char c :: nat) < 0x20 then [CHR 0x5C, CHR ''u''] @ hex4 (of_char c)
      else [c])"

definition json_string :: "string \<Rightarrow> string" where
  "json_string s = CHR 0x22 # concat (map esc_char s) @ [CHR 0x22]"

text \<open>
  The layout: with an empty gap everything is on one line, with a gap each entry
  stands on its own line behind the indentation.
\<close>

definition line :: "string \<Rightarrow> string \<Rightarrow> string" where
  "line gap ind = (if gap = [] then [] else CHR 0x0A # ind)"

definition colon :: "string \<Rightarrow> string" where
  "colon gap = (if gap = [] then '':'' else '': '')"

definition num_text :: "jsnum \<Rightarrow> string" where
  "num_text n = (case n of Fin _ \<Rightarrow> js_numToString n | _ \<Rightarrow> ''null'')"

fun json_text :: "string \<Rightarrow> string \<Rightarrow> jsval \<Rightarrow> string"
and elems_text :: "string \<Rightarrow> string \<Rightarrow> bool \<Rightarrow> jsval list \<Rightarrow> string"
and members_text :: "string \<Rightarrow> string \<Rightarrow> bool \<Rightarrow> (string \<times> jsval) list \<Rightarrow> string" where
  "json_text gap ind JUndef = ''null''"
| "json_text gap ind JNull = ''null''"
| "json_text gap ind (JBool b) = (if b then ''true'' else ''false'')"
| "json_text gap ind (JNum n) = num_text n"
| "json_text gap ind (JStr s) = json_string s"
| "json_text gap ind (JArr vs) =
     (if vs = [] then ''[]''
      else ''['' @ elems_text gap (ind @ gap) True vs @ line gap ind @ '']'')"
| "json_text gap ind (JObj kvs) =
     (if list_all (\<lambda>(_, v). v = JUndef) kvs then ''{}''
      else ''{'' @ members_text gap (ind @ gap) True kvs @ line gap ind @ ''}'')"
| "elems_text gap ind first [] = []"
| "elems_text gap ind first (v # vs) =
     (if first then [] else '','') @ line gap ind @ json_text gap ind v @ elems_text gap ind False vs"
| "members_text gap ind first [] = []"
| "members_text gap ind first ((k, v) # kvs) =
     (if v = JUndef then members_text gap ind first kvs
      else (if first then [] else '','') @ line gap ind @ json_string k @ colon gap @ json_text gap ind v @
        members_text gap ind False kvs)"

definition json_stringify :: "jsval \<Rightarrow> string" where
  "json_stringify v = json_text [] [] v"

definition json_stringify_indent :: "jsval \<Rightarrow> string" where
  "json_stringify_indent v = json_text ''  '' [] v"

section \<open>\<open>JSON.parse\<close>\<close>

definition json_ws :: "char \<Rightarrow> bool" where
  "json_ws c = (c = CHR 0x20 \<or> c = CHR 0x09 \<or> c = CHR 0x0A \<or> c = CHR 0x0D)"

definition skip_ws :: "string \<Rightarrow> string" where
  "skip_ws s = dropWhile json_ws s"

definition hex_val4 :: "string \<Rightarrow> nat option" where
  "hex_val4 s =
     (if length s = 4 \<and> list_all (\<lambda>c. case digit_val c of None \<Rightarrow> False | Some d \<Rightarrow> d < 16) s
      then Some (nat (from_base 16 (map (\<lambda>c. case digit_val c of None \<Rightarrow> 0 | Some d \<Rightarrow> d) s))) else None)"

text \<open>A code unit above 255 has no character in the model; the text is not accepted.\<close>

fun parse_str :: "string \<Rightarrow> (string \<times> string) option" where
  "parse_str [] = None"
| "parse_str (c # r) =
     (if c = CHR 0x22 then Some ([], r)
      else if c = CHR 0x5C then
        (case r of [] \<Rightarrow> None
         | e # q \<Rightarrow>
             if e = CHR ''u'' then
               (case hex_val4 (take 4 q) of None \<Rightarrow> None
                | Some n \<Rightarrow> if n < 256 then map_option (\<lambda>(t, z). (char_of n # t, z)) (parse_str (drop 4 q)) else None)
             else
               (case map_of [(CHR 0x22, CHR 0x22), (CHR 0x5C, CHR 0x5C), (CHR 0x2F, CHR 0x2F), (CHR ''b'', CHR 0x08),
                   (CHR ''f'', CHR 0x0C), (CHR ''n'', CHR 0x0A), (CHR ''r'', CHR 0x0D), (CHR ''t'', CHR 0x09)] e of
                  None \<Rightarrow> None
                | Some d \<Rightarrow> map_option (\<lambda>(t, z). (d # t, z)) (parse_str q)))
      else if (of_char c :: nat) < 0x20 then None
      else map_option (\<lambda>(t, z). (c # t, z)) (parse_str r))"

text \<open>A number: no leading zero, digits on both sides of a point and behind an exponent mark.\<close>

definition int_part_ok :: "string \<Rightarrow> bool" where
  "int_part_ok ip = (ip \<noteq> [] \<and> (hd ip = CHR ''0'' \<longrightarrow> length ip = 1))"

definition split_exponent :: "string \<Rightarrow> (string \<times> string) option" where
  "split_exponent s =
     (case s of [] \<Rightarrow> Some ([], [])
      | c # r \<Rightarrow>
          if c = CHR ''e'' \<or> c = CHR ''E'' then
            let sg = (if r \<noteq> [] \<and> (hd r = CHR ''-'' \<or> hd r = CHR ''+'') then [hd r] else []);
                r' = drop (length sg) r; ds = takeWhile dec_digit r'
            in if ds = [] then None else Some (c # sg @ ds, dropWhile dec_digit r')
          else Some ([], s))"

definition parse_num :: "string \<Rightarrow> (jsval \<times> string) option" where
  "parse_num s =
     (let neg = (s \<noteq> [] \<and> hd s = CHR ''-''); s1 = (if neg then tl s else s);
          ip = takeWhile dec_digit s1; s2 = dropWhile dec_digit s1;
          point = (s2 \<noteq> [] \<and> hd s2 = CHR ''.'');
          fp = (if point then takeWhile dec_digit (tl s2) else []);
          s3 = (if point then dropWhile dec_digit (tl s2) else s2)
      in if \<not> int_part_ok ip \<or> (point \<and> fp = []) then None
         else case split_exponent s3 of None \<Rightarrow> None
           | Some (ex, rest) \<Rightarrow>
               let v = round_double (of_int (dec_val (ip @ fp)) * pow10 (parse_exponent ex - int (length fp)))
               in Some (JNum (if neg then js_neg v else v), rest))"

lemma length_skip_ws: "length (skip_ws s) \<le> length s"
  by (simp add: skip_ws_def length_dropWhile_le)

lemma skip_ws_measure:
  "2 * length (skip_ws s) < Suc (2 * length s)"
  "length s < Suc n \<Longrightarrow> 2 * length (skip_ws s) < Suc (Suc (2 * n))"
  "length s < Suc n \<Longrightarrow> 2 * length (skip_ws s) < Suc (Suc (Suc (2 * n)))"
  "length s < n \<Longrightarrow> length (skip_ws s) < n"
  using length_skip_ws [of s] by simp_all

text \<open>
  The recursive descent. An array or object is read entry by entry; the tests on
  lengths always hold and show that the recursion ends.
\<close>

function parse_val :: "string \<Rightarrow> (jsval \<times> string) option"
and parse_elems :: "string \<Rightarrow> jsval list \<Rightarrow> (jsval \<times> string) option"
and parse_members :: "string \<Rightarrow> (string \<times> jsval) list \<Rightarrow> (jsval \<times> string) option" where
  "parse_val s =
     (case s of [] \<Rightarrow> None
      | c # r \<Rightarrow>
          if c = CHR 0x22 then map_option (\<lambda>(t, q). (JStr t, q)) (parse_str r)
          else if c = CHR ''['' then
            (if skip_ws r \<noteq> [] \<and> hd (skip_ws r) = CHR '']'' then Some (JArr [], tl (skip_ws r))
             else parse_elems (skip_ws r) [])
          else if c = CHR ''{'' then
            (if skip_ws r \<noteq> [] \<and> hd (skip_ws r) = CHR ''}'' then Some (JObj [], tl (skip_ws r))
             else parse_members (skip_ws r) [])
          else if js_startsWith s ''null'' then Some (JNull, drop 4 s)
          else if js_startsWith s ''true'' then Some (JBool True, drop 4 s)
          else if js_startsWith s ''false'' then Some (JBool False, drop 5 s)
          else parse_num s)"
| "parse_elems s acc =
     (case parse_val s of None \<Rightarrow> None
      | Some (v, r) \<Rightarrow>
          (case skip_ws r of [] \<Rightarrow> None
           | c # q \<Rightarrow>
               if c = CHR '']'' then Some (JArr (acc @ [v]), q)
               else if c = CHR '','' \<and> length q < length s then parse_elems (skip_ws q) (acc @ [v])
               else None))"
| "parse_members s acc =
     (case s of [] \<Rightarrow> None
      | c # r \<Rightarrow>
          if c \<noteq> CHR 0x22 then None
          else case parse_str r of None \<Rightarrow> None
            | Some (k, r1) \<Rightarrow>
                (case skip_ws r1 of [] \<Rightarrow> None
                 | d # r2 \<Rightarrow>
                     if d = CHR '':'' \<and> length r2 < length s then
                       (case parse_val (skip_ws r2) of None \<Rightarrow> None
                        | Some (v, r3) \<Rightarrow>
                            (case skip_ws r3 of [] \<Rightarrow> None
                             | e # q \<Rightarrow>
                                 if e = CHR ''}'' then Some (JObj (obj_set acc k v), q)
                                 else if e = CHR '','' \<and> length q < length s
                                 then parse_members (skip_ws q) (obj_set acc k v)
                                 else None))
                     else None))"
  by pat_completeness auto
termination
  by (relation "measure (case_sum (\<lambda>s. 2 * length s) (case_sum (\<lambda>(s, _). 2 * length s + 1) (\<lambda>(s, _). 2 * length s + 1)))")
     (auto intro: skip_ws_measure)

declare parse_val.simps [simp del] parse_elems.simps [simp del] parse_members.simps [simp del]

definition json_parse :: "string \<Rightarrow> jsval result" where
  "json_parse s =
     (case parse_val (skip_ws s) of None \<Rightarrow> Inl SyntaxError
      | Some (v, r) \<Rightarrow> if skip_ws r = [] then Inr v else Inl SyntaxError)"

end
