(* ===== verification/Json_Round.thy ===== *)
theory Json_Round
  imports Json Codec
begin

text \<open>
  \<open>JSON.parse\<close> undoes \<open>JSON.stringify\<close>, in both layouts, for values without
  \<open>undefined\<close> whose numbers are integers below \<open>2\<close> to the \<open>52\<close> and whose objects
  have no repeated key.
\<close>

definition num_ok :: "jsnum \<Rightarrow> bool" where
  "num_ok n = (case n of Fin x \<Rightarrow> of_int \<lfloor>x\<rfloor> = x \<and> \<bar>\<lfloor>x\<rfloor>\<bar> < 2 ^ 52 | _ \<Rightarrow> False)"

primrec json_ok :: "jsval \<Rightarrow> bool" where
  "json_ok JUndef = False"
| "json_ok JNull = True"
| "json_ok (JBool _) = True"
| "json_ok (JNum n) = num_ok n"
| "json_ok (JStr _) = True"
| "json_ok (JArr vs) = list_all id (map json_ok vs)"
| "json_ok (JObj kvs) = (distinct (map fst kvs) \<and> list_all snd (map (map_prod id json_ok) kvs))"

lemma json_ok_simps [simp]:
  "list_all id (map json_ok vs) = list_all json_ok vs"
  "list_all snd (map (map_prod id json_ok) kvs) = list_all (\<lambda>(_, v). json_ok v) kvs"
  by (auto simp: list_all_iff)

section \<open>Strings\<close>

lemma hex4_digits:
  assumes "n < 256"
  shows "hex4 n = map digit_char [0, 0, n div 16, n mod 16]"
proof -
  have z: "CHR ''0'' = digit_char 0" by code_simp
  have r: "replicate 3 x = [x, x, x]" "replicate 2 x = [x, x]" for x :: char by (simp_all add: eval_nat_numeral)
  have "js_toString 16 (int n) = map digit_char (if n < 16 then [n] else [n div 16, n mod 16])"
  proof (cases "n = 0")
    case False
    then have "to_base 16 (int n) = (if n < 16 then [n] else [nat (int n div 16), nat (int n mod 16)])"
      using assms to_base16_byte [of "int n"] by simp
    with False show ?thesis by (simp add: js_toString_def nat_div_distrib nat_mod_distrib)
  qed (simp add: js_toString_def z)
  then show ?thesis by (simp add: hex4_def js_padStart_def z r)
qed

lemma hex4_small: "n < 256 \<Longrightarrow> hex_val4 (hex4 n) = Some n \<and> length (hex4 n) = 4"
proof -
  assume n: "n < 256"
  have "int (n div 16) * 16 + int (n mod 16) = int (n div 16 * 16 + n mod 16)" by (simp only: of_nat_add of_nat_mult of_nat_numeral)
  then have "int (n div 16) * 16 + int (n mod 16) = int n" by (simp only: div_mult_mod_eq)
  moreover have "n div 16 < 16" "n mod 16 < 16" using n by auto
  ultimately show ?thesis by (simp add: hex4_digits [OF n] hex_val4_def)
qed

lemma parse_str_esc: "parse_str (esc_char c @ s) = map_option (\<lambda>(t, z). (c # t, z)) (parse_str s)"
proof -
  consider (mark) "c = CHR 0x22" | (backslash) "c = CHR 0x5C" | (b) "c = CHR 0x08" | (t) "c = CHR 0x09" | (n) "c = CHR 0x0A"
    | (f) "c = CHR 0x0C" | (r) "c = CHR 0x0D"
    | (other) "c \<noteq> CHR 0x22" "c \<noteq> CHR 0x5C" "c \<noteq> CHR 0x08" "c \<noteq> CHR 0x09" "c \<noteq> CHR 0x0A" "c \<noteq> CHR 0x0C" "c \<noteq> CHR 0x0D"
    by blast
  then show ?thesis
  proof cases
    case other
    then have e: "esc_char c = (if (of_char c :: nat) < 0x20 then [CHR 0x5C, CHR ''u''] @ hex4 (of_char c) else [c])"
      by (simp add: esc_char_def)
    show ?thesis
    proof (cases "(of_char c :: nat) < 0x20")
      case True
      then have "(of_char c :: nat) < 256" by simp
      from hex4_small [OF this] True show ?thesis unfolding e by simp
    next
      case False
      with other show ?thesis unfolding e by simp
    qed
  qed (simp_all add: esc_char_def)
qed

lemma parse_str_json: "parse_str (concat (map esc_char s) @ CHR 0x22 # r) = Some (s, r)"
  by (induction s) (simp_all add: parse_str_esc)

lemma parse_val_string: "parse_val (json_string s @ r) = Some (JStr s, r)"
  by (simp add: json_string_def parse_val.simps parse_str_json)

section \<open>Numbers\<close>

definition stop :: "string \<Rightarrow> bool" where
  "stop r = (r = [] \<or> hd r \<in> {CHR '','', CHR '']'', CHR ''}''} \<or> json_ws (hd r))"

lemma stop_number: "stop r \<Longrightarrow> r = [] \<or> \<not> dec_digit (hd r) \<and> hd r \<notin> {CHR ''.'', CHR ''e'', CHR ''E''}"
proof -
  have d: "\<not> dec_digit c" if "c \<in> {CHR '','', CHR '']'', CHR ''}'', CHR 0x20, CHR 0x09, CHR 0x0A, CHR 0x0D}" for c
    using that by (auto simp: dec_digit_def digit_val_def)
  show "stop r \<Longrightarrow> ?thesis" using d [of "hd r"] by (auto simp: stop_def json_ws_def)
qed

lemma int_digits:
  assumes "0 \<le> n"
  shows "\<exists>ds. js_toString 10 n = map digit_char ds \<and> digits_ok ds \<and> ds \<noteq> [] \<and> from_base 10 ds = n \<and>
    (hd ds = 0 \<longrightarrow> length ds = 1)"
proof (cases "n = 0")
  case True
  then show ?thesis by (intro exI [of _ "[0]"]) (simp add: js_toString_def, code_simp)
next
  case False
  then have "to_base 10 n \<noteq> []" using assms by (simp add: to_base.simps [of 10 n])
  then show ?thesis
    using False assms digits_to_base [of n] hd_to_base [of 10 n]
    by (intro exI [of _ "to_base 10 n"]) (simp add: js_toString_def from_base_to_base)
qed

lemma parse_num_digits:
  assumes ds: "digits_ok ds" "ds \<noteq> []" "hd ds = 0 \<longrightarrow> length ds = 1" and r: "stop r"
  shows "parse_num (map digit_char ds @ r) = Some (JNum (round_double (of_int (from_base 10 ds))), r)"
    "parse_num (CHR ''-'' # map digit_char ds @ r) = Some (JNum (js_neg (round_double (of_int (from_base 10 ds)))), r)"
proof -
  obtain d q where dq: "ds = d # q" "d < 10" using ds by (cases ds) auto
  have r': "r = [] \<or> \<not> dec_digit (hd r)" using stop_number [OF r] by blast
  have zero: "digit_char d = CHR ''0'' \<Longrightarrow> d = 0"
    using dq(2) digit_char_code [of d] by (cases "d = 0") auto
  have ip: "int_part_ok (map digit_char ds)" using ds zero by (auto simp: int_part_ok_def dq)
  have minus: "digit_char d \<noteq> CHR ''-''" using digit_first(2) [of "digit_char d"] dec_digit_char [OF dq(2)] by blast
  have ex: "split_exponent r = Some ([], r)" "(r \<noteq> [] \<and> hd r = CHR ''.'') = False"
    using stop_number [OF r] by (cases r; simp add: split_exponent_def)+
  note tw = takeWhile_digits [OF ds(1) r']
  have v: "dec_val (map digit_char ds) = from_base 10 ds" using ds(1) by (rule dec_val_digits)
  have neg: "(map digit_char ds @ r \<noteq> [] \<and> hd (map digit_char ds @ r) = CHR ''-'') = False" using minus by (simp add: dq)
  have pos: "(CHR ''-'' # map digit_char ds @ r \<noteq> [] \<and> hd (CHR ''-'' # map digit_char ds @ r) = CHR ''-'') = True" by simp
  show "parse_num (map digit_char ds @ r) = Some (JNum (round_double (of_int (from_base 10 ds))), r)"
    unfolding parse_num_def Let_def neg if_False tw ex option.case prod.case
    by (simp add: ip v parse_exponent_def pow10_nat [of 0, simplified])
  show "parse_num (CHR ''-'' # map digit_char ds @ r) = Some (JNum (js_neg (round_double (of_int (from_base 10 ds)))), r)"
    unfolding parse_num_def Let_def pos if_True unfolding list.sel unfolding tw ex if_False option.case prod.case
    by (simp add: ip v parse_exponent_def pow10_nat [of 0, simplified])
qed

lemma num_text_first:
  assumes "json_ok (JNum m)"
  shows "\<exists>c q. num_text m = c # q \<and> (dec_digit c \<or> c = CHR ''-'')"
proof -
  obtain i where i: "m = Fin (of_int i)" "\<bar>i\<bar> < 2 ^ 52" using assms by (auto simp: num_ok_def split: jsnum.splits)
  have t: "num_text m = js_toString 10 i" using i js_numToString_int [of i] by (simp add: num_text_def del: js_numToString.simps)
  show ?thesis
  proof (cases "i < 0")
    case True
    then show ?thesis by (simp add: t js_toString_def)
  next
    case False
    then obtain ds where "js_toString 10 i = map digit_char ds" "digits_ok ds" "ds \<noteq> []" using int_digits [of i] by auto
    then show ?thesis unfolding t by (cases ds) (auto simp: dec_digit_char)
  qed
qed

lemma parse_num_text:
  assumes "json_ok (JNum m)" "stop r"
  shows "parse_num (num_text m @ r) = Some (JNum m, r)"
proof -
  obtain i where i: "m = Fin (of_int i)" "\<bar>i\<bar> < 2 ^ 52" using assms(1) by (auto simp: num_ok_def split: jsnum.splits)
  have t: "num_text m = js_toString 10 i" using i js_numToString_int [of i] by (simp add: num_text_def del: js_numToString.simps)
  obtain ds where ds: "js_toString 10 \<bar>i\<bar> = map digit_char ds" "digits_ok ds" "ds \<noteq> []" "from_base 10 ds = \<bar>i\<bar>"
    "hd ds = 0 \<longrightarrow> length ds = 1" using int_digits [of "\<bar>i\<bar>"] by auto
  have rd: "round_double (of_int \<bar>i\<bar>) = Fin (of_int \<bar>i\<bar>)" using i(2) by (intro round_double_int) simp
  note pn = parse_num_digits [OF ds(2,3,5) assms(2)]
  show ?thesis
  proof (cases "i < 0")
    case True
    then have "num_text m = CHR ''-'' # map digit_char ds" using t ds(1) by (simp add: js_toString_def)
    then show ?thesis using pn(2) True rd by (simp add: ds(4) i(1))
  next
    case False
    then have "num_text m = map digit_char ds" using t ds(1) by simp
    then show ?thesis using pn(1) False rd by (simp add: ds(4) i(1))
  qed
qed

section \<open>The value read is the value written\<close>

definition all_ws :: "string \<Rightarrow> bool" where
  "all_ws z = list_all json_ws z"

lemma all_ws_Nil [simp]: "all_ws []"
  by (simp add: all_ws_def)

lemma skip_ws_append: "all_ws z \<Longrightarrow> skip_ws (z @ s) = skip_ws s"
  unfolding skip_ws_def all_ws_def list_all_iff by (rule dropWhile_append2) blast

lemma skip_ws_other: "\<not> json_ws c \<Longrightarrow> skip_ws (c # s) = c # s"
  by (simp add: skip_ws_def)

lemma all_ws_line: "all_ws gap \<Longrightarrow> all_ws ind \<Longrightarrow> all_ws (line gap ind)"
  by (simp add: all_ws_def line_def json_ws_def)

lemma stop_append: "all_ws z \<Longrightarrow> stop s \<Longrightarrow> stop (z @ s)"
  by (cases z) (auto simp: all_ws_def stop_def)

lemma json_ws_simps [simp]:
  "\<not> json_ws (CHR '','')" "\<not> json_ws (CHR '']'')" "\<not> json_ws (CHR ''}'')" "\<not> json_ws (CHR '':'')" "\<not> json_ws (CHR 0x22)"
  by (simp_all add: json_ws_def)

lemma colon_ws: "\<exists>z. colon gap = CHR '':'' # z \<and> all_ws z"
  by (auto simp: colon_def all_ws_def json_ws_def)

text \<open>The first character of a value is neither white space nor a closing bracket.\<close>

lemma json_text_first:
  assumes "json_ok v"
  shows "\<exists>c q. json_text gap ind v = c # q \<and> \<not> json_ws c \<and> c \<noteq> CHR '']'' \<and> c \<noteq> CHR ''}''"
proof (cases v)
  case (JNum m)
  then obtain c q where c: "num_text m = c # q" "dec_digit c \<or> c = CHR ''-''" using assms num_text_first by blast
  have "\<not> json_ws c \<and> c \<noteq> CHR '']'' \<and> c \<noteq> CHR ''}''" using c(2) by (auto simp: json_ws_def dec_digit_def digit_val_def)
  with c JNum show ?thesis by simp
qed (use assms in \<open>auto simp: json_ws_def json_string_def\<close>)

lemma skip_ws_text: "json_ok v \<Longrightarrow> skip_ws (json_text gap ind v @ s) = json_text gap ind v @ s"
  using json_text_first [of v gap ind] by (auto simp: skip_ws_other)

lemma elems_text_False: "vs \<noteq> [] \<Longrightarrow> elems_text gap ind False vs = CHR '','' # elems_text gap ind True vs"
  by (cases vs) auto

lemma members_text_False:
  "kvs \<noteq> [] \<Longrightarrow> list_all (\<lambda>(_, v). json_ok v) kvs \<Longrightarrow>
     members_text gap ind False kvs = CHR '','' # members_text gap ind True kvs"
  by (cases kvs) auto

lemma obj_set_fresh: "k \<notin> fst ` set kvs \<Longrightarrow> obj_set kvs k v = kvs @ [(k, v)]"
  by (induction kvs) auto

lemma parse_elems_step:
  assumes "json_ok v" "parse_val (json_text gap ind v @ w @ c # q) = Some (v, w @ c # q)" "all_ws w" "\<not> json_ws c"
  shows "parse_elems (json_text gap ind v @ w @ c # q) acc =
    (if c = CHR '']'' then Some (JArr (acc @ [v]), q)
     else if c = CHR '','' then parse_elems (skip_ws q) (acc @ [v]) else None)"
proof -
  have "json_text gap ind v \<noteq> []" using json_text_first [OF assms(1), of gap ind] by auto
  then have "length q < length (json_text gap ind v @ w @ c # q)" by simp
  with assms show ?thesis by (subst parse_elems.simps) (simp add: skip_ws_append skip_ws_other)
qed

lemma parse_members_step:
  assumes "json_ok v" "parse_val (json_text gap ind v @ w @ c # q) = Some (v, w @ c # q)" "all_ws w" "\<not> json_ws c"
  shows "parse_members (json_string k @ colon gap @ json_text gap ind v @ w @ c # q) acc =
    (if c = CHR ''}'' then Some (JObj (obj_set acc k v), q)
     else if c = CHR '','' then parse_members (skip_ws q) (obj_set acc k v) else None)"
proof -
  obtain z where z: "colon gap = CHR '':'' # z" "all_ws z" using colon_ws by blast
  have "skip_ws (z @ json_text gap ind v @ w @ c # q) = json_text gap ind v @ w @ c # q"
    using skip_ws_append [OF z(2)] skip_ws_text [OF assms(1)] by simp
  then show ?thesis
    using assms
    by (subst parse_members.simps) (simp add: json_string_def parse_str_json z(1) skip_ws_append skip_ws_other)
qed

definition reads_back :: "string \<Rightarrow> string \<Rightarrow> jsval \<Rightarrow> bool" where
  "reads_back gap ind v = (json_ok v \<and> (\<forall>r. stop r \<longrightarrow> parse_val (json_text gap ind v @ r) = Some (v, r)))"

lemma stop_next: "all_ws w \<Longrightarrow> c \<in> {CHR '','', CHR '']'', CHR ''}''} \<Longrightarrow> stop (w @ c # q)"
  by (rule stop_append) (auto simp: stop_def)

lemma parse_elems_text:
  assumes "vs \<noteq> []" "list_all (reads_back gap ind) vs" "all_ws (line gap ind)" "all_ws z"
  shows "parse_elems (skip_ws (elems_text gap ind True vs @ z @ CHR '']'' # r)) acc = Some (JArr (acc @ vs), r)"
  using assms(1,2)
proof (induction vs arbitrary: acc)
  case (Cons v vs)
  then have v: "json_ok v" and pv: "\<And>r. stop r \<Longrightarrow> parse_val (json_text gap ind v @ r) = Some (v, r)"
    by (auto simp: reads_back_def)
  show ?case
  proof (cases "vs = []")
    case True
    have "stop (z @ CHR '']'' # r)" using assms(4) by (simp add: stop_next)
    with True show ?thesis
      using parse_elems_step [OF v pv assms(4), of "CHR '']''" r acc] by (simp add: skip_ws_append assms(3) skip_ws_text v)
  next
    case False
    then have "stop (CHR '','' # elems_text gap ind True vs @ z @ CHR '']'' # r)" by (simp add: stop_def)
    with False Cons.IH [OF False] Cons.prems show ?thesis
      using parse_elems_step [OF v, of gap ind "[]" "CHR '',''" "elems_text gap ind True vs @ z @ CHR '']'' # r" acc]
      by (simp add: skip_ws_append assms(3) skip_ws_text v elems_text_False pv)
  qed
qed simp

lemma parse_members_text:
  assumes "kvs \<noteq> []" "list_all (\<lambda>(_, v). reads_back gap ind v) kvs" "distinct (map fst (acc @ kvs))"
    "all_ws (line gap ind)" "all_ws z"
  shows "parse_members (skip_ws (members_text gap ind True kvs @ z @ CHR ''}'' # r)) acc = Some (JObj (acc @ kvs), r)"
  using assms(1-3)
proof (induction kvs arbitrary: acc)
  case (Cons kv kvs)
  obtain k v where kv: "kv = (k, v)" by fastforce
  have v: "json_ok v" and pv: "\<And>r. stop r \<Longrightarrow> parse_val (json_text gap ind v @ r) = Some (v, r)"
    using Cons.prems by (auto simp: reads_back_def kv)
  have u: "v \<noteq> JUndef" using v by auto
  have fresh: "obj_set acc k v = acc @ [(k, v)]" using Cons.prems(3) by (intro obj_set_fresh) (auto simp: kv)
  have js: "skip_ws (json_string k @ s) = json_string k @ s" for s by (simp add: json_string_def skip_ws_other)
  show ?case
  proof (cases "kvs = []")
    case True
    have "stop (z @ CHR ''}'' # r)" using assms(5) by (simp add: stop_next)
    with True show ?thesis
      using parse_members_step [OF v pv assms(5), of "CHR ''}''" r k acc]
      by (simp add: skip_ws_append assms(4) js kv u fresh)
  next
    case False
    have ok: "list_all (\<lambda>(_, v). json_ok v) kvs" using Cons.prems(2) by (auto simp: list_all_iff reads_back_def)
    from False have "stop (CHR '','' # members_text gap ind True kvs @ z @ CHR ''}'' # r)" by (simp add: stop_def)
    with False Cons.IH [OF False, of "acc @ [(k, v)]"] Cons.prems show ?thesis
      using parse_members_step [OF v, of gap ind "[]" "CHR '',''" "members_text gap ind True kvs @ z @ CHR ''}'' # r" k acc]
      by (simp add: skip_ws_append assms(4) js kv u fresh members_text_False [OF False ok] pv)
  qed
qed simp

lemma all_ws_append: "all_ws (s @ t) \<longleftrightarrow> all_ws s \<and> all_ws t"
  by (simp add: all_ws_def)

lemma line_first: "all_ws gap \<Longrightarrow> all_ws ind \<Longrightarrow> skip_ws (line gap ind @ s) = skip_ws s"
  by (simp add: skip_ws_append all_ws_line)

lemma elems_text_first:
  assumes "vs \<noteq> []" "list_all json_ok vs" "all_ws gap" "all_ws ind"
  shows "skip_ws (elems_text gap ind True vs @ s) \<noteq> [] \<and> hd (skip_ws (elems_text gap ind True vs @ s)) \<noteq> CHR '']''"
proof -
  obtain v q where vs: "vs = v # q" using assms(1) by (cases vs) auto
  then show ?thesis
    using assms json_text_first [of v gap ind] by (auto simp: line_first skip_ws_other)
qed

lemma members_text_first:
  assumes "kvs \<noteq> []" "list_all (\<lambda>(_, v). json_ok v) kvs" "all_ws gap" "all_ws ind"
  shows "skip_ws (members_text gap ind True kvs @ s) \<noteq> [] \<and> hd (skip_ws (members_text gap ind True kvs @ s)) \<noteq> CHR ''}''"
proof -
  obtain k v q where "kvs = (k, v) # q" using assms(1) by (cases kvs) auto
  then show ?thesis using assms by (auto simp: line_first json_string_def skip_ws_other)
qed

lemma json_reads_back: "json_ok v \<Longrightarrow> all_ws gap \<Longrightarrow> all_ws ind \<Longrightarrow> reads_back gap ind v"
proof (induction v arbitrary: ind)
  case (JNum m)
  then obtain c q where c: "num_text m = c # q" "dec_digit c \<or> c = CHR ''-''" using num_text_first by blast
  have "c \<notin> {CHR 0x22, CHR ''['', CHR ''{'', CHR ''n'', CHR ''t'', CHR ''f''}"
    using c(2) by (auto simp: dec_digit_def digit_val_def)
  then have "parse_val (num_text m @ r) = parse_num (num_text m @ r)" for r
    by (simp add: parse_val.simps c(1) js_startsWith_def)
  with JNum show ?case by (simp add: reads_back_def parse_num_text del: json_ok.simps)
next
  case (JStr t)
  then show ?case by (simp add: reads_back_def parse_val_string)
next
  case (JArr vs)
  have ws: "all_ws (ind @ gap)" using JArr.prems by (simp add: all_ws_append)
  have "list_all (reads_back gap (ind @ gap)) vs" using JArr ws by (auto simp: list_all_iff)
  moreover have "all_ws (line gap (ind @ gap))" "all_ws (line gap ind)" using JArr.prems ws by (simp_all add: all_ws_line)
  ultimately have "vs \<noteq> [] \<Longrightarrow> parse_elems (skip_ws (elems_text gap (ind @ gap) True vs @ line gap ind @ CHR '']'' # r)) [] =
      Some (JArr vs, r)" for r
    using parse_elems_text [of vs gap "ind @ gap" "line gap ind" r "[]"] by simp
  moreover have "vs \<noteq> [] \<Longrightarrow> list_all json_ok vs" using JArr.prems by simp
  ultimately show ?case
    using JArr.prems elems_text_first [of vs gap "ind @ gap"] ws
    by (cases "vs = []") (simp_all add: reads_back_def parse_val.simps skip_ws_other)
next
  case (JObj kvs)
  have ws: "all_ws (ind @ gap)" using JObj.prems by (simp add: all_ws_append)
  have ok: "list_all (\<lambda>(_, v). json_ok v) kvs" using JObj.prems by simp
  have "list_all (\<lambda>(_, v). reads_back gap (ind @ gap) v) kvs"
    using JObj.IH ok JObj.prems(2) ws by (fastforce simp: list_all_iff)
  moreover have "all_ws (line gap (ind @ gap))" "all_ws (line gap ind)" using JObj.prems ws by (simp_all add: all_ws_line)
  ultimately have p: "kvs \<noteq> [] \<Longrightarrow> parse_members (skip_ws (members_text gap (ind @ gap) True kvs @ line gap ind @ CHR ''}'' # r)) [] =
      Some (JObj kvs, r)" for r
    using parse_members_text [of kvs gap "ind @ gap" "[]" "line gap ind" r] JObj.prems by simp
  have "kvs \<noteq> [] \<Longrightarrow> \<not> list_all (\<lambda>(_, v). v = JUndef) kvs" using ok by (cases kvs) auto
  then show ?case
    using JObj.prems(1) p members_text_first [OF _ ok JObj.prems(2) ws]
    by (cases "kvs = []") (simp_all add: reads_back_def parse_val.simps skip_ws_other)
qed (simp_all add: reads_back_def parse_val.simps js_startsWith_def)

lemma json_parse_text: "json_ok v \<Longrightarrow> all_ws gap \<Longrightarrow> json_parse (json_text gap [] v) = Inr v"
  using json_reads_back [of v gap "[]"] skip_ws_text [of v gap "[]" "[]"]
  by (simp add: reads_back_def stop_def json_parse_def skip_ws_def)

lemma json_parse_stringify: "json_ok v \<Longrightarrow> json_parse (json_stringify v) = Inr v"
  by (simp add: json_stringify_def json_parse_text)

lemma json_parse_stringify_indent: "json_ok v \<Longrightarrow> json_parse (json_stringify_indent v) = Inr v"
  by (simp add: json_stringify_indent_def json_parse_text all_ws_def json_ws_def)

interpretation json: codec json_stringify "\<lambda>s. case json_parse s of Inl _ \<Rightarrow> None | Inr v \<Rightarrow> Some v" json_ok
  by unfold_locales (simp add: json_parse_stringify)

end
