(* ===== verification/Js_Value.thy ===== *)
theory Js_Value
  imports Json_Round
begin

text \<open>
  The conversions of JavaScript values the program relies on: \<open>String\<close>, \<open>Number\<close> and
  \<open>BigInt\<close> of a parsed value, the sum and difference of numbers, and \<open>||\<close> and \<open>??\<close>.
\<close>

section \<open>Operators\<close>

definition js_or :: "jsval \<Rightarrow> jsval \<Rightarrow> jsval" where
  "js_or a b = (if js_truthy a then a else b)"

definition nullish :: "jsval \<Rightarrow> bool" where
  "nullish v = (v = JUndef \<or> v = JNull)"

definition js_coalesce :: "jsval \<Rightarrow> jsval \<Rightarrow> jsval" where
  "js_coalesce a b = (if nullish a then b else a)"

fun js_add :: "jsnum \<Rightarrow> jsnum \<Rightarrow> jsnum" where
  "js_add (Fin x) (Fin y) = round_double (x + y)"
| "js_add (Infinity s) (Fin _) = Infinity s"
| "js_add (Fin _) (Infinity s) = Infinity s"
| "js_add (Infinity s) (Infinity t) = (if s = t then Infinity s else NaN)"
| "js_add _ _ = NaN"

definition js_sub :: "jsnum \<Rightarrow> jsnum \<Rightarrow> jsnum" where
  "js_sub a b = js_add a (js_neg b)"

section \<open>\<open>String(v)\<close>\<close>

text \<open>An array is the texts of its elements, those of \<open>null\<close> and \<open>undefined\<close> empty.\<close>

fun js_String :: "jsval \<Rightarrow> string" where
  "js_String JUndef = ''undefined''"
| "js_String JNull = ''null''"
| "js_String (JBool b) = (if b then ''true'' else ''false'')"
| "js_String (JNum n) = js_numToString n"
| "js_String (JStr s) = s"
| "js_String (JArr vs) = js_join '','' (map (\<lambda>v. if nullish v then [] else js_String v) vs)"
| "js_String (JObj _) = ''[object Object]''"

section \<open>\<open>Number(v)\<close> and \<open>BigInt(v)\<close>\<close>

definition all_digits :: "string \<Rightarrow> bool" where
  "all_digits s = (s \<noteq> [] \<and> list_all dec_digit s)"

text \<open>The integer a literal with a radix prefix stands for.\<close>

definition radix_literal :: "string \<Rightarrow> int option" where
  "radix_literal s =
     (case map_of [(CHR ''x'', 16), (CHR ''X'', 16), (CHR ''o'', 8), (CHR ''O'', 8), (CHR ''b'', 2), (CHR ''B'', 2)] (hd (drop 1 s @ ''-'')) of
        None \<Rightarrow> None
      | Some r \<Rightarrow>
          let ds = drop 2 s; vs = take_digits r ds
          in if js_startsWith s ''0'' \<and> ds \<noteq> [] \<and> length vs = length ds then Some (from_base (int r) vs) else None)"

text \<open>A text that is one decimal literal from end to end, without its sign.\<close>

definition exponent_ok :: "string \<Rightarrow> bool" where
  "exponent_ok s = (case split_exponent s of None \<Rightarrow> False | Some (_, r) \<Rightarrow> r = [])"

definition decimal_literal :: "string \<Rightarrow> bool" where
  "decimal_literal s =
     (let ip = takeWhile dec_digit s; r = dropWhile dec_digit s in
      if r \<noteq> [] \<and> hd r = CHR ''.'' then
        let fp = takeWhile dec_digit (tl r); q = dropWhile dec_digit (tl r)
        in (ip \<noteq> [] \<or> fp \<noteq> []) \<and> exponent_ok q
      else ip \<noteq> [] \<and> exponent_ok r)"

definition js_StringToNumber :: "string \<Rightarrow> jsnum" where
  "js_StringToNumber s =
     (let t = js_trim s; u = snd (parse_sign t) in
      if t = [] then Fin 0
      else if u = ''Infinity'' \<or> decimal_literal u then js_parseFloat t
      else case radix_literal t of None \<Rightarrow> NaN | Some n \<Rightarrow> round_double (of_int n))"

fun js_toNumber :: "jsval \<Rightarrow> jsnum" where
  "js_toNumber JUndef = NaN"
| "js_toNumber JNull = Fin 0"
| "js_toNumber (JBool b) = Fin (if b then 1 else 0)"
| "js_toNumber (JNum n) = n"
| "js_toNumber v = js_StringToNumber (js_String v)"

definition js_StringToBigInt :: "string \<Rightarrow> int result" where
  "js_StringToBigInt s =
     (let t = js_trim s; (pos, u) = parse_sign t in
      if t = [] then Inr 0
      else if all_digits u then Inr (if pos then dec_val u else - dec_val u)
      else case radix_literal t of None \<Rightarrow> Inl SyntaxError | Some n \<Rightarrow> Inr n)"

fun js_toBigInt :: "jsval \<Rightarrow> int result" where
  "js_toBigInt JUndef = Inl TypeError"
| "js_toBigInt JNull = Inl TypeError"
| "js_toBigInt (JBool b) = Inr (if b then 1 else 0)"
| "js_toBigInt (JNum n) = js_BigInt n"
| "js_toBigInt v = js_StringToBigInt (js_String v)"

section \<open>Elements\<close>

text \<open>\<open>for ... of\<close> and the array methods need an array; a string iterates over its characters.\<close>

fun js_iter :: "jsval \<Rightarrow> jsval list result" where
  "js_iter (JArr vs) = Inr vs"
| "js_iter (JStr s) = Inr (map (\<lambda>c. JStr [c]) s)"
| "js_iter _ = Inl TypeError"

fun js_array :: "jsval \<Rightarrow> jsval list result" where
  "js_array (JArr vs) = Inr vs"
| "js_array _ = Inl TypeError"

definition js_int :: "int \<Rightarrow> jsval" where
  "js_int n = JNum (Fin (of_int n))"

section \<open>Printed integers\<close>

lemma js_trim_id:
  assumes "s \<noteq> []" "\<not> js_space (hd s)" "\<not> js_space (last s)"
  shows "js_trim s = s"
proof -
  have "dropWhile js_space s = s" using assms by (cases s) auto
  moreover have "\<not> js_space (hd (rev s))" "rev s \<noteq> []" using assms by (simp_all add: hd_rev)
  then have "dropWhile js_space (rev s) = rev s" by (cases "rev s") simp_all
  ultimately show ?thesis by (simp add: js_trim_def js_trim_start_def)
qed

lemma js_StringToBigInt_print:
  assumes "0 \<le> n"
  shows "js_StringToBigInt (js_toString 10 n) = Inr n"
proof -
  obtain ds where ds: "js_toString 10 n = map digit_char ds" "digits_ok ds" "ds \<noteq> []" "from_base 10 ds = n"
    using int_digits [OF assms] by blast
  have dd: "dec_digit c" if "c \<in> set (map digit_char ds)" for c
    using ds(2) that by (auto simp: digits_ok_def list_all_iff dec_digit_char)
  then have ends: "dec_digit (hd (map digit_char ds))" "dec_digit (last (map digit_char ds))"
    using ds(3) hd_in_set last_in_set map_is_Nil_conv by blast+
  have t: "js_trim (map digit_char ds) = map digit_char ds"
    using ds(3) digit_first(1) ends by (intro js_trim_id) auto
  have "parse_sign (map digit_char ds) = (True, map digit_char ds)"
    using ds(3) digit_first(2,3) [OF disjI1, OF ends(1)] by (cases ds) (auto simp: parse_sign_def)
  then show ?thesis
    using ds dd by (simp add: js_StringToBigInt_def t all_digits_def list_all_iff dec_val_digits)
qed

lemma js_toBigInt_print [simp]:
  "0 \<le> n \<Longrightarrow> js_toBigInt (JStr (js_toString 10 n)) = Inr n"
  "js_toBigInt (js_int n) = Inr n"
  by (simp_all add: js_StringToBigInt_print js_int_def)

end
