(* ===== verification/Keys.thy ===== *)
theory Keys
  imports Address BumpFee Js_Value
begin

text \<open>
  Recovery phrases and key derivation (\<open>crypto.js\<close>, the BIP39 and BIP32 section).
  The two libraries are parameters; the derivation paths are the program's own.
\<close>

section \<open>Definitions\<close>

text \<open>
  \<open>b_derive\<close> is \<open>HDKey.fromMasterSeed(seed).derive(path)\<close>, \<open>b_account\<close> the extended
  public key of that node serialised with the given version numbers, and \<open>b_child\<close>
  the public key \<open>HDKey.fromExtendedKey(xpub, versions).derive(path)\<close> gives.
\<close>

record bip_lib =
  b_generate :: "nat \<Rightarrow> string"
  b_validate :: "string \<Rightarrow> bool"
  b_seed :: "string \<Rightarrow> string \<Rightarrow> bytes"
  b_derive :: "bytes \<Rightarrow> string \<Rightarrow> key_pair result"
  b_account :: "bytes \<Rightarrow> nat \<times> nat \<Rightarrow> string \<Rightarrow> string result"
  b_child :: "string \<Rightarrow> nat \<times> nat \<Rightarrow> string \<Rightarrow> bytes result"

definition generateMnemonic :: "bip_lib \<Rightarrow> string" where
  "generateMnemonic B = b_generate B 128"

definition isValidMnemonic :: "bip_lib \<Rightarrow> string \<Rightarrow> bool" where
  "isValidMnemonic B mnemonic = b_validate B mnemonic"

definition account_path :: "network \<Rightarrow> string" where
  "account_path net =
     ''m/44'' @ [CHR 0x27] @ ''/'' @ js_toString 10 (int (bip44CoinType net)) @ [CHR 0x27] @ ''/0'' @ [CHR 0x27]"

definition key_path :: "network \<Rightarrow> bool \<Rightarrow> int \<Rightarrow> string" where
  "key_path net change index =
     ''m/44'' @ [CHR 0x27] @ ''/'' @ js_toString 10 (int (bip44CoinType net)) @ [CHR 0x27] @ ''/0'' @ [CHR 0x27] @ ''/'' @
     (if change then ''1'' else ''0'') @ ''/'' @ js_toString 10 index"

definition deriveKey :: "bip_lib \<Rightarrow> string \<Rightarrow> network \<Rightarrow> int \<Rightarrow> string \<Rightarrow> bool \<Rightarrow> key_pair result" where
  "deriveKey B mnemonic net index passphrase change =
     b_derive B (b_seed B mnemonic passphrase) (key_path net change index)"

definition bip32Versions :: "network \<Rightarrow> nat \<times> nat" where
  "bip32Versions net = (bip32Private net, bip32Public net)"

definition deriveAccountXpub :: "bip_lib \<Rightarrow> string \<Rightarrow> network \<Rightarrow> string \<Rightarrow> string result" where
  "deriveAccountXpub B mnemonic net passphrase =
     b_account B (b_seed B mnemonic passphrase) (bip32Versions net) (account_path net)"

definition deriveXpubAddress :: "hash_fun \<Rightarrow> hash_fun \<Rightarrow> bip_lib \<Rightarrow> string \<Rightarrow> network \<Rightarrow> int \<Rightarrow> string result" where
  "deriveXpubAddress sha256 ripemd160 B xpub net index =
     bindr (b_child B xpub (bip32Versions net) (''m/0/'' @ js_toString 10 index)) (\<lambda>publicKey.
       p2pkhAddress sha256 (hash160 sha256 ripemd160 publicKey) net)"

section \<open>Watching an account shows the account's addresses\<close>

text \<open>
  What BIP32 documents: the public key derived from a node's extended public key
  along a path without hardened steps is that of the private derivation along the
  concatenated path.
\<close>

definition public_derivation :: "bip_lib \<Rightarrow> bool" where
  "public_derivation B =
     (\<forall>seed v p xpub rest k. b_account B seed v p = Inr xpub \<longrightarrow> CHR 0x27 \<notin> set rest \<longrightarrow>
        b_derive B seed (p @ rest) = Inr k \<longrightarrow> b_child B xpub v (CHR ''m'' # rest) = Inr (kp_public k))"

lemma js_toString_plain: "0 \<le> n \<Longrightarrow> CHR 0x27 \<notin> set (js_toString 10 n)"
proof -
  assume "0 \<le> n"
  then obtain ds where ds: "js_toString 10 n = map digit_char ds" "digits_ok ds" using int_digits by blast
  have "digit_char d \<noteq> CHR 0x27" if "d < 10" for d
    using dec_digit_char [OF that] by (auto simp: dec_digit_def digit_val_def)
  with ds show ?thesis by (force simp: digits_ok_def list_all_iff)
qed

lemma key_path_account: "key_path net False index = account_path net @ ''/0/'' @ js_toString 10 index"
  by (simp add: key_path_def account_path_def)

definition sample_bip :: bip_lib where
  "sample_bip = \<lparr>b_generate = \<lambda>_. ''abandon'', b_validate = \<lambda>m. m = ''abandon'', b_seed = \<lambda>m p. map (of_nat \<circ> of_char) (m @ p),
     b_derive = \<lambda>seed path. Inr \<lparr>kp_private = seed @ map (of_nat \<circ> of_char) path, kp_public = map (of_nat \<circ> of_char) path\<rparr>,
     b_account = \<lambda>seed v path. Inr path,
     b_child = \<lambda>xpub v path. Inr (map (of_nat \<circ> of_char) (xpub @ drop 1 path))\<rparr>"

lemma sample_public_derivation: "public_derivation sample_bip"
  by (auto simp: public_derivation_def sample_bip_def)



text \<open>
  Different positions in the wallet have different derivation paths: the
  path determines the chain (external or change) and the index.
\<close>

lemma key_path_injective:
  assumes "0 \<le> i" "0 \<le> j" "key_path net c i = key_path net d j"
  shows "c = d \<and> i = j"
proof -
  have eq: "(if c then ''1'' else ''0'') @ ''/'' @ js_toString 10 i = (if d then ''1'' else ''0'') @ ''/'' @ js_toString 10 j"
    using assms(3) unfolding key_path_def by (simp only: same_append_eq)
  then have "c = d" "js_toString 10 i = js_toString 10 j" by (simp_all split: if_splits)
  with assms(1,2) show ?thesis by (metis js_StringToBigInt_print sum.inject(2))
qed

lemma key_path_injective_witness:
  "key_path mainnet False 1 \<noteq> key_path mainnet False 11"
  using key_path_injective [of 1 11 mainnet False False] by auto

end
