(* ===== verification/Io.thy ===== *)
theory Io
  imports Prelude
begin

text \<open>
  Code with effects: a function from the state before to what it returns or throws
  and the state after. A throw keeps the changes made before it, as in JavaScript.
  Statements compose with \<open>bindm\<close> and \<open>do_all\<close>; \<open>await\<close> is \<open>bindm\<close> and a promise
  nobody awaits is \<open>spawn\<close>. The second half computes weakest preconditions, which
  the simplifier evaluates along a handler, and derives frame rules from them.
\<close>

section \<open>Statements\<close>

type_synonym ('s, 'a) io = "'s \<Rightarrow> 'a result \<times> 's"

definition ret :: "'a \<Rightarrow> ('s, 'a) io" where
  "ret x = (\<lambda>s. (Inr x, s))"

definition throwm :: "js_error \<Rightarrow> ('s, 'a) io" where
  "throwm e = (\<lambda>s. (Inl e, s))"

definition liftr :: "'a result \<Rightarrow> ('s, 'a) io" where
  "liftr r = (\<lambda>s. (r, s))"

definition getm :: "('s \<Rightarrow> 'a) \<Rightarrow> ('s, 'a) io" where
  "getm g = (\<lambda>s. (Inr (g s), s))"

definition modm :: "('s \<Rightarrow> 's) \<Rightarrow> ('s, unit) io" where
  "modm f = (\<lambda>s. (Inr (), f s))"

definition bindm :: "('s, 'a) io \<Rightarrow> ('a \<Rightarrow> ('s, 'b) io) \<Rightarrow> ('s, 'b) io" where
  "bindm m f = (\<lambda>s. case m s of (Inl e, s') \<Rightarrow> (Inl e, s') | (Inr x, s') \<Rightarrow> f x s')"

definition thenm :: "('s, unit) io \<Rightarrow> ('s, 'b) io \<Rightarrow> ('s, 'b) io" where
  "thenm m n = bindm m (\<lambda>_. n)"

fun do_all :: "('s, unit) io list \<Rightarrow> ('s, unit) io" where
  "do_all [] = ret ()"
| "do_all (m # ms) = thenm m (do_all ms)"

definition catchm :: "('s, 'a) io \<Rightarrow> (js_error \<Rightarrow> ('s, 'a) io) \<Rightarrow> ('s, 'a) io" where
  "catchm m h = (\<lambda>s. case m s of (Inl e, s') \<Rightarrow> h e s' | (Inr x, s') \<Rightarrow> (Inr x, s'))"

text \<open>\<open>try ... finally\<close>, and a call whose outcome is not looked at.\<close>

definition finallym :: "('s, 'a) io \<Rightarrow> ('s, unit) io \<Rightarrow> ('s, 'a) io" where
  "finallym m f = bindm (catchm m (\<lambda>e. thenm f (throwm e))) (\<lambda>x. thenm f (ret x))"

definition spawn :: "('s, 'a) io \<Rightarrow> ('s, unit) io" where
  "spawn m = (\<lambda>s. (Inr (), snd (m s)))"

definition whenm :: "bool \<Rightarrow> ('s, unit) io \<Rightarrow> ('s, unit) io" where
  "whenm b m = (if b then m else ret ())"

fun mapm :: "('a \<Rightarrow> ('s, 'b) io) \<Rightarrow> 'a list \<Rightarrow> ('s, 'b list) io" where
  "mapm f [] = ret []"
| "mapm f (x # xs) = bindm (f x) (\<lambda>y. bindm (mapm f xs) (\<lambda>ys. ret (y # ys)))"

definition form :: "'a list \<Rightarrow> ('a \<Rightarrow> ('s, unit) io) \<Rightarrow> ('s, unit) io" where
  "form xs f = do_all (map f xs)"

text \<open>A loop that carries a value from one round to the next.\<close>

fun foldm :: "('a \<Rightarrow> 'b \<Rightarrow> ('s, 'b) io) \<Rightarrow> 'a list \<Rightarrow> 'b \<Rightarrow> ('s, 'b) io" where
  "foldm f [] b = ret b"
| "foldm f (x # xs) b = bindm (f x b) (foldm f xs)"

section \<open>Weakest preconditions\<close>

definition wp :: "('s, 'a) io \<Rightarrow> ('a \<Rightarrow> 's \<Rightarrow> bool) \<Rightarrow> (js_error \<Rightarrow> 's \<Rightarrow> bool) \<Rightarrow> 's \<Rightarrow> bool" where
  "wp m Q E s = (case m s of (Inl e, s') \<Rightarrow> E e s' | (Inr x, s') \<Rightarrow> Q x s')"

named_theorems wp_simps \<open>weakest preconditions of the statements\<close>

lemma wp_basic [wp_simps]:
  "wp (ret x) Q E = Q x"
  "wp (throwm e) Q E = E e"
  "wp (liftr r) Q E = (case r of Inl e \<Rightarrow> E e | Inr x \<Rightarrow> Q x)"
  "wp (getm g) Q E = (\<lambda>s. Q (g s) s)"
  by (rule ext, simp add: wp_def ret_def throwm_def liftr_def getm_def split: sum.splits)+

lemma wp_modm [wp_simps]: "wp (modm f) Q E = (\<lambda>s. Q () (f s))"
  by (rule ext) (simp add: wp_def modm_def)

lemma wp_bindm [wp_simps]: "wp (bindm m f) Q E = wp m (\<lambda>x. wp (f x) Q E) E"
  by (rule ext, simp add: wp_def bindm_def split: prod.splits sum.splits)

lemma wp_thenm [wp_simps]: "wp (thenm m n) Q E = wp m (\<lambda>_. wp n Q E) E"
  by (simp add: thenm_def wp_bindm)

lemma wp_catchm [wp_simps]: "wp (catchm m h) Q E = wp m Q (\<lambda>e. wp (h e) Q E)"
  by (rule ext, simp add: wp_def catchm_def split: prod.splits sum.splits)

lemma wp_finallym [wp_simps]:
  "wp (finallym m f) Q E = wp m (\<lambda>x. wp f (\<lambda>_. Q x) E) (\<lambda>e. wp f (\<lambda>_. E e) E)"
  by (simp add: finallym_def wp_simps)

lemma wp_spawn [wp_simps]: "wp (spawn m) Q E = wp m (\<lambda>_. Q ()) (\<lambda>_. Q ())"
  by (rule ext, simp add: wp_def spawn_def split: prod.splits sum.splits)

lemma wp_whenm [wp_simps]: "wp (whenm b m) Q E = (if b then wp m Q E else Q ())"
  by (simp add: whenm_def wp_simps)

lemma wp_do_all [wp_simps]:
  "wp (do_all []) Q E = Q ()"
  "wp (do_all (m # ms)) Q E = wp m (\<lambda>_. wp (do_all ms) Q E) E"
  by (simp_all add: wp_simps)

lemma wp_form [wp_simps]:
  "wp (form [] f) Q E = Q ()"
  "wp (form (x # xs) f) Q E = wp (f x) (\<lambda>_. wp (form xs f) Q E) E"
  by (simp_all add: form_def wp_simps)

lemma wp_foldm [wp_simps]:
  "wp (foldm f [] b) Q E = Q b"
  "wp (foldm f (x # xs) b) Q E = wp (f x b) (\<lambda>c. wp (foldm f xs c) Q E) E"
  by (simp_all add: wp_simps)

lemma wp_mapm [wp_simps]:
  "wp (mapm f []) Q E = Q []"
  "wp (mapm f (x # xs)) Q E = wp (f x) (\<lambda>y. wp (mapm f xs) (\<lambda>ys. Q (y # ys)) E) E"
  by (simp_all add: wp_simps)

lemma wp_if [wp_simps]: "wp (if b then m else n) Q E = (if b then wp m Q E else wp n Q E)"
  by simp

lemma wp_mono:
  "wp m Q E s \<Longrightarrow> (\<And>x t. Q x t \<Longrightarrow> Q' x t) \<Longrightarrow> (\<And>e t. E e t \<Longrightarrow> E' e t) \<Longrightarrow> wp m Q' E' s"
  by (simp add: wp_def split: prod.splits sum.splits)

lemma wp_conj: "wp m (\<lambda>x t. Q x t \<and> Q' x t) (\<lambda>e t. E e t \<and> E' e t) s \<longleftrightarrow> wp m Q E s \<and> wp m Q' E' s"
  by (simp add: wp_def split: prod.splits sum.splits)

lemma wp_Inr: "m s = (Inr x, t) \<Longrightarrow> wp m Q E s = Q x t"
  by (simp add: wp_def)

lemma wp_Inl: "m s = (Inl e, t) \<Longrightarrow> wp m Q E s = E e t"
  by (simp add: wp_def)

lemma wp_snd: "wp m (\<lambda>_. P) (\<lambda>_. P) s \<longleftrightarrow> P (snd (m s))"
  by (simp add: wp_def split: prod.splits sum.splits)

section \<open>Invariants\<close>

definition pres :: "('s \<Rightarrow> bool) \<Rightarrow> ('s, 'a) io \<Rightarrow> bool" where
  "pres P m = (\<forall>s. P s \<longrightarrow> P (snd (m s)))"

named_theorems pres_intros \<open>what keeps an invariant\<close>

lemma pres_wp: "pres P m \<longleftrightarrow> (\<forall>s. P s \<longrightarrow> wp m (\<lambda>_. P) (\<lambda>_. P) s)"
  by (simp add: pres_def wp_snd)

lemma pres_basic [pres_intros]: "pres P (ret x)" "pres P (throwm e)" "pres P (liftr r)" "pres P (getm g)"
  by (simp_all add: pres_def ret_def throwm_def liftr_def getm_def)

lemma pres_modm: "(\<And>s. P s \<Longrightarrow> P (f s)) \<Longrightarrow> pres P (modm f)"
  by (simp add: pres_def modm_def)

lemma pres_bindm [pres_intros]: "pres P m \<Longrightarrow> (\<And>x. pres P (f x)) \<Longrightarrow> pres P (bindm m f)"
  by (auto simp: pres_def bindm_def split: prod.splits sum.splits)

lemma pres_thenm [pres_intros]: "pres P m \<Longrightarrow> pres P n \<Longrightarrow> pres P (thenm m n)"
  by (simp add: thenm_def pres_bindm)

lemma pres_catchm [pres_intros]: "pres P m \<Longrightarrow> (\<And>e. pres P (h e)) \<Longrightarrow> pres P (catchm m h)"
  by (auto simp: pres_def catchm_def split: prod.splits sum.splits)

lemma pres_finallym [pres_intros]: "pres P m \<Longrightarrow> pres P f \<Longrightarrow> pres P (finallym m f)"
  by (simp add: finallym_def pres_intros)

lemma pres_spawn [pres_intros]: "pres P m \<Longrightarrow> pres P (spawn m)"
  by (simp add: pres_def spawn_def)

lemma pres_whenm [pres_intros]: "(b \<Longrightarrow> pres P m) \<Longrightarrow> pres P (whenm b m)"
  by (simp add: whenm_def pres_intros)

lemma pres_if [pres_intros]: "(b \<Longrightarrow> pres P m) \<Longrightarrow> (\<not> b \<Longrightarrow> pres P n) \<Longrightarrow> pres P (if b then m else n)"
  by simp

lemma pres_do_all [pres_intros]: "list_all (pres P) ms \<Longrightarrow> pres P (do_all ms)"
  by (induction ms) (simp_all add: pres_intros)

lemma pres_form [pres_intros]: "(\<And>x. x \<in> set xs \<Longrightarrow> pres P (f x)) \<Longrightarrow> pres P (form xs f)"
  by (auto simp: form_def list_all_iff intro: pres_do_all)

lemma pres_foldm [pres_intros]: "(\<And>x b. x \<in> set xs \<Longrightarrow> pres P (f x b)) \<Longrightarrow> pres P (foldm f xs b)"
  by (induction xs arbitrary: b) (simp_all add: pres_intros)

lemma pres_mapm [pres_intros]: "(\<And>x. x \<in> set xs \<Longrightarrow> pres P (f x)) \<Longrightarrow> pres P (mapm f xs)"
  by (induction xs) (simp_all add: pres_intros)

lemma pres_option [pres_intros]:
  "pres P m \<Longrightarrow> (\<And>x. pres P (f x)) \<Longrightarrow> pres P (case v of None \<Rightarrow> m | Some x \<Rightarrow> f x)"
  by (cases v) simp_all

lemma pres_prod [pres_intros]: "(\<And>x y. pres P (f x y)) \<Longrightarrow> pres P (case p of (x, y) \<Rightarrow> f x y)"
  by (cases p) simp

text \<open>Running something that keeps an invariant, then relying on the invariant.\<close>

lemma wp_pres:
  "pres P m \<Longrightarrow> P s \<Longrightarrow> (\<And>x t. P t \<Longrightarrow> Q x t) \<Longrightarrow> (\<And>e t. P t \<Longrightarrow> E e t) \<Longrightarrow> wp m Q E s"
  by (simp add: pres_def wp_def split: prod.splits sum.splits) (metis snd_conv)

lemma pres_conj: "pres P m \<Longrightarrow> pres R m \<Longrightarrow> pres (\<lambda>s. P s \<and> R s) m"
  by (simp add: pres_def)

end
