(* ===== verification/Browser.thy ===== *)
theory Browser
  imports Io Js_Value
begin

text \<open>
  The browser as the two pages see it: storage, the elements of the page, requests
  sent so far. Elements are the ones \<open>index.html\<close> declares, named by their id;
  no element has both its text and its markup assigned. What the platform decides
  (responses, whether a write fits into the storage quota, the engine's error
  texts) is the parameter \<open>platform\<close>.
\<close>

section \<open>State\<close>

record request =
  rq_method :: string
  rq_url :: string
  rq_headers :: "(string \<times> string) list"
  rq_body :: "string option"

record response =
  rs_ok :: bool
  rs_status :: int
  rs_body :: string

record browser =
  localStore :: "string \<rightharpoonup> string"
  sessionStore :: "string \<rightharpoonup> string"
  textContent :: "string \<Rightarrow> string"
  innerHTML :: "string \<Rightarrow> string"
  inputValue :: "string \<Rightarrow> string"
  display :: "string \<Rightarrow> string"
  disabled :: "string \<Rightarrow> bool"
  active :: "string \<Rightarrow> bool"
  requests :: "request list"
  opened :: "string list"
  clipboard :: "string option"

text \<open>The responses may depend on every request sent before.\<close>

record platform =
  p_fetch :: "request list \<Rightarrow> request \<Rightarrow> response result"
  p_fits :: "(string \<rightharpoonup> string) \<Rightarrow> bool"
  p_message :: "js_error \<Rightarrow> string"
  p_string :: "js_error \<Rightarrow> string"

section \<open>Storage\<close>

definition getItem :: "string \<Rightarrow> ('b browser_scheme, string option) io" where
  "getItem k = getm (\<lambda>s. localStore s k)"

definition setItem :: "'p platform_scheme \<Rightarrow> string \<Rightarrow> string \<Rightarrow> ('b browser_scheme, unit) io" where
  "setItem P k v =
     bindm (getm localStore) (\<lambda>st.
       if p_fits P (st(k \<mapsto> v)) then modm (\<lambda>s. s\<lparr>localStore := (localStore s)(k \<mapsto> v)\<rparr>)
       else throwm DOMException)"

definition removeItem :: "string \<Rightarrow> ('b browser_scheme, unit) io" where
  "removeItem k = modm (\<lambda>s. s\<lparr>localStore := (localStore s)(k := None)\<rparr>)"

definition session_setItem :: "'p platform_scheme \<Rightarrow> string \<Rightarrow> string \<Rightarrow> ('b browser_scheme, unit) io" where
  "session_setItem P k v =
     bindm (getm sessionStore) (\<lambda>st.
       if p_fits P (st(k \<mapsto> v)) then modm (\<lambda>s. s\<lparr>sessionStore := (sessionStore s)(k \<mapsto> v)\<rparr>)
       else throwm DOMException)"

definition session_removeItem :: "string \<Rightarrow> ('b browser_scheme, unit) io" where
  "session_removeItem k = modm (\<lambda>s. s\<lparr>sessionStore := (sessionStore s)(k := None)\<rparr>)"

text \<open>\<open>getItem(k) || d\<close>: an absent item and the empty text give the default.\<close>

definition item_or :: "string option \<Rightarrow> string \<Rightarrow> string" where
  "item_or x d = (case x of None \<Rightarrow> d | Some s \<Rightarrow> if s = [] then d else s)"

section \<open>Elements\<close>

definition set_text :: "string \<Rightarrow> string \<Rightarrow> ('b browser_scheme, unit) io" where
  "set_text i v = modm (\<lambda>s. s\<lparr>textContent := (textContent s)(i := v)\<rparr>)"

definition set_html :: "string \<Rightarrow> string \<Rightarrow> ('b browser_scheme, unit) io" where
  "set_html i v = modm (\<lambda>s. s\<lparr>innerHTML := (innerHTML s)(i := v)\<rparr>)"

definition set_value :: "string \<Rightarrow> string \<Rightarrow> ('b browser_scheme, unit) io" where
  "set_value i v = modm (\<lambda>s. s\<lparr>inputValue := (inputValue s)(i := v)\<rparr>)"

definition set_display :: "string \<Rightarrow> string \<Rightarrow> ('b browser_scheme, unit) io" where
  "set_display i v = modm (\<lambda>s. s\<lparr>display := (display s)(i := v)\<rparr>)"

definition set_disabled :: "string \<Rightarrow> bool \<Rightarrow> ('b browser_scheme, unit) io" where
  "set_disabled i v = modm (\<lambda>s. s\<lparr>disabled := (disabled s)(i := v)\<rparr>)"

definition set_active :: "string \<Rightarrow> bool \<Rightarrow> ('b browser_scheme, unit) io" where
  "set_active i v = modm (\<lambda>s. s\<lparr>active := (active s)(i := v)\<rparr>)"

definition get_value :: "string \<Rightarrow> ('b browser_scheme, string) io" where
  "get_value i = getm (\<lambda>s. inputValue s i)"

definition get_text :: "string \<Rightarrow> ('b browser_scheme, string) io" where
  "get_text i = getm (\<lambda>s. textContent s i)"

definition window_open :: "string \<Rightarrow> ('b browser_scheme, unit) io" where
  "window_open u = modm (\<lambda>s. s\<lparr>opened := opened s @ [u]\<rparr>)"

section \<open>Requests\<close>

definition fetch :: "'p platform_scheme \<Rightarrow> request \<Rightarrow> ('b browser_scheme, response) io" where
  "fetch P r =
     bindm (getm requests) (\<lambda>sent.
       thenm (modm (\<lambda>s. s\<lparr>requests := requests s @ [r]\<rparr>)) (liftr (p_fetch P sent r)))"

section \<open>Errors\<close>

text \<open>\<open>e.message\<close> and \<open>String(e)\<close>; \<open>GatewayError\<close> keeps the name of its base class.\<close>

fun err_message :: "'p platform_scheme \<Rightarrow> js_error \<Rightarrow> string" where
  "err_message P (Error m) = m"
| "err_message P (GatewayError _ m) = m"
| "err_message P e = p_message P e"

definition error_string :: "string \<Rightarrow> string" where
  "error_string m = (if m = [] then ''Error'' else ''Error: '' @ m)"

fun err_string :: "'p platform_scheme \<Rightarrow> js_error \<Rightarrow> string" where
  "err_string P (Error m) = error_string m"
| "err_string P (GatewayError _ m) = error_string m"
| "err_string P e = p_string P e"

text \<open>\<open>e instanceof GatewayError ? e.message : ...\<close>\<close>

definition gateway_or :: "js_error \<Rightarrow> string \<Rightarrow> string" where
  "gateway_or e other = (case e of GatewayError _ m \<Rightarrow> m | _ \<Rightarrow> other)"

definition or_text :: "string \<Rightarrow> string \<Rightarrow> string" where
  "or_text s d = (if s = [] then d else s)"

section \<open>Frame rules\<close>

lemmas dom_defs = set_text_def set_html_def set_value_def set_display_def set_disabled_def set_active_def
  window_open_def

lemmas read_defs = getItem_def get_value_def get_text_def

lemma wp_setItem [wp_simps]:
  "wp (setItem P k v) Q E s =
     (if p_fits P ((localStore s)(k \<mapsto> v)) then Q () (s\<lparr>localStore := (localStore s)(k \<mapsto> v)\<rparr>) else E DOMException s)"
  by (simp add: setItem_def wp_simps)

lemma wp_removeItem [wp_simps]: "wp (removeItem k) Q E s = Q () (s\<lparr>localStore := (localStore s)(k := None)\<rparr>)"
  by (simp add: removeItem_def wp_simps)

lemma wp_session [wp_simps]:
  "wp (session_setItem P k v) Q E s =
     (if p_fits P ((sessionStore s)(k \<mapsto> v)) then Q () (s\<lparr>sessionStore := (sessionStore s)(k \<mapsto> v)\<rparr>) else E DOMException s)"
  "wp (session_removeItem k) Q E s = Q () (s\<lparr>sessionStore := (sessionStore s)(k := None)\<rparr>)"
  by (simp_all add: session_setItem_def session_removeItem_def wp_simps)

lemma wp_dom [wp_simps]:
  "wp (set_text i v) Q E s = Q () (s\<lparr>textContent := (textContent s)(i := v)\<rparr>)"
  "wp (set_html i v) Q E s = Q () (s\<lparr>innerHTML := (innerHTML s)(i := v)\<rparr>)"
  "wp (set_value i v) Q E s = Q () (s\<lparr>inputValue := (inputValue s)(i := v)\<rparr>)"
  "wp (set_display i v) Q E s = Q () (s\<lparr>display := (display s)(i := v)\<rparr>)"
  "wp (set_disabled i b) Q E s = Q () (s\<lparr>disabled := (disabled s)(i := b)\<rparr>)"
  "wp (set_active i b) Q E s = Q () (s\<lparr>active := (active s)(i := b)\<rparr>)"
  "wp (window_open v) Q E s = Q () (s\<lparr>opened := opened s @ [v]\<rparr>)"
  by (simp_all add: dom_defs wp_simps)

lemma wp_read [wp_simps]:
  "wp (get_value i) R F s = R (inputValue s i) s"
  "wp (get_text i) R F s = R (textContent s i) s"
  by (simp_all add: read_defs wp_simps)

lemma wp_getItem [wp_simps]: "wp (getItem k) Q E s = Q (localStore s k) s"
  by (simp add: read_defs wp_simps)

lemma wp_fetch [wp_simps]:
  "wp (fetch P r) Q E s =
     (case p_fetch P (requests s) r of Inl e \<Rightarrow> E e (s\<lparr>requests := requests s @ [r]\<rparr>)
      | Inr x \<Rightarrow> Q x (s\<lparr>requests := requests s @ [r]\<rparr>))"
  by (simp add: fetch_def wp_simps split: sum.splits)

lemma pres_read [pres_intros]: "pres P (getItem k)" "pres P (get_value i)" "pres P (get_text i)"
  by (simp_all add: read_defs pres_intros)

text \<open>Predicates that do not look at the page, and those a request keeps.\<close>

definition dom_free :: "('b browser_scheme \<Rightarrow> bool) \<Rightarrow> bool" where
  "dom_free P =
     ((\<forall>s f. P s \<longrightarrow> P (s\<lparr>textContent := f\<rparr>)) \<and> (\<forall>s f. P s \<longrightarrow> P (s\<lparr>innerHTML := f\<rparr>)) \<and>
      (\<forall>s f. P s \<longrightarrow> P (s\<lparr>inputValue := f\<rparr>)) \<and> (\<forall>s f. P s \<longrightarrow> P (s\<lparr>display := f\<rparr>)) \<and>
      (\<forall>s f. P s \<longrightarrow> P (s\<lparr>disabled := f\<rparr>)) \<and> (\<forall>s f. P s \<longrightarrow> P (s\<lparr>active := f\<rparr>)) \<and>
      (\<forall>s f. P s \<longrightarrow> P (s\<lparr>opened := f\<rparr>)))"

definition request_free :: "('b browser_scheme \<Rightarrow> bool) \<Rightarrow> string \<Rightarrow> bool" where
  "request_free P m = (\<forall>s r. rq_method r = m \<longrightarrow> P s \<longrightarrow> P (s\<lparr>requests := requests s @ [r]\<rparr>))"

lemma pres_dom [pres_intros]:
  assumes "dom_free P"
  shows "pres P (set_text i v)" "pres P (set_html i v)" "pres P (set_value i v)" "pres P (set_display i v)"
    "pres P (set_disabled i b)" "pres P (set_active i b)" "pres P (window_open v)"
  using assms by (simp_all add: dom_free_def pres_wp wp_simps)

lemma pres_fetch: "request_free P (rq_method r) \<Longrightarrow> pres P (fetch Pl r)"
  by (simp add: request_free_def pres_wp wp_simps split: sum.splits)

text \<open>A predicate of the stored items only changes with the storage.\<close>

lemma pres_setItem: "(\<And>s. P s \<Longrightarrow> P (s\<lparr>localStore := (localStore s)(k \<mapsto> v)\<rparr>)) \<Longrightarrow> pres P (setItem Pl k v)"
  by (simp add: pres_wp wp_simps)

lemma pres_removeItem: "(\<And>s. P s \<Longrightarrow> P (s\<lparr>localStore := (localStore s)(k := None)\<rparr>)) \<Longrightarrow> pres P (removeItem k)"
  by (simp add: pres_wp wp_simps)

lemma pres_session:
  "(\<And>s f. P s \<Longrightarrow> P (s\<lparr>sessionStore := f\<rparr>)) \<Longrightarrow> pres P (session_setItem Pl k v)"
  "(\<And>s f. P s \<Longrightarrow> P (s\<lparr>sessionStore := f\<rparr>)) \<Longrightarrow> pres P (session_removeItem k)"
  by (simp_all add: pres_wp wp_simps)

end
