(* ===== verification/Stored.thy ===== *)
theory Stored
  imports Browser
begin

text \<open>
  Lists and tables the page keeps as JSON text under one storage key. The interface
  is what the screens rely on: a saved value is loaded again, and a refused write
  changes nothing.
\<close>

section \<open>Interface\<close>

locale json_store =
  fixes load :: "('s, 'a) io"
    and save :: "'a \<Rightarrow> ('s, unit) io"
    and ok :: "'a \<Rightarrow> bool"
  assumes load_saved: "ok x \<Longrightarrow> save x s = (Inr (), t) \<Longrightarrow> load t = (Inr x, t)"
    and save_refused: "save x s = (Inl e, t) \<Longrightarrow> t = s"
begin

text \<open>Loading, changing and saving: the change is what is loaded next, or nothing happened.\<close>

lemma update_loaded:
  assumes "load s = (Inr x, s)" "ok (f x)" "bindm load (\<lambda>x. save (f x)) s = (Inr (), t)"
  shows "load t = (Inr (f x), t)"
  using assms load_saved by (simp add: bindm_def)

lemma update_refused:
  assumes "load s = (Inr x, s)" "bindm load (\<lambda>x. save (f x)) s = (Inl e, t)"
  shows "t = s"
  using assms save_refused by (simp add: bindm_def)

lemma updates_compose:
  assumes "load s = (Inr x, s)" "ok (f x)" "ok (g (f x))" "bindm load (\<lambda>x. save (f x)) s = (Inr (), t)"
    "bindm load (\<lambda>x. save (g x)) t = (Inr (), u)"
  shows "load u = (Inr (g (f x)), u)"
  using update_loaded [OF update_loaded [OF assms(1,2,4)] assms(3,5)] .

end

section \<open>JSON text under a key\<close>

definition load_json :: "string \<Rightarrow> jsval \<Rightarrow> ('b browser_scheme, jsval) io" where
  "load_json k d =
     bindm (getItem k) (\<lambda>raw. if item_or raw [] = [] then ret d else liftr (json_parse (item_or raw [])))"

lemma setItem_run:
  "setItem P k v s = (Inr (), t) \<Longrightarrow> t = s\<lparr>localStore := (localStore s)(k \<mapsto> v)\<rparr>"
  "setItem P k v s = (Inl e, t) \<Longrightarrow> t = s"
  by (auto simp: setItem_def bindm_def getm_def modm_def throwm_def split: if_splits)

lemma json_stringify_nonempty: "json_ok v \<Longrightarrow> json_stringify v \<noteq> []"
  using json_text_first [of v "[]" "[]"] by (auto simp: json_stringify_def)

lemma load_json_stored:
  assumes "localStore t k = Some (json_stringify v)" "json_ok v"
  shows "load_json k d t = (Inr v, t)"
  using assms json_stringify_nonempty [OF assms(2)]
  by (simp add: load_json_def getItem_def getm_def bindm_def liftr_def item_or_def json_parse_stringify)

lemma load_json_saved:
  assumes "setItem P k (json_stringify v) s = (Inr (), t)" "json_ok v"
  shows "load_json k d t = (Inr v, t)"
  using setItem_run(1) [OF assms(1)] assms(2) by (intro load_json_stored) simp_all

section \<open>Lists\<close>

definition load_list :: "string \<Rightarrow> ('b browser_scheme, jsval list) io" where
  "load_list k = bindm (load_json k (JArr [])) (\<lambda>v. liftr (js_array v))"

definition save_list :: "'p platform_scheme \<Rightarrow> string \<Rightarrow> jsval list \<Rightarrow> ('b browser_scheme, unit) io" where
  "save_list P k vs = setItem P k (json_stringify (JArr vs))"

interpretation json_list: json_store "load_list k" "save_list P k" "list_all json_ok" for k P
proof
  show "load_list k t = (Inr vs, t)" if "list_all json_ok vs" "save_list P k vs s = (Inr (), t)" for vs s t
    using that load_json_saved [of P k "JArr vs" s t "JArr []"]
    by (simp add: load_list_def save_list_def bindm_def liftr_def)
  show "t = s" if "save_list P k vs s = (Inl e, t)" for vs s t e
    using that setItem_run(2) by (simp add: save_list_def)
qed

lemma load_list_keeps: "load_list k s = (r, t) \<Longrightarrow> t = s"
  by (auto simp: load_list_def load_json_def getItem_def getm_def bindm_def liftr_def ret_def split: if_splits prod.splits sum.splits)

lemma pres_load [pres_intros]: "pres P (load_json k d)" "pres P (load_list k)"
  by (simp_all add: load_json_def load_list_def pres_intros)

end
