(* ===== verification/Utf8.thy ===== *)
theory Utf8
  imports Codec
begin

text \<open>
  \<open>TextEncoder\<close> and \<open>TextDecoder\<close>: a JavaScript string as a list of UTF-16
  code units, its scalar values (a lone surrogate becomes U+FFFD), their UTF-8
  bytes, and the platform's decoder with its replacement of malformed input
  and its stripping of a leading byte-order mark.
\<close>

section \<open>Code units and scalar values\<close>

definition is_high :: "nat \<Rightarrow> bool" where "is_high u \<longleftrightarrow> 0xD800 \<le> u \<and> u < 0xDC00"
definition is_low :: "nat \<Rightarrow> bool" where "is_low u \<longleftrightarrow> 0xDC00 \<le> u \<and> u < 0xE000"

fun to_scalars :: "nat list \<Rightarrow> nat list" where
  "to_scalars [] = []"
| "to_scalars [u] = [if is_high u \<or> is_low u then 0xFFFD else u]"
| "to_scalars (u # v # us) =
     (if is_high u \<and> is_low v
      then (0x10000 + (u - 0xD800) * 0x400 + (v - 0xDC00)) # to_scalars us
      else (if is_high u \<or> is_low u then 0xFFFD else u) # to_scalars (v # us))"

definition scalar_units :: "nat \<Rightarrow> nat list" where
  "scalar_units c =
     (if c < 0x10000 then [c]
      else [0xD800 + (c - 0x10000) div 0x400, 0xDC00 + (c - 0x10000) mod 0x400])"

definition from_scalars :: "nat list \<Rightarrow> nat list" where
  "from_scalars cs = concat (map scalar_units cs)"

text \<open>A well-formed string has only paired surrogates.\<close>

fun wf_units :: "nat list \<Rightarrow> bool" where
  "wf_units [] = True"
| "wf_units [u] = (u < 0x10000 \<and> \<not> is_high u \<and> \<not> is_low u)"
| "wf_units (u # v # us) =
     (if is_high u \<and> is_low v then wf_units us
      else u < 0x10000 \<and> \<not> is_high u \<and> \<not> is_low u \<and> wf_units (v # us))"

definition is_scalar :: "nat \<Rightarrow> bool" where
  "is_scalar c \<longleftrightarrow> c < 0x110000 \<and> \<not> is_high c \<and> \<not> is_low c"

lemma from_to_scalars: "wf_units us \<Longrightarrow> from_scalars (to_scalars us) = us"
proof (induction us rule: to_scalars.induct)
  case (2 u)
  then show ?case by (simp add: from_scalars_def scalar_units_def)
next
  case (3 u v us)
  show ?case
  proof (cases "is_high u \<and> is_low v")
    case True
    then obtain a b where ab: "u = 0xD800 + a" "v = 0xDC00 + b" and b: "b < 0x400"
      by (auto simp: is_low_def is_high_def le_iff_add)
    have "scalar_units (0x10000 + a * 0x400 + b) = [u, v]"
      using b by (simp add: scalar_units_def ab div_shift mod_shift)
    with True 3 show ?thesis by (simp add: from_scalars_def ab)
  next
    case False
    with 3 show ?thesis by (auto simp: from_scalars_def scalar_units_def)
  qed
qed (simp add: from_scalars_def)

lemma to_scalars_scalar: "wf_units us \<Longrightarrow> c \<in> set (to_scalars us) \<Longrightarrow> is_scalar c"
  by (induction us rule: to_scalars.induct)
     (auto simp: is_scalar_def is_high_def is_low_def split: if_splits)

section \<open>The encoder\<close>

definition utf8_scalar :: "nat \<Rightarrow> nat list" where
  "utf8_scalar c =
     (if c < 0x80 then [c]
      else if c < 0x800 then [0xC0 + c div 64, 0x80 + c mod 64]
      else if c < 0x10000 then [0xE0 + c div 4096, 0x80 + c div 64 mod 64, 0x80 + c mod 64]
      else [0xF0 + c div 262144, 0x80 + c div 4096 mod 64, 0x80 + c div 64 mod 64, 0x80 + c mod 64])"

definition text_encode :: "nat list \<Rightarrow> bytes" where
  "text_encode us = map of_nat (concat (map utf8_scalar (to_scalars us)))"

section \<open>The decoder\<close>

text \<open>
  The decoder's registers: the code point so far, the continuation bytes still
  needed, and the range the next byte must lie in. \<open>utf8_start\<close> is the state with
  nothing pending; a byte out of range yields U+FFFD and is read again there.
\<close>

record utf8_state =
  cp :: nat
  needed :: nat
  lower :: nat
  upper :: nat

definition utf8_init :: utf8_state where
  "utf8_init = \<lparr>cp = 0, needed = 0, lower = 0x80, upper = 0xBF\<rparr>"

definition utf8_start :: "nat \<Rightarrow> nat list \<times> utf8_state" where
  "utf8_start b =
     (if b < 0x80 then ([b], utf8_init)
      else if 0xC2 \<le> b \<and> b \<le> 0xDF then ([], utf8_init\<lparr>cp := b mod 32, needed := 1\<rparr>)
      else if 0xE0 \<le> b \<and> b \<le> 0xEF
      then ([], \<lparr>cp = b mod 16, needed = 2, lower = (if b = 0xE0 then 0xA0 else 0x80),
                 upper = (if b = 0xED then 0x9F else 0xBF)\<rparr>)
      else if 0xF0 \<le> b \<and> b \<le> 0xF4
      then ([], \<lparr>cp = b mod 8, needed = 3, lower = (if b = 0xF0 then 0x90 else 0x80),
                 upper = (if b = 0xF4 then 0x8F else 0xBF)\<rparr>)
      else ([0xFFFD], utf8_init))"

definition utf8_step :: "utf8_state \<Rightarrow> nat \<Rightarrow> nat list \<times> utf8_state" where
  "utf8_step st b =
     (if needed st = 0 then utf8_start b
      else if b < lower st \<or> upper st < b
      then (let (out, st') = utf8_start b in (0xFFFD # out, st'))
      else let c = cp st * 64 + b mod 64
           in if needed st = 1 then ([c], utf8_init)
              else ([], \<lparr>cp = c, needed = needed st - 1, lower = 0x80, upper = 0xBF\<rparr>))"

fun utf8_run :: "utf8_state \<Rightarrow> nat list \<Rightarrow> nat list" where
  "utf8_run st [] = (if needed st = 0 then [] else [0xFFFD])"
| "utf8_run st (b # bs) = (let (out, st') = utf8_step st b in out @ utf8_run st' bs)"

definition strip_bom :: "nat list \<Rightarrow> nat list" where
  "strip_bom cs = (case cs of [] \<Rightarrow> [] | c # cs' \<Rightarrow> if c = 0xFEFF then cs' else cs)"

definition text_decode :: "bytes \<Rightarrow> nat list" where
  "text_decode bs = from_scalars (strip_bom (utf8_run utf8_init (map unat bs)))"

lemmas utf8_defs = utf8_start_def utf8_step_def utf8_init_def

lemma lead_mod:
  "(r :: nat) < 64 \<Longrightarrow> (128 + r) mod 64 = r"
  "(q :: nat) < 32 \<Longrightarrow> (192 + q) mod 32 = q"
  "(p :: nat) < 16 \<Longrightarrow> (224 + p) mod 16 = p"
  "(s :: nat) < 8 \<Longrightarrow> (240 + s) mod 8 = s"
  using mod_shift [of r 64 2] mod_shift [of q 32 6] mod_shift [of p 16 14] mod_shift [of s 8 30]
  by simp_all

lemma utf8_run_scalar2:
  assumes "0x80 \<le> c" "c < 0x800"
  shows "utf8_run utf8_init ([0xC0 + c div 64, 0x80 + c mod 64] @ rest) = c # utf8_run utf8_init rest"
proof -
  obtain q r where c: "c = q * 64 + r" and r: "r < 64"
    by (metis div_mult_mod_eq mod_less_divisor zero_less_numeral)
  with assms have "2 \<le> q" "q < 32" by linarith+
  with r show ?thesis by (simp add: c utf8_defs div_shift mod_shift lead_mod)
qed

lemma utf8_run_scalar3:
  assumes "0x800 \<le> c" "c < 0x10000" "\<not> is_high c" "\<not> is_low c"
  shows "utf8_run utf8_init ([0xE0 + c div 4096, 0x80 + c div 64 mod 64, 0x80 + c mod 64] @ rest) =
    c # utf8_run utf8_init rest"
proof -
  obtain x r where x: "c = x * 64 + r" and r: "r < 64"
    by (metis div_mult_mod_eq mod_less_divisor zero_less_numeral)
  obtain p q where p: "x = p * 64 + q" and q: "q < 64"
    by (metis div_mult_mod_eq mod_less_divisor zero_less_numeral)
  have c: "c = p * 4096 + (q * 64 + r)" using x p by simp
  have dv: "c div 64 = x" "c mod 64 = r" "c div 4096 = p" "x mod 64 = q"
    subgoal using r by (simp add: x)
    subgoal using r by (simp add: x)
    subgoal using div_shift [OF shift_less [OF q r], of p] by (simp add: c)
    subgoal using q by (simp add: p)
    done
  have p16: "p < 16" using assms(2) c by linarith
  have lo: "p = 0 \<Longrightarrow> 32 \<le> q" using assms(1) c r by simp
  have hi: "p = 13 \<Longrightarrow> q < 32"
    using assms(3,4) c shift_less [OF q r] by (simp add: is_high_def is_low_def)
  have "(p * 64 + q) * 64 + r = c" using c by simp
  with p16 q r lo hi show ?thesis unfolding dv by (auto simp: utf8_defs lead_mod)
qed

lemma utf8_run_scalar4:
  assumes "0x10000 \<le> c" "c < 0x110000"
  shows "utf8_run utf8_init ([0xF0 + c div 262144, 0x80 + c div 4096 mod 64, 0x80 + c div 64 mod 64,
    0x80 + c mod 64] @ rest) = c # utf8_run utf8_init rest"
proof -
  obtain x r where x: "c = x * 64 + r" and r: "r < 64"
    by (metis div_mult_mod_eq mod_less_divisor zero_less_numeral)
  obtain y q where y: "x = y * 64 + q" and q: "q < 64"
    by (metis div_mult_mod_eq mod_less_divisor zero_less_numeral)
  obtain s p where s: "y = s * 64 + p" and p: "p < 64"
    by (metis div_mult_mod_eq mod_less_divisor zero_less_numeral)
  have c: "c = s * 262144 + (p * 4096 + (q * 64 + r))" and c2: "c = y * 4096 + (q * 64 + r)"
    using x y s by simp_all
  have qr: "q * 64 + r < 4096" using shift_less [OF q r] by simp
  have pqr: "p * 4096 + (q * 64 + r) < 262144" using shift_less [OF p qr] by simp
  have dv: "c div 64 = x" "c mod 64 = r" "c div 4096 = y" "c div 262144 = s" "x mod 64 = q" "y mod 64 = p"
    subgoal using r by (simp add: x)
    subgoal using r by (simp add: x)
    subgoal using div_shift [OF qr, of y] by (simp add: c2)
    subgoal using div_shift [OF pqr, of s] by (simp add: c)
    subgoal using q by (simp add: y)
    subgoal using p by (simp add: s)
    done
  have s5: "s < 5" using assms(2) c by linarith
  have lo: "s = 0 \<Longrightarrow> 16 \<le> p" using assms(1) c qr by simp
  have hi: "s = 4 \<Longrightarrow> p < 16" using assms(2) c by simp
  have "((s * 64 + p) * 64 + q) * 64 + r = c" using c by simp
  with s5 p q r lo hi show ?thesis unfolding dv by (auto simp: utf8_defs lead_mod)
qed

lemma utf8_run_scalar:
  assumes "is_scalar c"
  shows "utf8_run utf8_init (utf8_scalar c @ rest) = c # utf8_run utf8_init rest"
proof -
  have "utf8_run utf8_init (c # rest) = c # utf8_run utf8_init rest" if "c < 0x80"
    using that by (simp add: utf8_defs)
  with assms utf8_run_scalar2 [of c rest] utf8_run_scalar3 [of c rest] utf8_run_scalar4 [of c rest]
  show ?thesis by (auto simp: utf8_scalar_def is_scalar_def)
qed

lemma utf8_run_encode:
  "\<forall>c \<in> set cs. is_scalar c \<Longrightarrow> utf8_run utf8_init (concat (map utf8_scalar cs)) = cs"
proof (induction cs)
  case Nil
  then show ?case by (simp add: utf8_init_def)
next
  case (Cons c cs)
  then show ?case using utf8_run_scalar [of c "concat (map utf8_scalar cs)"] by simp
qed

lemma utf8_scalar_octets: "is_scalar c \<Longrightarrow> b \<in> set (utf8_scalar c) \<Longrightarrow> b < 256"
  by (auto simp: utf8_scalar_def is_scalar_def split: if_splits)

lemma unat_of_nat_octets: "\<forall>b \<in> set bs. b < 256 \<Longrightarrow> map unat (map of_nat bs :: bytes) = bs"
  by (induction bs) (auto simp: unat_of_nat)

definition utf8_safe :: "nat list \<Rightarrow> bool" where
  "utf8_safe us \<longleftrightarrow> wf_units us \<and> (case us of [] \<Rightarrow> True | u # _ \<Rightarrow> u \<noteq> 0xFEFF)"

lemma strip_bom_safe: "utf8_safe us \<Longrightarrow> strip_bom (to_scalars us) = to_scalars us"
  by (cases us rule: to_scalars.cases)
     (auto simp: utf8_safe_def strip_bom_def is_high_def is_low_def)

lemma text_decode_encode: "utf8_safe us \<Longrightarrow> text_decode (text_encode us) = us"
proof -
  assume us: "utf8_safe us"
  then have sc: "\<forall>c \<in> set (to_scalars us). is_scalar c"
    using to_scalars_scalar by (auto simp: utf8_safe_def)
  then have "map unat (text_encode us) = concat (map utf8_scalar (to_scalars us))"
    unfolding text_encode_def by (intro unat_of_nat_octets) (auto dest: utf8_scalar_octets)
  with sc us show ?thesis
    by (simp add: text_decode_def utf8_run_encode strip_bom_safe from_to_scalars utf8_safe_def)
qed

interpretation utf8: codec text_encode "\<lambda>bs. Some (text_decode bs)" utf8_safe
  by unfold_locales (simp add: text_decode_encode)

text \<open>Strings of Latin-1 code units are always safe.\<close>

definition units :: "string \<Rightarrow> nat list" where
  "units s = map of_char s"

definition units_string :: "nat list \<Rightarrow> string" where
  "units_string us = map char_of us"

lemma units_string_units [simp]: "units_string (units s) = s"
  by (induction s) (auto simp: units_def units_string_def)

lemma wf_units_small: "\<forall>u \<in> set us. u < 256 \<Longrightarrow> wf_units us"
  by (induction us rule: wf_units.induct) (auto simp: is_high_def is_low_def)

lemma utf8_safe_units [simp]: "utf8_safe (units s)"
proof -
  have "\<forall>u \<in> set (units s). u < 256" by (auto simp: units_def)
  then show ?thesis using wf_units_small [of "units s"]
    by (auto simp: utf8_safe_def split: list.splits)
qed

lemma text_encode_ascii: "\<forall>u \<in> set us. u < 128 \<Longrightarrow> text_encode us = map of_nat us"
proof -
  have "\<forall>u \<in> set us. u < 128 \<Longrightarrow> concat (map utf8_scalar (to_scalars us)) = us"
    by (induction us rule: to_scalars.induct) (auto simp: is_high_def is_low_def utf8_scalar_def)
  then show "\<forall>u \<in> set us. u < 128 \<Longrightarrow> text_encode us = map of_nat us" by (simp add: text_encode_def)
qed

end
