(* ===== verification/Vault.thy ===== *)
theory Vault
  imports Stored Utf8
begin

text \<open>
  The recovery phrase at rest (\<open>storage.js\<close>): plain text under one key, or under
  another key encrypted with a key derived from the PIN. The Web Crypto functions
  and the random source are parameters.
\<close>

section \<open>Encryption\<close>

record subtle =
  s_deriveKey :: "bytes \<Rightarrow> bytes \<Rightarrow> nat \<Rightarrow> bytes result"
  s_encrypt :: "bytes \<Rightarrow> bytes \<Rightarrow> bytes \<Rightarrow> bytes result"
  s_decrypt :: "bytes \<Rightarrow> bytes \<Rightarrow> bytes \<Rightarrow> bytes result"
  s_random :: "nat \<Rightarrow> bytes"

definition PBKDF2_ITERATIONS :: nat where
  "PBKDF2_ITERATIONS = 200000"

definition storage_bytesToHex :: "bytes \<Rightarrow> string" where
  "storage_bytesToHex bs = concat (map (\<lambda>b. js_padStart 2 (CHR ''0'') (js_toString 16 (uint b))) bs)"

definition storage_hexToBytes :: "string \<Rightarrow> bytes" where
  "storage_hexToBytes hex =
     map (\<lambda>i. toUint8 (js_parseInt 16 (take 2 (drop (i * 2) hex)))) [0..<length hex div 2]"

definition deriveAesKey :: "subtle \<Rightarrow> string \<Rightarrow> bytes \<Rightarrow> bytes result" where
  "deriveAesKey S pin saltBytes = s_deriveKey S (text_encode (units pin)) saltBytes PBKDF2_ITERATIONS"

definition encryptMnemonic :: "subtle \<Rightarrow> string \<Rightarrow> string \<Rightarrow> jsval result" where
  "encryptMnemonic S mnemonic pin =
     (let salt = s_random S 16; iv = s_random S 12 in
      bindr (deriveAesKey S pin salt) (\<lambda>key.
      bindr (s_encrypt S key iv (text_encode (units mnemonic))) (\<lambda>ciphertext.
        Inr (JObj [(''salt'', JStr (storage_bytesToHex salt)), (''iv'', JStr (storage_bytesToHex iv)),
          (''ciphertext'', JStr (storage_bytesToHex ciphertext))]))))"

text \<open>
  \<open>hexToBytes\<close> of a parsed value that is not a string: it has no \<open>substr\<close>, which
  is called once per two units of its \<open>length\<close>.
\<close>

definition blob_bytes :: "jsval \<Rightarrow> bytes result" where
  "blob_bytes v =
     (case v of JStr hex \<Rightarrow> Inr (storage_hexToBytes hex)
      | _ \<Rightarrow> bindr (js_get v ''length'') (\<lambda>l.
          case js_div (js_toNumber l) (Fin 2) of
            NaN \<Rightarrow> Inr []
          | Infinity _ \<Rightarrow> Inl RangeError
          | Fin x \<Rightarrow> if x \<le> -1 then Inl RangeError else if 1 \<le> x then Inl TypeError else Inr []))"

definition decryptMnemonic :: "subtle \<Rightarrow> jsval \<Rightarrow> string \<Rightarrow> string result" where
  "decryptMnemonic S blob pin =
     bindr (bindr (js_get blob ''salt'') blob_bytes) (\<lambda>salt.
     bindr (bindr (js_get blob ''iv'') blob_bytes) (\<lambda>iv.
     bindr (deriveAesKey S pin salt) (\<lambda>key.
     bindr (bindr (js_get blob ''ciphertext'') blob_bytes) (\<lambda>ciphertext.
     bindr (s_decrypt S key iv ciphertext) (\<lambda>plaintext.
       Inr (units_string (text_decode plaintext)))))))"

section \<open>Storage\<close>

definition isPinSet :: "('b browser_scheme, bool) io" where
  "isPinSet = bindm (getItem ''fic_mnemonic_encrypted'') (\<lambda>v. ret (v \<noteq> None))"

definition loadEncryptedBlob :: "('b browser_scheme, jsval) io" where
  "loadEncryptedBlob =
     bindm (getItem ''fic_mnemonic_encrypted'') (\<lambda>raw.
       if item_or raw [] = [] then ret JNull else liftr (json_parse (item_or raw [])))"

definition setPin :: "'p platform_scheme \<Rightarrow> subtle \<Rightarrow> string \<Rightarrow> string \<Rightarrow> ('b browser_scheme, unit) io" where
  "setPin P S mnemonic pin =
     bindm (liftr (encryptMnemonic S mnemonic pin)) (\<lambda>blob.
     thenm (setItem P ''fic_mnemonic_encrypted'' (json_stringify blob))
       (removeItem ''fic_mnemonic''))"

definition removePin :: "'p platform_scheme \<Rightarrow> string \<Rightarrow> ('b browser_scheme, unit) io" where
  "removePin P mnemonic =
     thenm (setItem P ''fic_mnemonic'' mnemonic)
       (removeItem ''fic_mnemonic_encrypted'')"

section \<open>Round trip\<close>

text \<open>What AES-GCM documents: decrypting with the same key and nonce undoes encrypting.\<close>

definition gcm_ok :: "subtle \<Rightarrow> bool" where
  "gcm_ok S = (\<forall>key iv m c. s_encrypt S key iv m = Inr c \<longrightarrow> s_decrypt S key iv c = Inr m)"

lemma storage_hex_codec:
  "storage_bytesToHex bs = bytesToHex bs" "storage_hexToBytes s = hexToBytes s"
  by (simp_all add: storage_bytesToHex_def storage_hexToBytes_def bytesToHex_def hexToBytes_def byteHex_def [abs_def])

lemma blob_bytes_hex [simp]: "blob_bytes (JStr (storage_bytesToHex bs)) = Inr bs"
  using hex.dec_enc [of bs] by (simp add: blob_bytes_def storage_hex_codec)

text \<open>A blob that opens to the phrase.\<close>

definition opens :: "subtle \<Rightarrow> string \<Rightarrow> string \<Rightarrow> string \<Rightarrow> bool" where
  "opens S pin raw m = (raw \<noteq> [] \<and> bindr (json_parse raw) (\<lambda>blob. decryptMnemonic S blob pin) = Inr m)"

lemma decrypt_encrypt:
  assumes "gcm_ok S" "encryptMnemonic S m pin = Inr blob"
  shows "decryptMnemonic S blob pin = Inr m"
  using assms
  by (auto simp: encryptMnemonic_def decryptMnemonic_def Let_def result_simps gcm_ok_def text_decode_encode)

lemma encrypted_json_ok: "encryptMnemonic S m pin = Inr blob \<Longrightarrow> json_ok blob"
  by (auto simp: encryptMnemonic_def Let_def result_simps)

lemma encrypted_opens:
  "gcm_ok S \<Longrightarrow> encryptMnemonic S m pin = Inr blob \<Longrightarrow> opens S pin (json_stringify blob) m"
  using encrypted_json_ok [of S m pin blob] decrypt_encrypt [of S m pin blob]
  by (simp add: opens_def json_parse_stringify json_stringify_nonempty)

section \<open>Setting and removing the PIN\<close>

text \<open>The phrase can be read from the storage, given the PIN.\<close>

definition has_phrase :: "subtle \<Rightarrow> string \<Rightarrow> string \<Rightarrow> 'b browser_scheme \<Rightarrow> bool" where
  "has_phrase S pin m s =
     (localStore s ''fic_mnemonic'' = Some m \<or>
      (case localStore s ''fic_mnemonic_encrypted'' of None \<Rightarrow> False | Some raw \<Rightarrow> opens S pin raw m))"

text \<open>Unlocking: the stored blob, opened with the PIN.\<close>

definition stored_phrase :: "subtle \<Rightarrow> string \<Rightarrow> ('b browser_scheme, string) io" where
  "stored_phrase S pin = bindm loadEncryptedBlob (\<lambda>blob. liftr (decryptMnemonic S blob pin))"

lemma stored_phrase_opens:
  assumes "localStore s ''fic_mnemonic_encrypted'' = Some raw" "opens S pin raw m"
  shows "stored_phrase S pin s = (Inr m, s)"
proof -
  obtain blob where "json_parse raw = Inr blob" "decryptMnemonic S blob pin = Inr m" "raw \<noteq> []"
    using assms(2) by (auto simp: opens_def result_simps)
  with assms(1) show ?thesis
    by (simp add: stored_phrase_def loadEncryptedBlob_def getItem_def getm_def bindm_def liftr_def item_or_def)
qed

lemma setPin_run:
  assumes "encryptMnemonic S m pin = Inr blob"
    "p_fits P ((localStore s)(''fic_mnemonic_encrypted'' \<mapsto> json_stringify blob))"
  shows "setPin P S m pin s =
    (Inr (), s\<lparr>localStore := (localStore s)(''fic_mnemonic_encrypted'' \<mapsto> json_stringify blob, ''fic_mnemonic'' := None)\<rparr>)"
  using assms
  by (simp add: setPin_def setItem_def removeItem_def bindm_def thenm_def liftr_def getm_def modm_def)

text \<open>The sample platform of the witnesses: a cipher that prepends the nonce, storage that takes every write.\<close>

definition sample_subtle :: subtle where
  "sample_subtle = \<lparr>s_deriveKey = \<lambda>pin salt n. Inr (pin @ salt),
     s_encrypt = \<lambda>key iv m. Inr (iv @ m),
     s_decrypt = \<lambda>key iv c. if take (length iv) c = iv then Inr (drop (length iv) c) else Inl DOMException,
     s_random = \<lambda>n. replicate n 7\<rparr>"

definition sample_platform :: platform where
  "sample_platform = \<lparr>p_fetch = \<lambda>_ _. Inl TypeError, p_fits = \<lambda>_. True, p_message = \<lambda>_. ''failed'', p_string = \<lambda>_. ''TypeError: failed''\<rparr>"

definition blank_browser :: browser where
  "blank_browser = \<lparr>localStore = Map.empty, sessionStore = Map.empty, textContent = \<lambda>_. [], innerHTML = \<lambda>_. [],
     inputValue = \<lambda>_. [], display = \<lambda>_. [], disabled = \<lambda>_. False, active = \<lambda>_. False, requests = [], opened = [],
     clipboard = None\<rparr>"

lemma sample_gcm: "gcm_ok sample_subtle"
  by (auto simp: gcm_ok_def sample_subtle_def)

text \<open>
  After \<open>setPin\<close> the plain text is gone, a PIN counts as set, and unlocking with that PIN gives the
  phrase back.
\<close>

lemma setPin_unlocks:
  assumes "gcm_ok S" "encryptMnemonic S m pin = Inr blob"
    "p_fits P ((localStore s)(''fic_mnemonic_encrypted'' \<mapsto> json_stringify blob))"
  shows "\<exists>t. setPin P S m pin s = (Inr (), t) \<and> localStore t ''fic_mnemonic'' = None \<and>
    isPinSet t = (Inr True, t) \<and> stored_phrase S pin t = (Inr m, t)"
proof -
  define t where "t = snd (setPin P S m pin s)"
  have t: "setPin P S m pin s = (Inr (), t)"
    "localStore t ''fic_mnemonic_encrypted'' = Some (json_stringify blob)" "localStore t ''fic_mnemonic'' = None"
    by (simp_all add: t_def setPin_run [OF assms(2,3)])
  then show ?thesis
    using stored_phrase_opens [OF t(2) encrypted_opens [OF assms(1,2)]]
    by (simp add: isPinSet_def getItem_def getm_def bindm_def ret_def)
qed

lemma setPin_unlocks_witness:
  "\<exists>t. setPin sample_platform sample_subtle ''abandon art'' ''4711'' blank_browser = (Inr (), t) \<and>
    localStore t ''fic_mnemonic'' = None \<and> isPinSet t = (Inr True, t) \<and>
    stored_phrase sample_subtle ''4711'' t = (Inr ''abandon art'', t)"
proof -
  obtain blob where "encryptMnemonic sample_subtle ''abandon art'' ''4711'' = Inr blob"
    by (simp add: encryptMnemonic_def deriveAesKey_def sample_subtle_def Let_def)
  from setPin_unlocks [OF sample_gcm this, of sample_platform blank_browser] show ?thesis
    by (simp add: sample_platform_def)
qed

text \<open>
  C26: Setting or removing a PIN never loses the phrase, even when encryption fails or the storage refuses
  the write: whatever happens, it can still be read from the storage afterwards.
\<close>

theorem pin_changes_keep_phrase:
  assumes "gcm_ok S"
  shows "(localStore s ''fic_mnemonic'' = Some m \<longrightarrow> has_phrase S pin m (snd (setPin P S m pin s))) \<and>
    (has_phrase S pin m s \<longrightarrow> has_phrase S pin m (snd (removePin P m s)))"
proof (intro conjI impI)
  show "has_phrase S pin m (snd (setPin P S m pin s))" if "localStore s ''fic_mnemonic'' = Some m"
    using that encrypted_opens [OF assms, of m pin]
    by (subst wp_snd [symmetric]) (simp add: setPin_def wp_simps has_phrase_def split: sum.splits)
  show "has_phrase S pin m (snd (removePin P m s))" if "has_phrase S pin m s"
    using that by (subst wp_snd [symmetric]) (simp add: removePin_def wp_simps has_phrase_def)
qed

theorem pin_changes_keep_phrase_witness:
  "has_phrase sample_subtle ''4711'' ''abandon art''
     (snd (setPin (sample_platform\<lparr>p_fits := \<lambda>_. False\<rparr>) sample_subtle ''abandon art'' ''4711''
        (blank_browser\<lparr>localStore := [''fic_mnemonic'' \<mapsto> ''abandon art'']\<rparr>)))"
  using pin_changes_keep_phrase [OF sample_gcm, of "blank_browser\<lparr>localStore := [''fic_mnemonic'' \<mapsto> ''abandon art'']\<rparr>" "''abandon art''" "''4711''"
      "sample_platform\<lparr>p_fits := \<lambda>_. False\<rparr>"]
  by simp

end
