(* ===== verification/Gateway.thy ===== *)
theory Gateway
  imports Browser
begin

text \<open>
  The client of the staking-service gateway (\<open>gateway.js\<close>): one definition per
  method of the class, each a request built from its arguments and the decoding of
  the response. The base URL is the class's only field.
\<close>

section \<open>Transport\<close>

definition bearer :: "jsval \<Rightarrow> (string \<times> string) list" where
  "bearer auth = (if js_truthy auth then [(''Authorization'', ''Bearer '' @ js_String auth)] else [])"

definition error_code :: "jsval \<Rightarrow> string option" where
  "error_code c = (case c of JStr s \<Rightarrow> Some s | _ \<Rightarrow> None)"

definition gw_decode :: "response \<Rightarrow> jsval result" where
  "gw_decode resp =
     bindr (json_parse (rs_body resp)) (\<lambda>data.
       if rs_ok resp then Inr data
       else bindr (js_get data ''error'') (\<lambda>e.
         let err = js_or e (JObj []) in
         bindr (js_get err ''code'') (\<lambda>code.
         bindr (js_get err ''message'') (\<lambda>msg.
           Inl (GatewayError (error_code (js_or code (JStr ''unknown-error'')))
             (js_String (js_or msg (JStr (''Request failed ('' @ js_toString 10 (rs_status resp) @ '')'')))))))))"

definition gw_get :: "'p platform_scheme \<Rightarrow> string \<Rightarrow> string \<Rightarrow> jsval \<Rightarrow> ('b browser_scheme, jsval) io" where
  "gw_get P base path auth =
     bindm (fetch P \<lparr>rq_method = ''GET'', rq_url = base @ path, rq_headers = bearer auth, rq_body = None\<rparr>)
       (\<lambda>resp. liftr (gw_decode resp))"

definition gw_post ::
  "'p platform_scheme \<Rightarrow> string \<Rightarrow> string \<Rightarrow> jsval \<Rightarrow> jsval \<Rightarrow> ('b browser_scheme, jsval) io" where
  "gw_post P base path body auth =
     bindm (fetch P \<lparr>rq_method = ''POST'', rq_url = base @ path,
         rq_headers = (''Content-Type'', ''application/json'') # bearer auth, rq_body = Some (json_stringify body)\<rparr>)
       (\<lambda>resp. liftr (gw_decode resp))"

section \<open>Methods\<close>

definition networkStatus where
  "networkStatus P base = gw_get P base ''/v1/network/status'' JUndef"

definition balance where
  "balance P base address = gw_get P base (''/v1/address/'' @ address @ ''/balance'') JUndef"

definition utxos where
  "utxos P base address = gw_get P base (''/v1/address/'' @ address @ ''/utxos'') JUndef"

definition history where
  "history P base address limit =
     gw_get P base (''/v1/address/'' @ address @ ''/history?limit='' @ js_toString 10 limit) JUndef"

definition gw_tx where
  "gw_tx P base txid = gw_get P base (''/v1/tx/'' @ txid) JUndef"

definition broadcast where
  "broadcast P base rawTxHex = gw_post P base ''/v1/tx/broadcast'' (JObj [(''raw_tx_hex'', JStr rawTxHex)]) JUndef"

definition feeEstimate where
  "feeEstimate P base targetBlocks =
     gw_get P base (''/v1/fee-estimate?target_blocks='' @ js_toString 10 targetBlocks) JUndef"

text \<open>The spread of \<open>kyc\<close> defines its entries after the two named ones, replacing equal keys.\<close>

definition signup where
  "signup P base email password kyc =
     gw_post P base ''/v1/auth/signup''
       (JObj (fold (\<lambda>(k, v) o'. obj_set o' k v) kyc [(''email'', JStr email), (''password'', JStr password)])) JUndef"

definition login where
  "login P base email password =
     gw_post P base ''/v1/auth/login'' (JObj [(''email'', JStr email), (''password'', JStr password)]) JUndef"

definition stakingStatus where
  "stakingStatus P base token = gw_get P base ''/v1/staking/status'' token"

definition stakingDeposit where
  "stakingDeposit P base token amountSatoshis =
     gw_post P base ''/v1/staking/deposit'' (JObj [(''amount'', JStr (js_String amountSatoshis))]) token"

definition stakingWithdraw where
  "stakingWithdraw P base token amountSatoshis toAddress =
     gw_post P base ''/v1/staking/withdraw''
       (JObj [(''amount'', JStr (js_String amountSatoshis)), (''to_address'', JStr toAddress)]) token"

definition pushVapidPublicKey where
  "pushVapidPublicKey P base = gw_get P base ''/v1/push/vapid-public-key'' JUndef"

definition pushSubscribe where
  "pushSubscribe P base token subscription = gw_post P base ''/v1/push/subscribe'' subscription token"

definition referralStatus where
  "referralStatus P base token = gw_get P base ''/v1/referral/status'' token"

definition referralHistory where
  "referralHistory P base token = gw_get P base ''/v1/referral/history'' token"

definition referralWithdraw where
  "referralWithdraw P base token toAddress =
     gw_post P base ''/v1/referral/withdraw'' (JObj [(''to_address'', JStr toAddress)]) token"

definition currentPrice where
  "currentPrice P base = gw_get P base ''/v1/price'' JUndef"

definition priceAlertsList where
  "priceAlertsList P base token = gw_get P base ''/v1/price-alerts/web'' token"

definition priceAlertsCreate where
  "priceAlertsCreate P base token direction thresholdUsd =
     gw_post P base ''/v1/price-alerts/web'' (JObj [(''direction'', JStr direction), (''threshold_usd'', thresholdUsd)]) token"

definition priceAlertsDelete where
  "priceAlertsDelete P base token alertId =
     bindm (fetch P \<lparr>rq_method = ''DELETE'', rq_url = base @ ''/v1/price-alerts/web/'' @ alertId,
         rq_headers = [(''Authorization'', ''Bearer '' @ js_String token)], rq_body = None\<rparr>)
       (\<lambda>resp. liftr (gw_decode resp))"

lemmas gateway_defs = networkStatus_def balance_def utxos_def history_def gw_tx_def broadcast_def feeEstimate_def
  signup_def login_def stakingStatus_def stakingDeposit_def stakingWithdraw_def pushVapidPublicKey_def
  pushSubscribe_def referralStatus_def referralHistory_def referralWithdraw_def currentPrice_def
  priceAlertsList_def priceAlertsCreate_def priceAlertsDelete_def

section \<open>What a call does\<close>

text \<open>A call sends one request and gives what the response decodes to.\<close>

definition answer :: "'p platform_scheme \<Rightarrow> request list \<Rightarrow> request \<Rightarrow> jsval result" where
  "answer P sent r = bindr (p_fetch P sent r) gw_decode"

definition get_request :: "string \<Rightarrow> string \<Rightarrow> jsval \<Rightarrow> request" where
  "get_request base path auth = \<lparr>rq_method = ''GET'', rq_url = base @ path, rq_headers = bearer auth, rq_body = None\<rparr>"

definition post_request :: "string \<Rightarrow> string \<Rightarrow> jsval \<Rightarrow> jsval \<Rightarrow> request" where
  "post_request base path body auth = \<lparr>rq_method = ''POST'', rq_url = base @ path,
     rq_headers = (''Content-Type'', ''application/json'') # bearer auth, rq_body = Some (json_stringify body)\<rparr>"

definition sent_state :: "request \<Rightarrow> 'b browser_scheme \<Rightarrow> 'b browser_scheme" where
  "sent_state r s = s\<lparr>requests := requests s @ [r]\<rparr>"

lemma wp_gw [wp_simps]:
  "wp (gw_get P base path auth) Q E s =
     (case answer P (requests s) (get_request base path auth) of
        Inl e \<Rightarrow> E e (sent_state (get_request base path auth) s) | Inr v \<Rightarrow> Q v (sent_state (get_request base path auth) s))"
  "wp (gw_post P base path body auth) Q E s =
     (case answer P (requests s) (post_request base path body auth) of
        Inl e \<Rightarrow> E e (sent_state (post_request base path body auth) s)
      | Inr v \<Rightarrow> Q v (sent_state (post_request base path body auth) s))"
  by (simp_all add: gw_get_def gw_post_def wp_simps answer_def get_request_def post_request_def sent_state_def split: sum.splits)

lemma pres_gw [pres_intros]:
  "request_free P ''GET'' \<Longrightarrow> pres P (gw_get Pl base path auth)"
  "request_free P ''POST'' \<Longrightarrow> pres P (gw_post Pl base path body auth)"
  "request_free P ''DELETE'' \<Longrightarrow> pres P (priceAlertsDelete Pl base token alertId)"
  by (simp_all add: gw_get_def gw_post_def priceAlertsDelete_def pres_intros pres_fetch)

lemma gw_decode_ok: "rs_ok resp \<Longrightarrow> gw_decode resp = json_parse (rs_body resp)"
  by (cases "json_parse (rs_body resp)") (simp_all add: gw_decode_def)

lemma gw_decode_refused:
  assumes "\<not> rs_ok resp" "json_parse (rs_body resp) = Inr v" "\<not> nullish v"
  shows "\<exists>c m. gw_decode resp = Inl (GatewayError c m)"
proof -
  have get: "\<exists>x. js_get u k = Inr x" if "\<not> nullish u" for u k using that by (cases u) (auto simp: nullish_def)
  obtain e where e: "js_get v ''error'' = Inr e" using get [OF assms(3)] by blast
  have "\<not> nullish (js_or e (JObj []))" by (cases e) (auto simp: nullish_def js_or_def)
  then obtain c m where "js_get (js_or e (JObj [])) ''code'' = Inr c" "js_get (js_or e (JObj [])) ''message'' = Inr m"
    using get by blast
  with e assms show ?thesis by (simp add: gw_decode_def Let_def)
qed

end
