(* ===== verification/Message.thy ===== *)
theory Message
  imports Address Utf8 Tx Js_Value
begin

text \<open>
  Signed messages (\<open>message.js\<close>): the hash of the magic and the message, a 65-byte
  recoverable signature in Base64, and verification by recovering the public key
  and comparing its hash with a P2PKH address. Signing and recovery are parameters.
\<close>

section \<open>Definitions\<close>

text \<open>
  \<open>m_sign\<close> gives the recovery id and the 64 compact bytes; \<open>m_recover\<close> is
  \<open>Signature.fromCompact(bytes).addRecoveryBit(id).recoverPublicKey(hash)\<close> in
  compressed form.
\<close>

record msg_lib =
  m_sign :: "bytes \<Rightarrow> bytes \<Rightarrow> (nat \<times> bytes) result"
  m_recover :: "bytes \<Rightarrow> nat \<Rightarrow> bytes \<Rightarrow> bytes result"

definition MESSAGE_MAGIC :: string where
  "MESSAGE_MAGIC = ''FirstIslamicCoin Signed Message:'' @ [CHR 0x0A]"

definition message_preimage :: "string \<Rightarrow> bytes" where
  "message_preimage message =
     (let magicBytes = text_encode (units MESSAGE_MAGIC); msgBytes = text_encode (units message)
      in concatBytes [varInt (length magicBytes), magicBytes, varInt (length msgBytes), msgBytes])"

definition messageHash :: "hash_fun \<Rightarrow> string \<Rightarrow> bytes" where
  "messageHash sha256 message = sha256 (sha256 (message_preimage message))"

definition base64Encode :: "bytes \<Rightarrow> string" where
  "base64Encode bs = js_btoa (map (\<lambda>b. char_of (unat b)) bs)"

definition base64Decode :: "string \<Rightarrow> bytes result" where
  "base64Decode str = bindr (js_atob str) (\<lambda>binary. Inr (map (\<lambda>c. of_nat (of_char c)) binary))"

definition signMessage :: "hash_fun \<Rightarrow> msg_lib \<Rightarrow> bytes \<Rightarrow> string \<Rightarrow> string result" where
  "signMessage sha256 M privateKey message =
     bindr (m_sign M (messageHash sha256 message) privateKey) (\<lambda>(recovery, compact).
       Inr (base64Encode (concatBytes [[of_nat (27 + recovery + 4)], compact])))"

definition verifyMessage ::
  "hash_fun \<Rightarrow> hash_fun \<Rightarrow> msg_lib \<Rightarrow> string \<Rightarrow> string \<Rightarrow> string \<Rightarrow> network \<Rightarrow> bool result" where
  "verifyMessage sha256 ripemd160 M address signatureBase64 message net =
     bindr (decodeAddress sha256 address net) (\<lambda>(ty, h).
       if ty \<noteq> P2pkh then Inl (Error ''Only P2PKH addresses support message signing/verification'')
       else case base64Decode (js_trim signatureBase64) of
         Inl _ \<Rightarrow> Inl (Error ''Malformed signature (not valid base64)'')
       | Inr sigBytes \<Rightarrow>
           if length sigBytes \<noteq> 65 then Inl (Error ''Malformed signature (wrong length)'')
           else
             let header = unat (hd sigBytes) in
             if header < 27 \<or> header > 42 then Inl (Error ''Malformed signature (bad header byte)'')
             else
               let recovery = (header - 27) mod 4; hash = messageHash sha256 message in
               case m_recover M (drop 1 sigBytes) recovery hash of
                 Inl _ \<Rightarrow> Inr False
               | Inr pubkey \<Rightarrow> Inr (bytesToHex (hash160 sha256 ripemd160 pubkey) = bytesToHex h))"

section \<open>Base64 and the preimage\<close>

lemma char_bytes [simp]: "map (\<lambda>c. of_nat (of_char c)) (map (\<lambda>b. char_of (unat b)) bs) = (bs :: bytes)"
proof -
  have "(of_nat (of_char (char_of (unat b) :: char)) :: byte) = b" for b :: byte
    using unat_byte_less [of b] by simp
  then show ?thesis by (induction bs) simp_all
qed

lemma base64Decode_Encode: "base64Decode (base64Encode bs) = Inr bs"
  using char_bytes [of bs] by (simp add: base64Decode_def base64Encode_def js_atob_btoa o_def)

lemma js_btoa_chars: "c \<in> set (js_btoa s) \<Longrightarrow> \<not> js_space c"
proof -
  have "\<forall>i \<in> set (b64_sextets (map of_char s)). i < 64"
    using b64_sextets_less [of "map of_char s"] by simp
  then have "set (js_btoa s) \<subseteq> set (B64_ALPHABET @ ''='')"
    by (auto simp: js_btoa_def Let_def B64_ALPHABET_props in_set_replicate)
  moreover have "\<forall>c \<in> set (B64_ALPHABET @ ''=''). \<not> js_space c" by code_simp
  ultimately show "c \<in> set (js_btoa s) \<Longrightarrow> \<not> js_space c" by blast
qed

lemma js_trim_btoa: "js_trim (js_btoa s) = js_btoa s"
proof (cases "js_btoa s = []")
  case False
  then show ?thesis by (intro js_trim_id js_btoa_chars [of _ s]) simp_all
qed (simp add: js_trim_def js_trim_start_def)

lemma message_preimage_var:
  "message_preimage m = put_var_bytes (text_encode (units MESSAGE_MAGIC)) @ put_var_bytes (text_encode (units m))"
  by (simp add: message_preimage_def put_var_bytes_def concatBytes_def Let_def)

lemma message_preimage_first: "hd (message_preimage m) = 33"
proof -
  have "length MESSAGE_MAGIC = 33" "\<forall>c \<in> set MESSAGE_MAGIC. (of_char c :: nat) < 128" by code_simp+
  then have "length (text_encode (units MESSAGE_MAGIC)) = 33" by (simp add: text_encode_ascii units_def)
  then show ?thesis by (simp add: message_preimage_var put_var_bytes_def varInt_def)
qed

lemma message_preimage_inject:
  assumes "length (text_encode (units m)) < 2 ^ 64" "length (text_encode (units m')) < 2 ^ 64"
    "message_preimage m = message_preimage m'"
  shows "m = m'"
proof -
  have "put_var_bytes (text_encode (units m)) = put_var_bytes (text_encode (units m'))"
    using assms(3) by (simp add: message_preimage_var)
  then have "text_encode (units m) = text_encode (units m')" using vb.whole.enc_inject assms(1,2) by blast
  then have "units m = units m'" using utf8.enc_inject by simp
  then show ?thesis by (metis units_string_units)
qed

section \<open>Signing and verifying\<close>

text \<open>
  What the library documents: a signature made with a private key recovers, with
  its recovery id and the hash, to the key's compressed public key.
\<close>

definition recovers :: "msg_lib \<Rightarrow> (bytes \<Rightarrow> bytes) \<Rightarrow> bytes set \<Rightarrow> bool" where
  "recovers M pubkey keys =
     (\<forall>h. \<forall>k \<in> keys. \<exists>r c. m_sign M h k = Inr (r, c) \<and> r < 4 \<and> length c = 64 \<and> m_recover M c r h = Inr (pubkey k))"

text \<open>A well-formed signature text: Base64 of 65 bytes whose first is a header from 27 to 42.\<close>

definition well_formed_sig :: "string \<Rightarrow> bool" where
  "well_formed_sig sig =
     (case base64Decode (js_trim sig) of Inl _ \<Rightarrow> False
      | Inr bs \<Rightarrow> length bs = 65 \<and> 27 \<le> unat (hd bs) \<and> unat (hd bs) \<le> 42)"

definition sample_msg :: msg_lib where
  "sample_msg = \<lparr>m_sign = \<lambda>h k. Inr (1, take 64 (k @ replicate 64 0)),
     m_recover = \<lambda>c r h. if r = 1 then Inr (take 33 c) else Inl (Error ''no point'')\<rparr>"

lemma sample_recovers: "recovers sample_msg (\<lambda>k. k @ [0]) {k. length k = 32}"
  by (auto simp: recovers_def sample_msg_def numeral_eq_Suc)

text \<open>
  C29: A message signed with a key verifies against the key's P2PKH address on either network (a mainnet
  address that reads \<open>fic1\<close> is refused, as everywhere).
\<close>

theorem verifyMessage_accepts_signed:
  assumes "\<forall>x. length (sha256 x) = 32" "\<forall>x. length (ripemd160 x) = 20" "recovers M pubkey keys" "k \<in> keys"
    "NETWORKS name = Some net" "p2pkhAddress sha256 (hash160 sha256 ripemd160 (pubkey k)) net = Inr addr"
    "\<not> (name = ''mainnet'' \<and> js_startsWith (js_toLowerCase addr) ''fic1'')"
  shows "\<exists>sig. signMessage sha256 M k m = Inr sig \<and> verifyMessage sha256 ripemd160 M addr sig m net = Inr True"
proof -
  let ?h = "hash160 sha256 ripemd160 (pubkey k)"
  have d: "decodeAddress sha256 addr net = Inr (P2pkh, ?h)"
    using decode_own_p2pkh [OF assms(1,5) _ assms(6)] assms(2,7) by (simp add: hash160_def)
  obtain r c where rc: "m_sign M (messageHash sha256 m) k = Inr (r, c)" "r < 4" "length c = 64"
      "m_recover M c r (messageHash sha256 m) = Inr (pubkey k)"
    using assms(3,4) unfolding recovers_def by blast
  let ?bs = "(of_nat (27 + r + 4) :: byte) # c"
  have "unat (of_nat n :: byte) = n" if "n < 256" for n using that by (simp add: unat_of_nat)
  from this [of "27 + r + 4"] have h: "unat (of_nat (27 + r + 4) :: byte) = 31 + r" using rc(2) by (simp del: of_nat_add)
  have m: "(31 + r - 27) mod 4 = r" using rc(2) by simp
  have "verifyMessage sha256 ripemd160 M addr (base64Encode ?bs) m net = Inr True"
    using rc h m base64Decode_Encode [of ?bs] js_trim_btoa by (simp add: verifyMessage_def d base64Encode_def del: of_nat_add)
  then show ?thesis by (simp add: signMessage_def rc(1) concatBytes_def)
qed

theorem verifyMessage_accepts_signed_witness:
  "\<exists>addr sig. p2pkhAddress (\<lambda>_. replicate 32 7) (replicate 20 1) testnet = Inr addr \<and>
    signMessage (\<lambda>_. replicate 32 7) sample_msg (replicate 32 9) ''salam'' = Inr sig \<and>
    verifyMessage (\<lambda>_. replicate 32 7) (\<lambda>_. replicate 20 1) sample_msg addr sig ''salam'' testnet = Inr True"
proof -
  have a: "p2pkhAddress (\<lambda>_. replicate 32 7) (hash160 (\<lambda>_. replicate 32 7) (\<lambda>_. replicate 20 1) (replicate 32 9 @ [0])) testnet =
      Inr (base58checkEncode (\<lambda>_. replicate 32 7) (of_nat (p2pkhVersion testnet) # replicate 20 1))"
    by (simp add: p2pkhAddress_20 hash160_def)
  from verifyMessage_accepts_signed [OF _ _ sample_recovers _ _ a, of "''testnet''" "''salam''"] a show ?thesis
    by (auto simp: NETWORKS_def hash160_def)
qed

text \<open>
  Verification gives a verdict exactly for a P2PKH address and a well-formed
  signature text; a signature that does not match is a verdict, not an error.
\<close>

lemma verifyMessage_verdict:
  "(\<exists>b. verifyMessage sha256 ripemd160 M addr sig m net = Inr b) \<longleftrightarrow>
   (\<exists>h. decodeAddress sha256 addr net = Inr (P2pkh, h)) \<and> well_formed_sig sig"
proof (cases "decodeAddress sha256 addr net")
  case (Inr d)
  then show ?thesis
    by (cases d; cases "base64Decode (js_trim sig)")
       (auto simp: verifyMessage_def well_formed_sig_def Let_def not_less split: sum.splits)
qed (simp add: verifyMessage_def)

text \<open>
  What is hashed for a message determines the message, and is never what is
  hashed to sign a transaction input, so no signed message can be replayed as a
  transaction signature.
\<close>

lemma message_preimage_separates:
  assumes "length (text_encode (units m)) < 2 ^ 64" "length (text_encode (units m')) < 2 ^ 64"
  shows "(message_preimage m = message_preimage m' \<longleftrightarrow> m = m') \<and>
    message_preimage m \<noteq> sighash_preimage inputs outputs inputIndex subscript locktime"
proof
  show "message_preimage m = message_preimage m' \<longleftrightarrow> m = m'" using message_preimage_inject [OF assms] by blast
  have "hd (sighash_preimage inputs outputs inputIndex subscript locktime) = 2"
    by (simp add: sighash_preimage_def serializeTx_def concatBytes_def u32le_def numeral_eq_Suc)
  then show "message_preimage m \<noteq> sighash_preimage inputs outputs inputIndex subscript locktime"
    using message_preimage_first [of m] by auto
qed

lemma message_preimage_separates_witness:
  "message_preimage ''a'' \<noteq> message_preimage ''b'' \<and> message_preimage ''a'' \<noteq> sighash_preimage [] [] 0 [] 0"
proof -
  have "length (text_encode (units ''a'')) < 2 ^ 64" "length (text_encode (units ''b'')) < 2 ^ 64"
    by (simp_all add: text_encode_ascii units_def)
  from message_preimage_separates [OF this, of "[]" "[]" 0 "[]" 0] show ?thesis by simp
qed

end
