(* ===== verification/Qr.thy ===== *)
theory Qr
  imports Prelude
begin

text \<open>
  The camera scanner (\<open>qr.js\<close>) as a state machine: the camera is granted or
  refused at some time, animation frames fire, and \<open>stop\<close> may be called at any
  time. What the camera shows is an input of each frame.
\<close>

section \<open>The scanner\<close>

datatype camera = Pending | Granted | Refused

text \<open>
  \<open>live\<close> says whether the tracks of the granted stream run, \<open>frames\<close> holds the ids
  of the requested animation frames, \<open>results\<close> and \<open>errors\<close> record the callbacks.
\<close>

record scanner =
  camera :: camera
  stream :: bool
  live :: bool
  stopped :: bool
  rafId :: "nat option"
  frames :: "nat list"
  nextId :: nat
  results :: "string list"
  errors :: nat

definition startQrScanner :: scanner where
  "startQrScanner = \<lparr>camera = Pending, stream = False, live = False, stopped = False, rafId = None, frames = [],
     nextId = 1, results = [], errors = 0\<rparr>"

definition requestFrame :: "scanner \<Rightarrow> scanner" where
  "requestFrame s = s\<lparr>rafId := Some (nextId s), frames := frames s @ [nextId s], nextId := nextId s + 1\<rparr>"

definition qr_stop :: "scanner \<Rightarrow> scanner" where
  "qr_stop s =
     (let s1 = s\<lparr>stopped := True\<rparr>;
          s2 = (case rafId s1 of None \<Rightarrow> s1 | Some i \<Rightarrow> s1\<lparr>frames := filter (\<lambda>j. j \<noteq> i) (frames s1)\<rparr>)
      in if stream s2 then s2\<lparr>live := False\<rparr> else s2)"

text \<open>
  One frame: \<open>None\<close> when the video has not enough data, otherwise what the decoder
  returns, where no code and a code with empty data count the same.
\<close>

definition qr_tick :: "string option \<Rightarrow> scanner \<Rightarrow> scanner" where
  "qr_tick code s =
     (if stopped s then s
      else case code of
        Some d \<Rightarrow> if d \<noteq> [] then (qr_stop s)\<lparr>results := results s @ [d]\<rparr> else requestFrame s
      | None \<Rightarrow> requestFrame s)"

definition qr_granted :: "scanner \<Rightarrow> scanner" where
  "qr_granted s =
     (if stopped s then s\<lparr>camera := Granted, live := False\<rparr>
      else requestFrame (s\<lparr>camera := Granted, stream := True, live := True\<rparr>))"

definition qr_refused :: "scanner \<Rightarrow> scanner" where
  "qr_refused s = s\<lparr>camera := Refused, errors := errors s + 1\<rparr>"

section \<open>Runs\<close>

inductive qr_step :: "scanner \<Rightarrow> scanner \<Rightarrow> bool" where
  grant: "camera s = Pending \<Longrightarrow> qr_step s (qr_granted s)"
| refuse: "camera s = Pending \<Longrightarrow> qr_step s (qr_refused s)"
| frame: "i \<in> set (frames s) \<Longrightarrow> qr_step s (qr_tick code (s\<lparr>frames := filter (\<lambda>j. j \<noteq> i) (frames s)\<rparr>))"
| stop: "qr_step s (qr_stop s)"

inductive qr_reachable :: "scanner \<Rightarrow> bool" where
  start: "qr_reachable startQrScanner"
| step: "qr_reachable s \<Longrightarrow> qr_step s t \<Longrightarrow> qr_reachable t"

inductive_cases qr_stepE: "qr_step s t"

section \<open>Invariant\<close>

text \<open>
  The pending frame, if any, is the one \<open>stop\<close> cancels; the tracks run exactly
  while the scanner scans; a result has been delivered only by a stopped scanner.
\<close>

definition qr_inv :: "scanner \<Rightarrow> bool" where
  "qr_inv s =
     (frames s = (if camera s = Granted \<and> \<not> stopped s then [the (rafId s)] else []) \<and>
      (camera s = Granted \<and> \<not> stopped s \<longrightarrow> rafId s \<noteq> None \<and> stream s) \<and>
      (live s \<longleftrightarrow> camera s = Granted \<and> \<not> stopped s) \<and>
      (stream s \<longrightarrow> camera s = Granted) \<and>
      length (results s) \<le> 1 \<and> (results s \<noteq> [] \<longrightarrow> stopped s \<and> camera s = Granted) \<and>
      errors s = (if camera s = Refused then 1 else 0))"

lemma qr_inv_start: "qr_inv startQrScanner"
  by (simp add: qr_inv_def startQrScanner_def)

lemma qr_inv_stop: "qr_inv s \<Longrightarrow> qr_inv (qr_stop s)"
  by (cases "camera s"; cases "stopped s"; cases "rafId s"; simp add: qr_inv_def qr_stop_def Let_def)

lemma qr_inv_granted: "qr_inv s \<Longrightarrow> camera s = Pending \<Longrightarrow> qr_inv (qr_granted s)"
  by (cases "stopped s"; simp add: qr_inv_def qr_granted_def requestFrame_def)

lemma qr_inv_refused: "qr_inv s \<Longrightarrow> camera s = Pending \<Longrightarrow> qr_inv (qr_refused s)"
  by (cases "stopped s"; simp add: qr_inv_def qr_refused_def)

lemma qr_inv_frame:
  assumes "qr_inv s" "i \<in> set (frames s)"
  shows "qr_inv (qr_tick code (s\<lparr>frames := filter (\<lambda>j. j \<noteq> i) (frames s)\<rparr>))"
proof -
  have s: "camera s = Granted" "\<not> stopped s" using assms by (auto simp: qr_inv_def split: if_splits)
  then obtain j where "rafId s = Some j" using assms(1) by (auto simp: qr_inv_def)
  with s assms show ?thesis
    by (cases code) (simp_all add: qr_inv_def qr_tick_def qr_stop_def requestFrame_def Let_def)
qed

lemma qr_inv_step: "qr_inv s \<Longrightarrow> qr_step s t \<Longrightarrow> qr_inv t"
  by (auto elim!: qr_stepE intro: qr_inv_stop qr_inv_granted qr_inv_refused qr_inv_frame)

lemma qr_inv_reachable: "qr_reachable s \<Longrightarrow> qr_inv s"
  by (induction rule: qr_reachable.induct) (auto intro: qr_inv_start qr_inv_step)

lemma qr_step_stopped:
  assumes "qr_inv s" "qr_step s t" "stopped s"
  shows "stopped t \<and> results t = results s"
  using assms(2,3,1)
  by (cases rule: qr_step.cases)
     (auto simp: qr_granted_def qr_refused_def qr_tick_def qr_stop_def qr_inv_def Let_def split: option.splits)

text \<open>
  C30: However camera, frames and \<open>stop\<close> interleave, at most one result is delivered and none after the
  scanner has stopped; a stopped scanner has released the camera and has no frame pending.
\<close>

theorem qr_at_most_one_result:
  assumes "qr_reachable s"
  shows "length (results s) \<le> 1 \<and> errors s \<le> 1 \<and> (results s = [] \<or> errors s = 0) \<and>
    (stopped s \<longrightarrow> \<not> live s \<and> frames s = [] \<and> (\<forall>t. qr_step s t \<longrightarrow> stopped t \<and> results t = results s))"
proof -
  note inv = qr_inv_reachable [OF assms]
  from inv have f: "frames s = (if camera s = Granted \<and> \<not> stopped s then [the (rafId s)] else [])"
    and l: "live s \<longleftrightarrow> camera s = Granted \<and> \<not> stopped s"
    and r: "length (results s) \<le> 1" "results s \<noteq> [] \<longrightarrow> camera s = Granted"
    and e: "errors s = (if camera s = Refused then 1 else 0)"
    unfolding qr_inv_def by blast+
  have "length (results s) \<le> 1" "errors s \<le> 1" "results s = [] \<or> errors s = 0" using r e by auto
  moreover have "\<not> live s \<and> frames s = []" if "stopped s" using that f l by simp
  ultimately show ?thesis using qr_step_stopped [OF inv] by blast
qed

theorem qr_at_most_one_result_witness:
  "length (results (qr_tick (Some ''fic'') ((qr_granted startQrScanner)\<lparr>frames := []\<rparr>))) \<le> 1 \<and>
   \<not> live (qr_tick (Some ''fic'') ((qr_granted startQrScanner)\<lparr>frames := []\<rparr>))"
proof -
  let ?g = "qr_granted startQrScanner"
  have "qr_step startQrScanner ?g" by (rule grant) (simp add: startQrScanner_def)
  then have g: "qr_reachable ?g" by (rule step [OF start])
  have "1 \<in> set (frames ?g)" "filter (\<lambda>j. j \<noteq> 1) (frames ?g) = []"
    by (simp_all add: qr_granted_def requestFrame_def startQrScanner_def)
  then have "qr_step ?g (qr_tick (Some ''fic'') (?g\<lparr>frames := []\<rparr>))" using frame [of 1 ?g "Some ''fic''"] by simp
  from qr_at_most_one_result [OF step [OF g this]] show ?thesis
    by (simp add: qr_tick_def qr_granted_def requestFrame_def startQrScanner_def qr_stop_def Let_def)
qed

text \<open>
  C31: The scanner does not stall: while it has the camera and is not stopped exactly one frame is pending,
  and whenever that frame shows a code its text is delivered and the camera released.
\<close>

theorem qr_delivers:
  assumes "qr_reachable s" "camera s = Granted" "\<not> stopped s"
  shows "\<exists>i. frames s = [i] \<and>
    (\<forall>d. d \<noteq> [] \<longrightarrow> (let t = qr_tick (Some d) (s\<lparr>frames := []\<rparr>)
       in qr_step s t \<and> results t = [d] \<and> stopped t \<and> \<not> live t))"
proof -
  have inv: "qr_inv s" by (rule qr_inv_reachable [OF assms(1)])
  then obtain i where i: "rafId s = Some i" "frames s = [i]" "stream s" "results s = []"
    using assms(2,3) by (auto simp: qr_inv_def split: if_splits)
  have st: "qr_step s (qr_tick (Some d) (s\<lparr>frames := []\<rparr>))" for d
    using frame [of i s "Some d"] i(2) by simp
  have "results (qr_tick (Some d) (s\<lparr>frames := []\<rparr>)) = [d] \<and> stopped (qr_tick (Some d) (s\<lparr>frames := []\<rparr>)) \<and>
      \<not> live (qr_tick (Some d) (s\<lparr>frames := []\<rparr>))" if "d \<noteq> []" for d
    using that i assms(3) by (simp add: qr_tick_def qr_stop_def Let_def)
  with i(2) st show ?thesis unfolding Let_def by blast
qed

theorem qr_delivers_witness:
  "\<exists>i. frames (qr_granted startQrScanner) = [i] \<and>
     results (qr_tick (Some ''fic'') ((qr_granted startQrScanner)\<lparr>frames := []\<rparr>)) = [''fic'']"
proof -
  let ?g = "qr_granted startQrScanner"
  have "qr_step startQrScanner ?g" by (rule grant) (simp add: startQrScanner_def)
  then have g: "qr_reachable ?g" by (rule step [OF start])
  have "camera ?g = Granted" "\<not> stopped ?g" by (simp_all add: qr_granted_def requestFrame_def startQrScanner_def)
  from qr_delivers [OF g this] show ?thesis by (auto simp: Let_def)
qed

end
