(* ===== verification/Service_Worker.thy ===== *)
theory Service_Worker
  imports Js_Value
begin

text \<open>
  The service worker (\<open>sw.js\<close>): what a push message shows and what a click on the
  notification opens.
\<close>

section \<open>Definitions\<close>

record notification =
  n_title :: string
  n_body :: string
  n_url :: jsval

definition push_payload :: "string option \<Rightarrow> jsval" where
  "push_payload data =
     (case data of
        None \<Rightarrow> JObj [(''title'', JStr ''FirstIslamicCoin Wallet''), (''body'', JStr [])]
      | Some text \<Rightarrow>
          (case json_parse text of
             Inr payload \<Rightarrow> payload
           | Inl _ \<Rightarrow> JObj [(''title'', JStr ''FirstIslamicCoin Wallet''), (''body'', JStr text)]))"

definition on_push :: "string option \<Rightarrow> notification result" where
  "on_push data =
     (let payload = push_payload data in
      bindr (js_get payload ''title'') (\<lambda>title.
      bindr (js_get payload ''body'') (\<lambda>body.
      bindr (js_get payload ''url'') (\<lambda>url.
        Inr \<lparr>n_title = js_String (js_or title (JStr ''FirstIslamicCoin Wallet'')),
          n_body = js_String (js_or body (JStr [])), n_url = js_or url (JStr ''/'')\<rparr>))))"

text \<open>The URL the click handler passes to \<open>clients.openWindow\<close>.\<close>

definition on_notificationclick :: "notification \<Rightarrow> string" where
  "on_notificationclick n = js_String (js_or (n_url n) (JStr ''/''))"

section \<open>Behaviour\<close>

text \<open>
  A push message is shown as the gateway wrote it: title, text and link of a JSON object; any other text
  as the body under the wallet's name, opening the start page; no data an empty body. Only the JSON text
  \<open>null\<close> shows nothing.
\<close>

lemma on_push_shows:
  assumes "title \<noteq> []" "url \<noteq> []"
  shows "on_push (Some (json_stringify (JObj [(''title'', JStr title), (''body'', JStr body), (''url'', JStr url)]))) =
      Inr \<lparr>n_title = title, n_body = body, n_url = JStr url\<rparr> \<and>
    on_notificationclick \<lparr>n_title = title, n_body = body, n_url = JStr url\<rparr> = url \<and>
    (json_parse text = Inl e \<longrightarrow>
       on_push (Some text) = Inr \<lparr>n_title = ''FirstIslamicCoin Wallet'', n_body = text, n_url = JStr ''/''\<rparr>) \<and>
    on_push None = Inr \<lparr>n_title = ''FirstIslamicCoin Wallet'', n_body = [], n_url = JStr ''/''\<rparr> \<and>
    on_push (Some ''null'') = Inl TypeError"
proof -
  have "json_parse (json_stringify (JObj [(''title'', JStr title), (''body'', JStr body), (''url'', JStr url)])) =
      Inr (JObj [(''title'', JStr title), (''body'', JStr body), (''url'', JStr url)])"
    by (rule json_parse_stringify) simp
  moreover have "json_parse ''null'' = Inr JNull"
    using json_parse_stringify [of JNull] by (simp add: json_stringify_def)
  ultimately show ?thesis
    using assms by (simp add: on_push_def push_payload_def on_notificationclick_def Let_def js_or_def)
qed

lemma on_push_shows_witness:
  "on_push (Some (json_stringify (JObj [(''title'', JStr ''Received''), (''body'', JStr ''1 FIC''), (''url'', JStr ''/x'')]))) =
     Inr \<lparr>n_title = ''Received'', n_body = ''1 FIC'', n_url = JStr ''/x''\<rparr>"
  using on_push_shows [of "''Received''" "''/x''" "''1 FIC''"] by simp

end
