(* ===== verification/Wallet_Text.thy ===== *)
theory Wallet_Text
  imports Js_Value Utf8 Base58
begin

text \<open>
  The text functions of the wallet page (\<open>app.js\<close>): escaping for markup, amounts,
  payment URIs and the push key.
\<close>

section \<open>Escaping\<close>

definition escape_char :: "char \<Rightarrow> string" where
  "escape_char c =
     (if c = CHR ''&'' then ''&amp;'' else if c = CHR ''<'' then ''&lt;'' else if c = CHR ''>'' then ''&gt;''
      else if c = CHR 0x22 then ''&quot;'' else if c = CHR 0x27 then ''&#39;'' else [c])"

definition escapeHtml :: "string \<Rightarrow> string" where
  "escapeHtml s = concat (map escape_char s)"

section \<open>Amounts\<close>

text \<open>\<open>BigInt\<close> division truncates and the remainder has the sign of the dividend.\<close>

definition big_div :: "int \<Rightarrow> int \<Rightarrow> int" where
  "big_div a b = sgn a * (\<bar>a\<bar> div b)"

definition big_mod :: "int \<Rightarrow> int \<Rightarrow> int" where
  "big_mod a b = sgn a * (\<bar>a\<bar> mod b)"

definition COIN :: int where
  "COIN = 100000000"

definition formatFic :: "int \<Rightarrow> string" where
  "formatFic s =
     (let whole = big_div s COIN; frac = js_padStart 8 (CHR ''0'') (js_toString 10 (big_mod s COIN))
      in js_toString 10 whole @ ''.'' @ frac)"

text \<open>\<open>formatFic\<close> of a parsed value goes through \<open>BigInt\<close>.\<close>

definition formatFic_value :: "jsval \<Rightarrow> string result" where
  "formatFic_value v = bindr (js_toBigInt v) (\<lambda>n. Inr (formatFic n))"

section \<open>Payment URIs\<close>

text \<open>
  \<open>URLSearchParams\<close>: pairs between \<open>&\<close>, split at the first \<open>=\<close>, with \<open>+\<close> for a space
  and percent-encoded UTF-8.
\<close>

fun percent_decode :: "nat list \<Rightarrow> nat list" where
  "percent_decode [] = []"
| "percent_decode (b # bs) =
     (if b = 37 \<and> 2 \<le> length bs
      then case (digit_val (char_of (bs ! 0)), digit_val (char_of (bs ! 1))) of
          (Some h, Some l) \<Rightarrow>
            if h < 16 \<and> l < 16 then (16 * h + l) # percent_decode (drop 2 bs) else b # percent_decode bs
        | _ \<Rightarrow> b # percent_decode bs
      else b # percent_decode bs)"

definition form_decode :: "string \<Rightarrow> string" where
  "form_decode s =
     units_string (from_scalars (utf8_run utf8_init (percent_decode (map unat (text_encode
       (units (map (\<lambda>c. if c = CHR ''+'' then CHR '' '' else c) s)))))))"

definition query_pair :: "string \<Rightarrow> string \<times> string" where
  "query_pair p =
     (form_decode (takeWhile (\<lambda>c. c \<noteq> CHR ''='') p), form_decode (drop 1 (dropWhile (\<lambda>c. c \<noteq> CHR ''='') p)))"

definition query_get :: "string \<Rightarrow> string \<Rightarrow> string option" where
  "query_get q name = map_of (map query_pair (filter (\<lambda>p. p \<noteq> []) (js_split (CHR ''&'') q))) name"

definition SCHEME :: string where
  "SCHEME = ''firstislamiccoin:''"

definition parseBip21 :: "string \<Rightarrow> string \<times> jsnum option" where
  "parseBip21 text =
     (let trimmed = js_trim text in
      if \<not> js_startsWith (js_toLowerCase trimmed) SCHEME then (trimmed, None)
      else
        let withoutScheme = drop (length SCHEME) trimmed;
            parts = js_split (CHR ''?'') withoutScheme;
            address = hd parts;
            query = (if 1 < length parts then parts ! 1 else [])
        in if query \<noteq> [] then
             (case query_get query ''amount'' of
                Some amountStr \<Rightarrow> (address, if amountStr \<noteq> [] then Some (js_parseFloat amountStr) else None)
              | None \<Rightarrow> (address, None))
           else (address, None))"

text \<open>The URI the receive screen puts into its QR code.\<close>

definition receive_uri :: "string \<Rightarrow> string \<Rightarrow> string" where
  "receive_uri address amount =
     (let amountNum = js_parseFloat (js_trim amount) in
      if js_less (Fin 0) amountNum then SCHEME @ address @ ''?amount='' @ js_numToString amountNum else address)"

section \<open>The push key\<close>

definition js_replace_all :: "char \<Rightarrow> char \<Rightarrow> string \<Rightarrow> string" where
  "js_replace_all a b s = map (\<lambda>c. if c = a then b else c) s"

definition urlBase64ToUint8Array :: "string \<Rightarrow> bytes result" where
  "urlBase64ToUint8Array base64url =
     (let padding = replicate ((4 - length base64url mod 4) mod 4) (CHR ''='');
          base64 = js_replace_all (CHR ''_'') (CHR ''/'') (js_replace_all (CHR ''-'') (CHR ''+'') (base64url @ padding))
      in bindr (js_atob base64) (\<lambda>raw. Inr (map (\<lambda>c. of_nat (of_char c)) raw)))"

section \<open>Escaped text is inert\<close>

text \<open>What a browser reads: the five references, everything else as it stands.\<close>

definition references :: "(string \<times> char) list" where
  "references = [(''amp;'', CHR ''&''), (''lt;'', CHR ''<''), (''gt;'', CHR ''>''), (''quot;'', CHR 0x22), (''#39;'', CHR 0x27)]"

fun html_unescape :: "string \<Rightarrow> string" where
  "html_unescape [] = []"
| "html_unescape (c # s) =
     (if c = CHR ''&'' then
        (case find (\<lambda>(r, _). js_startsWith s r) references of
           Some (r, d) \<Rightarrow> d # html_unescape (drop (length r) s)
         | None \<Rightarrow> c # html_unescape s)
      else c # html_unescape s)"

lemma startsWith_simps [simp]:
  "js_startsWith s [] = True"
  "js_startsWith (c # s) (d # t) = (c = d \<and> js_startsWith s t)"
  by (simp_all add: js_startsWith_def)

lemma html_unescape_char: "html_unescape (escape_char c @ s) = c # html_unescape s"
  by (simp add: escape_char_def references_def numeral_eq_Suc)

lemma html_unescape_escape: "html_unescape (escapeHtml s) = s"
  by (induction s) (simp_all add: escapeHtml_def html_unescape_char)

lemma escape_char_inert: "set (escape_char c) \<inter> {CHR ''<'', CHR ''>'', CHR 0x22, CHR 0x27} = {}"
  by (auto simp: escape_char_def)

text \<open>
  C34: Escaped text contains no character that opens a tag or ends an attribute, and reads as the original
  text: whatever a label or an address contains, it is shown and not interpreted.
\<close>

theorem escapeHtml_inert:
  "set (escapeHtml s) \<inter> {CHR ''<'', CHR ''>'', CHR 0x22, CHR 0x27} = {} \<and> html_unescape (escapeHtml s) = s"
  using escape_char_inert by (fastforce simp: escapeHtml_def html_unescape_escape [unfolded escapeHtml_def])

section \<open>Displayed amounts\<close>

lemma big_div_nonneg: "0 \<le> a \<Longrightarrow> 0 < b \<Longrightarrow> big_div a b = a div b \<and> big_mod a b = a mod b"
  by (cases "a = 0") (simp_all add: big_div_def big_mod_def)

lemma padded_digits:
  assumes "0 \<le> m" "m < 10 ^ k" "0 < k"
  shows "\<exists>ds. js_padStart k (CHR ''0'') (js_toString 10 m) = map digit_char ds \<and> digits_ok ds \<and> length ds = k \<and>
    from_base 10 ds = m"
proof -
  define q where "q = (if m = 0 then [0] else to_base 10 m)"
  have z: "CHR ''0'' = digit_char 0" by code_simp
  have q: "js_toString 10 m = map digit_char q" "digits_ok q" "length q \<le> k" "from_base 10 q = m"
    using assms digits_to_base [of m] to_base_length_le [of m k]
    by (simp_all add: q_def js_toString_def from_base_to_base z)
  then show ?thesis
    by (intro exI [of _ "replicate (k - length q) 0 @ q"])
       (simp add: js_padStart_def z from_base_lead_zeros)
qed

lemma formatFic_decimal:
  assumes "0 \<le> n"
  shows "\<exists>ip fp. formatFic n = decimal_text ip fp \<and> digits_ok ip \<and> digits_ok fp \<and> ip \<noteq> [] \<and> length fp = 8 \<and>
    from_base 10 ip = n div COIN \<and> from_base 10 (ip @ fp) = n"
proof -
  have "0 \<le> n div COIN" using assms by (simp add: COIN_def)
  then obtain ip where ip: "js_toString 10 (n div COIN) = map digit_char ip" "digits_ok ip" "ip \<noteq> []" "from_base 10 ip = n div COIN"
    using int_digits by blast
  obtain fp where fp: "js_padStart 8 (CHR ''0'') (js_toString 10 (n mod COIN)) = map digit_char fp" "digits_ok fp"
      "length fp = 8" "from_base 10 fp = n mod COIN"
    using padded_digits [of "n mod COIN" 8] by (auto simp: COIN_def)
  have "from_base 10 (ip @ fp) = n" by (simp add: from_base_append fp(3,4) ip(4) COIN_def)
  moreover have "formatFic n = decimal_text ip fp"
    using big_div_nonneg [OF assms, of COIN] fp ip by (auto simp: formatFic_def decimal_text_def COIN_def)
  ultimately show ?thesis using ip fp by blast
qed

text \<open>
  C33: A displayed amount has exactly eight decimals, and typed back into an amount field it converts to
  the same number of hundred-millionths (below 22.5 million coins).
\<close>

theorem formatFic_typed_back:
  assumes "0 < n" "n < 2 ^ 51"
  shows "js_BigInt (to_satoshis (js_parseFloat (formatFic n))) = Inr n \<and>
    (\<exists>ip fp. formatFic n = decimal_text ip fp \<and> digits_ok ip \<and> digits_ok fp \<and> length fp = 8 \<and> from_base 10 ip = n div 100000000)"
proof -
  obtain ip fp where d: "formatFic n = decimal_text ip fp" "digits_ok ip" "digits_ok fp" "length fp = 8"
      "from_base 10 ip = n div COIN" "from_base 10 (ip @ fp) = n"
    using formatFic_decimal [of n] assms by auto
  have "decimal_sats ip fp = n" using d by (simp add: decimal_sats_def)
  with d assms typed_sats [of ip fp] show ?thesis unfolding COIN_def by fastforce
qed

theorem formatFic_typed_back_witness:
  "js_BigInt (to_satoshis (js_parseFloat (formatFic 123456789))) = Inr 123456789"
  using formatFic_typed_back [of 123456789] by simp

section \<open>Payment URIs\<close>

text \<open>The text of an amount below \<open>10^20\<close> has no \<open>+\<close>, which a query would turn into a space.\<close>

definition amount_char :: "char \<Rightarrow> bool" where
  "amount_char c = (dec_digit c \<or> c \<in> {CHR ''.'', CHR ''e'', CHR ''-''})"

lemma digit_amount_char: "digits_ok ds \<Longrightarrow> c \<in> digit_char ` set ds \<Longrightarrow> amount_char c"
  by (auto simp: amount_char_def digits_ok_def list_all_iff dec_digit_char)

lemma decimal_text_chars: "digits_ok ip \<Longrightarrow> digits_ok fp \<Longrightarrow> c \<in> set (decimal_text ip fp) \<Longrightarrow> amount_char c"
  using digit_amount_char [of ip c] digit_amount_char [of fp c]
  by (auto simp: decimal_text_def amount_char_def split: if_splits)

lemma exponent_text_chars: "e < 0 \<Longrightarrow> c \<in> set (exponent_text e) \<Longrightarrow> amount_char c"
proof -
  assume "e < 0" and c: "c \<in> set (exponent_text e)"
  moreover obtain ds where "js_toString 10 \<bar>e\<bar> = map digit_char ds" "digits_ok ds" using int_digits [of "\<bar>e\<bar>"] by auto
  ultimately show ?thesis using digit_amount_char [of ds c] by (auto simp: exponent_text_def amount_char_def)
qed

lemma format_dec_chars:
  assumes "digits_ok ds" "n \<le> 21" "c \<in> set (format_dec ds n)"
  shows "amount_char c"
proof -
  have t: "digits_ok (take k ds)" "digits_ok (drop k ds)" for k using digits_ok_take [OF assms(1)] by auto
  consider "c \<in> set (decimal_text (ds @ replicate (nat (n - int (length ds))) 0) [])"
    | "c \<in> set (decimal_text (take (nat n) ds) (drop (nat n) ds))"
    | "c \<in> set (decimal_text [0] (replicate (nat (- n)) 0 @ ds))"
    | "n < 0" "c \<in> set (decimal_text (take 1 ds) (drop 1 ds))" | "n < 0" "c \<in> set (exponent_text (n - 1))"
    using assms(2,3) by (fastforce simp: format_dec_def Let_def split: if_splits)
  then show ?thesis
  proof cases
    case 1
    with assms(1) show ?thesis by (intro decimal_text_chars [of "ds @ replicate (nat (n - int (length ds))) 0" "[]"]) simp_all
  next
    case 2
    from decimal_text_chars [OF t this] show ?thesis .
  next
    case 3
    with assms(1) show ?thesis by (intro decimal_text_chars [of "[0]" "replicate (nat (- n)) 0 @ ds"]) simp_all
  next
    case 4
    from decimal_text_chars [OF t this(2)] show ?thesis .
  next
    case 5
    then show ?thesis by (intro exponent_text_chars [of "n - 1"]) simp_all
  qed
qed

lemma leading_digit: "ds \<noteq> [] \<Longrightarrow> hd ds \<noteq> 0 \<Longrightarrow> 10 ^ (length ds - 1) \<le> from_base 10 ds"
proof (cases ds)
  case (Cons d q)
  assume "hd ds \<noteq> 0"
  with Cons have "1 * 10 ^ length q \<le> int d * 10 ^ length q" by (intro mult_right_mono) simp_all
  moreover have "0 \<le> from_base 10 q" by (rule from_base_nonneg) simp
  ultimately have "10 ^ length q \<le> int d * 10 ^ length q + from_base 10 q" by linarith
  then show ?thesis by (simp add: Cons)
qed simp

lemma shortest_below:
  assumes "pow10 (- 300) \<le> x" "x < pow10 300" "shortest x = Some (s, e)"
  shows "of_int s * pow10 e \<le> 2 * x"
proof -
  obtain k where k: "1 \<le> k" "(s, e) \<in> set (dec_candidates x k)"
    using assms(3) find_first_in [of "dec_reads x"] by (fastforce simp: shortest_def)
  have e: "e = dec_exp x - int k" using dec_candidates_exp [OF k(2)] .
  with k(2) have "of_int s \<le> x / pow10 e + 1" unfolding e dec_candidates_iff by linarith
  then have "of_int s * pow10 e \<le> (x / pow10 e + 1) * pow10 e" by (intro mult_right_mono) (simp_all add: less_imp_le)
  also have "\<dots> = x + pow10 e" by (simp add: distrib_right)
  also have "pow10 e \<le> pow10 (dec_exp x - 1)" using k(1) e by (intro pow10_mono) simp
  also have "\<dots> \<le> x" by (rule dec_exp_bounds(2) [OF assms(1,2)])
  finally show ?thesis by simp
qed

lemma amount_text_chars:
  assumes "0 < a" "a < 2 ^ 51" "round_double (of_int a / 100000000) = Fin x" "c \<in> set (js_numToString (Fin x))"
  shows "amount_char c"
proof -
  note near = amount_near [OF assms(1-3)]
  have "pow10 (- 300) \<le> pow10 (- 9)" "pow10 20 \<le> pow10 300" by (rule pow10_mono; simp)+
  with near have x: "pow10 (- 300) \<le> x" "x < pow10 300" "0 < x" using pow10_pos [of "- 9"] by linarith+
  obtain s e where se: "shortest x = Some (s, e)" using shortest_amount [OF assms(1-3)] by blast
  then obtain ds n where ds: "pos_text x = format_dec ds n" "digits_ok ds" "ds \<noteq> []" "hd ds \<noteq> 0"
      "of_int (from_base 10 ds) * pow10 (n - int (length ds)) = of_int s * pow10 e"
    using pos_text_parts by blast
  have "n \<le> 21"
  proof (rule ccontr)
    assume "\<not> n \<le> 21"
    have "pow10 (n - 1) = pow10 (int (length ds - 1)) * pow10 (n - int (length ds))"
      using ds(3) by (simp add: pow10_add [symmetric] of_nat_diff Suc_leI)
    also have "\<dots> \<le> of_int (from_base 10 ds) * pow10 (n - int (length ds))"
      using leading_digit [OF ds(3,4)] unfolding pow10_nat
      by (intro mult_right_mono) (simp_all add: less_imp_le flip: of_int_le_iff)
    also have "\<dots> \<le> 2 * x" unfolding ds(5) by (rule shortest_below [OF x(1,2) se])
    also have "\<dots> < pow10 21" using near(3) by (simp add: pow10_def)
    finally show False using \<open>\<not> n \<le> 21\<close> by (simp add: pow10_less_iff)
  qed
  with format_dec_chars [OF ds(2)] assms(4) x(3) ds(1) show ?thesis by simp
qed

lemma percent_decode_plain: "37 \<notin> set bs \<Longrightarrow> percent_decode bs = bs"
  by (induction bs rule: percent_decode.induct) auto

lemma ascii_units:
  assumes "\<forall>u \<in> set us. u < 128"
  shows "map unat (text_encode us) = us" "utf8_run utf8_init us = us" "from_scalars us = us"
proof -
  show "map unat (text_encode us) = us"
    using assms unat_of_nat_octets [of us] by (fastforce simp: text_encode_ascii)
  have "concat (map utf8_scalar us) = us" using assms by (induction us) (auto simp: utf8_scalar_def)
  moreover have "\<forall>u \<in> set us. is_scalar u" using assms by (force simp: is_scalar_def is_high_def is_low_def)
  ultimately show "utf8_run utf8_init us = us" using utf8_run_encode by metis
  show "from_scalars us = us" using assms by (induction us) (auto simp: from_scalars_def scalar_units_def)
qed

lemma form_decode_plain:
  assumes "\<forall>c \<in> set s. (of_char c :: nat) < 128 \<and> c \<noteq> CHR ''+'' \<and> c \<noteq> CHR ''%''"
  shows "form_decode s = s"
proof -
  have us: "\<forall>u \<in> set (units s). u < 128" using assms by (auto simp: units_def)
  have plus: "map (\<lambda>c. if c = CHR ''+'' then CHR '' '' else c) s = s" using assms by (intro map_idI) auto
  have p: "char_of (37 :: nat) = CHR ''%''" by code_simp
  have "37 \<notin> set (units s)"
  proof
    assume "37 \<in> set (units s)"
    then obtain c where "c \<in> set s" "(of_char c :: nat) = 37" by (auto simp: units_def)
    with assms p show False by (metis char_of_char)
  qed
  then show ?thesis by (simp add: form_decode_def plus percent_decode_plain ascii_units [OF us])
qed

lemma amount_char_plain:
  "amount_char c \<Longrightarrow> (of_char c :: nat) < 128 \<and> c \<noteq> CHR ''+'' \<and> c \<noteq> CHR ''%'' \<and> c \<noteq> CHR ''&'' \<and> c \<noteq> CHR ''?'' \<and> \<not> js_space c"
  by (auto simp: amount_char_def dec_digit_def digit_val_def js_space_def Let_def split: if_splits option.splits)

lemma query_get_amount:
  assumes "\<forall>c \<in> set t. amount_char c"
  shows "query_get (''amount='' @ t) ''amount'' = Some t"
proof -
  have "CHR ''&'' \<notin> set (''amount='' @ t)" using assms amount_char_plain by auto
  then have "js_split (CHR ''&'') (''amount='' @ t) = [''amount='' @ t]" by (rule js_split_no_sep)
  moreover have "form_decode t = t" using assms amount_char_plain by (intro form_decode_plain) blast
  moreover have "form_decode ''amount'' = ''amount''" by (rule form_decode_plain) simp
  ultimately show ?thesis by (simp add: query_get_def query_pair_def)
qed

text \<open>An address: no white space and none of the characters a URI gives a meaning to.\<close>

definition address_ok :: "string \<Rightarrow> bool" where
  "address_ok a = (a \<noteq> [] \<and> list_all (\<lambda>c. c \<noteq> CHR ''?'' \<and> c \<noteq> CHR '':'' \<and> \<not> js_space c) a)"

lemma parseBip21_uri:
  assumes "address_ok a" "t \<noteq> []" "\<forall>c \<in> set t. amount_char c"
  shows "parseBip21 (SCHEME @ a @ ''?amount='' @ t) = (a, Some (js_parseFloat t))"
proof -
  define q where "q = ''amount='' @ t"
  have q: "q \<noteq> []" "last q = last t" "CHR ''?'' \<notin> set q" "query_get q ''amount'' = Some t"
    using assms(2,3) amount_char_plain query_get_amount [OF assms(3)] by (auto simp: q_def)
  let ?u = "SCHEME @ a @ CHR ''?'' # q"
  have u: "SCHEME @ a @ ''?amount='' @ t = ?u" by (simp add: q_def)
  have "\<not> js_space (last t)" using assms(2,3) amount_char_plain last_in_set by blast
  moreover have "\<not> js_space (CHR ''f'')" by code_simp
  ultimately have tr: "js_trim ?u = ?u" using q by (intro js_trim_id) (simp_all add: SCHEME_def)
  have "js_toLowerCase SCHEME = SCHEME" by code_simp
  then have sw: "js_startsWith (js_toLowerCase ?u) SCHEME"
    by (simp add: js_startsWith_def js_toLowerCase_def)
  have "CHR ''?'' \<notin> set a" using assms(1) by (auto simp: address_ok_def list_all_iff)
  then have "js_split (CHR ''?'') (a @ CHR ''?'' # q) = [a, q]"
    using q(3) by (simp add: js_split_append js_split_no_sep)
  with sw q(1,4) assms(2) show ?thesis unfolding u parseBip21_def Let_def tr by simp
qed

lemma parseBip21_bare: "address_ok a \<Longrightarrow> parseBip21 a = (a, None)"
proof -
  assume a: "address_ok a"
  then have "\<not> js_space (hd a)" "\<not> js_space (last a)" by (auto simp: address_ok_def list_all_iff)
  then have tr: "js_trim a = a" using a by (intro js_trim_id) (simp_all add: address_ok_def)
  have colon: "char_lower c = CHR '':'' \<longleftrightarrow> c = CHR '':''" for c
    by (auto simp: char_lower_def Let_def char_of_eq_iff take_bit_eq_mod)
  have "\<not> js_startsWith (js_toLowerCase a) SCHEME"
  proof
    assume "js_startsWith (js_toLowerCase a) SCHEME"
    then have "CHR '':'' \<in> set (take (length SCHEME) (js_toLowerCase a))" by (simp add: js_startsWith_def SCHEME_def)
    then have "CHR '':'' \<in> set (js_toLowerCase a)" by (rule in_set_takeD)
    with a colon show False by (force simp: js_toLowerCase_def address_ok_def list_all_iff)
  qed
  with tr show ?thesis by (simp add: parseBip21_def)
qed

lemma amount_read:
  assumes "digits_ok ip" "digits_ok fp" "length fp \<le> 8" "0 < decimal_sats ip fp" "decimal_sats ip fp < 2 ^ 51"
  shows "\<exists>x. js_parseFloat (decimal_text ip fp) = Fin x \<and> 0 < x \<and> js_parseFloat (js_numToString (Fin x)) = Fin x \<and>
    (\<forall>c \<in> set (js_numToString (Fin x)). amount_char c) \<and> js_numToString (Fin x) \<noteq> [] \<and>
    js_BigInt (to_satoshis (Fin x)) = Inr (decimal_sats ip fp)"
proof -
  let ?a = "decimal_sats ip fp"
  have ne: "ip \<noteq> [] \<or> fp \<noteq> []" using assms(4) by (auto simp: decimal_sats_def)
  have "(100000000 :: rat) = 10 ^ (8 - length fp) * 10 ^ length fp"
    using assms(3) by (simp flip: power_add)
  then have eq: "(of_int (from_base 10 (ip @ fp)) / 10 ^ length fp :: rat) = of_int ?a / 100000000"
    by (simp add: decimal_sats_def divide_eq_eq eq_divide_eq mult.assoc)
  obtain x where x: "round_double (of_int ?a / 100000000) = Fin x" "js_parseFloat (js_numToString (Fin x)) = Fin x"
    using amount_text_round_trip [OF assms(4,5)] by blast
  have pos: "0 < x" using round_twice [OF assms(4,5)] x(1) by auto
  have p: "js_parseFloat (decimal_text ip fp) = Fin x" unfolding js_parseFloat_text [OF assms(1,2) ne] eq by (rule x(1))
  have "js_parseFloat [] = NaN" by code_simp
  then have "js_numToString (Fin x) \<noteq> []" using x(2) by fastforce
  then show ?thesis
    using p pos x amount_text_chars [OF assms(4,5) x(1)] typed_sats [OF assms] by auto
qed

text \<open>
  C32: What the receive screen puts into its QR code is what the send screen reads from it: the address, and,
  if an amount was requested, an amount that is sent as exactly that many hundred-millionths.
\<close>

theorem receive_uri_read_back:
  assumes "address_ok a" "digits_ok ip" "digits_ok fp" "length fp \<le> 8" "0 < decimal_sats ip fp"
    "decimal_sats ip fp < 2 ^ 51"
  shows "parseBip21 (receive_uri a []) = (a, None) \<and>
    (\<exists>x. parseBip21 (receive_uri a (decimal_text ip fp)) = (a, Some x) \<and>
      js_BigInt (to_satoshis (js_parseFloat (js_numToString x))) = Inr (decimal_sats ip fp))"
proof
  have "receive_uri a [] = a" by (simp add: receive_uri_def js_trim_def js_trim_start_def js_parseFloat_def
        parse_sign_def parse_decimal_def js_startsWith_def)
  then show "parseBip21 (receive_uri a []) = (a, None)" using parseBip21_bare [OF assms(1)] by simp
  obtain x where x: "js_parseFloat (decimal_text ip fp) = Fin x" "0 < x" "js_parseFloat (js_numToString (Fin x)) = Fin x"
      "\<forall>c \<in> set (js_numToString (Fin x)). amount_char c" "js_numToString (Fin x) \<noteq> []"
      "js_BigInt (to_satoshis (Fin x)) = Inr (decimal_sats ip fp)"
    using amount_read [OF assms(2-6)] by blast
  have "decimal_text ip fp \<noteq> []" using x(1) by (auto simp: js_parseFloat_def parse_sign_def parse_decimal_def js_trim_start_def js_startsWith_def)
  moreover have "\<not> js_space c" if "c \<in> set (decimal_text ip fp)" for c
    using decimal_text_chars [OF assms(2,3) that] amount_char_plain by blast
  ultimately have "js_trim (decimal_text ip fp) = decimal_text ip fp" by (intro js_trim_id) simp_all
  then have "receive_uri a (decimal_text ip fp) = SCHEME @ a @ ''?amount='' @ js_numToString (Fin x)"
    using x(1,2) by (simp add: receive_uri_def del: js_numToString.simps)
  then show "\<exists>x. parseBip21 (receive_uri a (decimal_text ip fp)) = (a, Some x) \<and>
      js_BigInt (to_satoshis (js_parseFloat (js_numToString x))) = Inr (decimal_sats ip fp)"
    using parseBip21_uri [OF assms(1) x(5,4)] x(3,6) by metis
qed

theorem receive_uri_read_back_witness:
  "\<exists>x. parseBip21 (receive_uri ''Fabc'' ''0.1'') = (''Fabc'', Some x) \<and>
    js_BigInt (to_satoshis (js_parseFloat (js_numToString x))) = Inr 10000000"
proof -
  have "decimal_text [0] [1] = ''0.1''" "address_ok ''Fabc''" by code_simp+
  then show ?thesis
    using receive_uri_read_back [of "''Fabc''" "[0]" "[1]"] by (simp add: digits_ok_def decimal_sats_def)
qed

section \<open>The push key\<close>

text \<open>The encoding the Web Push specification transmits: Base64 in its URL alphabet, without padding.\<close>

definition base64url :: "bytes \<Rightarrow> string" where
  "base64url bs =
     js_replace_all (CHR ''/'') (CHR ''_'') (js_replace_all (CHR ''+'') (CHR ''-'')
       (takeWhile (\<lambda>c. c \<noteq> CHR ''='') (js_btoa (map (\<lambda>b. char_of (unat b)) bs))))"

lemma js_btoa_body:
  "\<exists>body. js_btoa s = body @ replicate ((4 - length body mod 4) mod 4) (CHR ''='') \<and> set body \<subseteq> set B64_ALPHABET"
proof -
  have "\<forall>i \<in> set (b64_sextets (map of_char s)). i < 64" using b64_sextets_less [of "map of_char s"] by simp
  then have "set (map (\<lambda>i. B64_ALPHABET ! i) (b64_sextets (map of_char s))) \<subseteq> set B64_ALPHABET"
    by (auto simp: B64_ALPHABET_props)
  then show ?thesis
    by (intro exI [of _ "map (\<lambda>i. B64_ALPHABET ! i) (b64_sextets (map of_char s))"] conjI) (simp_all add: js_btoa_def Let_def)
qed

lemma replace_back:
  assumes "set body \<subseteq> set B64_ALPHABET"
  shows "js_replace_all (CHR ''_'') (CHR ''/'') (js_replace_all (CHR ''-'') (CHR ''+'')
    (js_replace_all (CHR ''/'') (CHR ''_'') (js_replace_all (CHR ''+'') (CHR ''-'') body) @ replicate k (CHR ''=''))) =
    body @ replicate k (CHR ''='')"
proof -
  have "CHR ''-'' \<notin> set B64_ALPHABET" "CHR ''_'' \<notin> set B64_ALPHABET" by code_simp+
  with assms have "c \<noteq> CHR ''-'' \<and> c \<noteq> CHR ''_''" if "c \<in> set body" for c using that by blast
  then show ?thesis by (auto simp: js_replace_all_def intro!: map_idI)
qed

text \<open>The key bytes the gateway encodes for the browser are the bytes the browser is given.\<close>

lemma urlBase64ToUint8Array_decodes: "urlBase64ToUint8Array (base64url bs) = Inr bs"
proof -
  let ?s = "map (\<lambda>b. char_of (unat b)) bs :: string"
  obtain body where body: "js_btoa ?s = body @ replicate ((4 - length body mod 4) mod 4) (CHR ''='')"
      "set body \<subseteq> set B64_ALPHABET"
    using js_btoa_body by blast
  have "CHR ''='' \<notin> set body" using body(2) B64_ALPHABET_props(3) by blast
  then have "takeWhile (\<lambda>c. c \<noteq> CHR ''='') (js_btoa ?s) = body"
    unfolding body(1) by (subst takeWhile_append2) (auto simp: takeWhile_replicate)
  then have e: "base64url bs = js_replace_all (CHR ''/'') (CHR ''_'') (js_replace_all (CHR ''+'') (CHR ''-'') body)"
    by (simp add: base64url_def)
  have "length (base64url bs) = length body" by (simp add: e js_replace_all_def)
  then have "urlBase64ToUint8Array (base64url bs) =
      bindr (js_atob (js_btoa ?s)) (\<lambda>raw. Inr (map (\<lambda>c. of_nat (of_char c)) raw))"
    unfolding body(1) urlBase64ToUint8Array_def Let_def using replace_back [OF body(2)] by (simp add: e)
  moreover have "(of_nat (of_char (char_of (unat b) :: char)) :: byte) = b" for b :: byte
    using unat_byte_less [of b] by simp
  ultimately show ?thesis by (simp add: js_atob_btoa o_def)
qed

end
