(* ===== verification/Wallet_State.thy ===== *)
theory Wallet_State
  imports Gateway Keys Vault Message Qr Wallet_Text
begin

text \<open>
  The wallet page's state (\<open>app.js\<close>, top of the module) and its addresses: which
  indices exist, their keys and addresses, and the coins the gateway reports for
  them. A handler runs to its end before the next event; a promise nobody awaits
  runs at the point where it is created.
\<close>

section \<open>State\<close>

text \<open>A row of the send form: its id and the texts of its two fields, and whether its remove button shows.\<close>

record recipient_row =
  row_id :: nat
  row_address :: string
  row_amount :: string
  row_remove :: string

text \<open>
  What the screens hold besides the texts of their elements: the open scanner and
  what its result is for, the quiz fields, what the buttons of the last rendered
  lists refer to, drawn QR codes, offered downloads, pending label timers, and how
  often \<open>Math.random\<close> was called.
\<close>

datatype scan_target = ScanRow nat | ScanProposal

record screens =
  qrScan :: "(scan_target \<times> scanner) option"
  quiz :: "(nat \<times> string) list"
  theme :: "string option"
  bumpTarget :: "string option"
  explorerTarget :: "string option"
  bookShown :: "jsval list"
  watchShown :: "jsval list"
  drawn :: "string \<rightharpoonup> string"
  signOptions :: "(string \<times> string) list"
  downloads :: "(string \<times> string) list"
  copyTimers :: "string list"
  draws :: nat

record wallet = browser +
  network_name :: string
  mnemonic :: "string option"
  pendingMnemonic :: "string option"
  addressIndices :: "int list"
  activeIndex :: int
  keys :: "int \<rightharpoonup> key_pair"
  addresses :: "int \<rightharpoonup> string"
  gatewayUrls :: "string \<rightharpoonup> string"
  gateway :: string
  stakeToken :: jsval
  sendFeeMinRate :: "int option"
  sendFeeRateOverride :: "int option"
  rows :: "recipient_row list"
  recipientIdCounter :: nat
  activeRecipientId :: "string option"
  seenTxids :: "jsval list option"
  lastHistory :: "jsval list option"
  txPollHandle :: "nat option"
  timers :: "nat list"
  nextTimer :: nat
  ui :: screens

definition blank_screens :: screens where
  "blank_screens = \<lparr>qrScan = None, quiz = [], theme = None, bumpTarget = None, explorerTarget = None, bookShown = [],
     watchShown = [], drawn = Map.empty, signOptions = [], downloads = [], copyTimers = [], draws = 0\<rparr>"

text \<open>The packages and browser services the page uses.\<close>

record page_lib =
  pg_random :: "nat \<Rightarrow> rat"
  pg_clipboard :: "string \<Rightarrow> unit result"
  pg_qr :: "string option \<Rightarrow> unit result"
  pg_push :: bool
  pg_permission :: "string result"
  pg_register :: "unit result"
  pg_subscription :: "jsval option result"
  pg_subscribe :: "bytes \<Rightarrow> jsval result"
  pg_localeDate :: "jsnum \<Rightarrow> string"
  pg_localeNumber :: "jsnum \<Rightarrow> string"
  pg_isoDate :: string

record env = platform +
  e_sha256 :: hash_fun
  e_ripemd160 :: hash_fun
  e_sign :: signer
  e_bip :: bip_lib
  e_msg :: msg_lib
  e_subtle :: subtle
  e_page :: page_lib

type_synonym 'a wio = "(wallet, 'a) io"

definition getui :: "(screens \<Rightarrow> 'a) \<Rightarrow> 'a wio" where
  "getui g = getm (\<lambda>s. g (ui s))"

definition modui :: "(screens \<Rightarrow> screens) \<Rightarrow> unit wio" where
  "modui f = modm (\<lambda>s. s\<lparr>ui := f (ui s)\<rparr>)"

text \<open>\<open>fic.NETWORKS[state.network]\<close>: the property reads on an unknown network throw.\<close>

definition current_network :: "network wio" where
  "current_network =
     bindm (getm network_name) (\<lambda>n. case NETWORKS n of None \<Rightarrow> throwm TypeError | Some net \<Rightarrow> ret net)"

definition GATEWAY_URLS :: "(string \<rightharpoonup> string) \<Rightarrow> string \<rightharpoonup> string" where
  "GATEWAY_URLS store =
     [''mainnet'' \<mapsto> item_or (store ''fic_gateway_url_mainnet'') [],
      ''testnet'' \<mapsto> item_or (store ''fic_gateway_url_testnet'') []]"

text \<open>An unknown network has no URL, which the string concatenation reads as \<open>undefined\<close>.\<close>

definition refreshGateway :: "unit wio" where
  "refreshGateway =
     bindm (getm network_name) (\<lambda>n. do_all [
       modm (\<lambda>s. s\<lparr>gateway := (case gatewayUrls s n of None \<Rightarrow> ''undefined'' | Some u \<Rightarrow> u)\<rparr>),
       set_text ''network-badge'' n])"

section \<open>Addresses\<close>

definition addressIndicesStorageKey :: "string wio" where
  "addressIndicesStorageKey = bindm (getm network_name) (\<lambda>n. ret (''fic_address_indices_'' @ n))"

text \<open>The page stores lists of integers; a text of another shape is refused.\<close>

fun index_of_value :: "jsval \<Rightarrow> int result" where
  "index_of_value (JNum (Fin x)) = (if of_int \<lfloor>x\<rfloor> = x then Inr \<lfloor>x\<rfloor> else Inl TypeError)"
| "index_of_value _ = Inl TypeError"

definition loadAddressIndices :: "int list wio" where
  "loadAddressIndices =
     bindm addressIndicesStorageKey (\<lambda>k. bindm (getItem k) (\<lambda>raw.
       if item_or raw [] = [] then ret [0]
       else bindm (liftr (json_parse (item_or raw []))) (\<lambda>parsed.
         if \<not> js_truthy parsed then ret [0]
         else bindm (liftr (js_get parsed ''length'')) (\<lambda>n.
           if js_truthy n then liftr (bindr (js_array parsed) (mapr index_of_value)) else ret [0]))))"

definition saveAddressIndices :: "'e env_scheme \<Rightarrow> unit wio" where
  "saveAddressIndices E =
     bindm addressIndicesStorageKey (\<lambda>k. bindm (getm addressIndices) (\<lambda>ixs.
       setItem E k (json_stringify (JArr (map js_int ixs)))))"

definition ensureKey :: "'e env_scheme \<Rightarrow> int \<Rightarrow> key_pair wio" where
  "ensureKey E index =
     bindm (getm keys) (\<lambda>ks. case ks index of
       Some k \<Rightarrow> ret k
     | None \<Rightarrow>
         bindm current_network (\<lambda>net. bindm (getm mnemonic) (\<lambda>m. case m of
           None \<Rightarrow> throwm TypeError
         | Some phrase \<Rightarrow>
             bindm (liftr (deriveKey (e_bip E) phrase net index [] False)) (\<lambda>key.
             thenm (modm (\<lambda>s. s\<lparr>keys := (keys s)(index \<mapsto> key)\<rparr>))
             (bindm (liftr (p2pkhAddress (e_sha256 E) (hash160 (e_sha256 E) (e_ripemd160 E) (kp_public key)) net)) (\<lambda>a.
             thenm (modm (\<lambda>s. s\<lparr>addresses := (addresses s)(index \<mapsto> a)\<rparr>)) (ret key)))))))"

definition deriveAllKnownAddresses :: "'e env_scheme \<Rightarrow> unit wio" where
  "deriveAllKnownAddresses E =
     bindm loadAddressIndices (\<lambda>ixs.
     thenm (modm (\<lambda>s. s\<lparr>addressIndices := ixs\<rparr>))
     (thenm (form ixs (\<lambda>idx. bindm (ensureKey E idx) (\<lambda>_. ret ())))
       (bindm (getm activeIndex) (\<lambda>act.
         if act \<notin> set ixs then modm (\<lambda>s. s\<lparr>activeIndex := last ixs\<rparr>) else ret ()))))"

text \<open>A missing entry prints as \<open>undefined\<close>.\<close>

definition address_text :: "int \<Rightarrow> string wio" where
  "address_text idx = getm (\<lambda>s. case addresses s idx of None \<Rightarrow> ''undefined'' | Some a \<Rightarrow> a)"

definition activeAddress :: "string wio" where
  "activeAddress = bindm (getm activeIndex) address_text"

text \<open>A coin with the index of the address it belongs to.\<close>

definition gatherAllUtxos :: "'e env_scheme \<Rightarrow> (jsval \<times> int) list wio" where
  "gatherAllUtxos E =
     bindm (getm addressIndices) (\<lambda>ixs. bindm (getm gateway) (\<lambda>gw.
       foldm (\<lambda>idx all.
         bindm (address_text idx) (\<lambda>a.
         bindm (utxos E gw a) (\<lambda>resp.
         bindm (liftr (bindr (js_get resp ''utxos'') js_iter)) (\<lambda>us.
           ret (all @ map (\<lambda>u. (u, idx)) us))))) ixs []))"

section \<open>Cached keys and addresses\<close>

lemma wp_getui [wp_simps]: "wp (getui g) Q E s = Q (g (ui s)) s"
  by (simp add: getui_def wp_simps)

lemma wp_modui [wp_simps]: "wp (modui f) Q E s = Q () (s\<lparr>ui := f (ui s)\<rparr>)"
  by (simp add: modui_def wp_simps)

lemma pres_getui [pres_intros]: "pres P (getui g)"
  by (simp add: getui_def pres_intros)

lemma pres_modui: "(\<And>s f. P s \<Longrightarrow> P (s\<lparr>ui := f\<rparr>)) \<Longrightarrow> pres P (modui g)"
  by (simp add: modui_def pres_modm)

text \<open>The key the phrase and the network give at an index.\<close>

definition own_key :: "'e env_scheme \<Rightarrow> wallet \<Rightarrow> int \<Rightarrow> key_pair \<Rightarrow> bool" where
  "own_key E s idx k =
     (case (mnemonic s, NETWORKS (network_name s)) of
        (Some m, Some net) \<Rightarrow> deriveKey (e_bip E) m net idx [] False = Inr k | _ \<Rightarrow> False)"

definition own_address :: "'e env_scheme \<Rightarrow> wallet \<Rightarrow> key_pair \<Rightarrow> string \<Rightarrow> bool" where
  "own_address E s k a =
     (case NETWORKS (network_name s) of None \<Rightarrow> False
      | Some net \<Rightarrow> p2pkhAddress (e_sha256 E) (hash160 (e_sha256 E) (e_ripemd160 E) (kp_public k)) net = Inr a)"

text \<open>Every cached key and address is the one the phrase and the network give.\<close>

definition coherent :: "'e env_scheme \<Rightarrow> wallet \<Rightarrow> bool" where
  "coherent E s =
     ((\<forall>idx k. keys s idx = Some k \<longrightarrow> own_key E s idx k) \<and>
      (\<forall>idx a. addresses s idx = Some a \<longrightarrow> (\<exists>k. keys s idx = Some k \<and> own_address E s k a)))"

lemma dom_free_coherent [simp]: "dom_free (coherent E)" "request_free (coherent E) m"
  by (simp_all add: dom_free_def request_free_def coherent_def own_key_def own_address_def)

lemma coherent_simps [simp]:
  "coherent E (s\<lparr>localStore := a\<rparr>) = coherent E s"
  "coherent E (s\<lparr>sessionStore := b\<rparr>) = coherent E s"
  "coherent E (s\<lparr>clipboard := c\<rparr>) = coherent E s"
  "coherent E (s\<lparr>pendingMnemonic := d\<rparr>) = coherent E s"
  "coherent E (s\<lparr>addressIndices := e\<rparr>) = coherent E s"
  "coherent E (s\<lparr>activeIndex := f\<rparr>) = coherent E s"
  "coherent E (s\<lparr>gateway := g\<rparr>) = coherent E s"
  "coherent E (s\<lparr>stakeToken := h\<rparr>) = coherent E s"
  "coherent E (s\<lparr>sendFeeMinRate := i\<rparr>) = coherent E s"
  "coherent E (s\<lparr>sendFeeRateOverride := j\<rparr>) = coherent E s"
  "coherent E (s\<lparr>rows := l\<rparr>) = coherent E s"
  "coherent E (s\<lparr>recipientIdCounter := n\<rparr>) = coherent E s"
  "coherent E (s\<lparr>activeRecipientId := p\<rparr>) = coherent E s"
  "coherent E (s\<lparr>seenTxids := q\<rparr>) = coherent E s"
  "coherent E (s\<lparr>lastHistory := r\<rparr>) = coherent E s"
  "coherent E (s\<lparr>txPollHandle := t\<rparr>) = coherent E s"
  "coherent E (s\<lparr>timers := u\<rparr>) = coherent E s"
  "coherent E (s\<lparr>nextTimer := v\<rparr>) = coherent E s"
  "coherent E (s\<lparr>ui := w\<rparr>) = coherent E s"
  by (simp_all add: coherent_def own_key_def own_address_def)

lemma own_cache [simp]:
  "own_key E (s\<lparr>keys := f\<rparr>) = own_key E s" "own_address E (s\<lparr>keys := f\<rparr>) = own_address E s"
  "own_key E (s\<lparr>addresses := g\<rparr>) = own_key E s" "own_address E (s\<lparr>addresses := g\<rparr>) = own_address E s"
  by (simp_all add: own_key_def own_address_def fun_eq_iff)

lemma coherent_empty: "coherent E (s\<lparr>keys := Map.empty, addresses := Map.empty\<rparr>)"
  by (simp add: coherent_def)

lemma coherent_add_key:
  assumes "coherent E s" "keys s idx = None" "own_key E s idx k"
  shows "coherent E (s\<lparr>keys := (keys s)(idx \<mapsto> k)\<rparr>)"
  using assms by (fastforce simp: coherent_def)

lemma coherent_add_address:
  assumes "coherent E s" "keys s idx = Some k" "own_address E s k a"
  shows "coherent E (s\<lparr>addresses := (addresses s)(idx \<mapsto> a)\<rparr>)"
  using assms by (auto simp: coherent_def)

lemma wp_ensureKey:
  assumes "coherent E s"
  shows "wp (ensureKey E idx) (\<lambda>k t. coherent E t \<and> keys t idx = Some k \<and> own_key E t idx k) (\<lambda>_. coherent E) s"
proof (cases "keys s idx")
  case None
  show ?thesis
  proof (cases "mnemonic s"; cases "NETWORKS (network_name s)")
    fix m net
    assume mn: "mnemonic s = Some m" "NETWORKS (network_name s) = Some net"
    let ?ok = "own_key E s idx"
    have ok: "?ok k" if "deriveKey (e_bip E) m net idx [] False = Inr k" for k
      using that mn by (simp add: own_key_def)
    show ?thesis
      using assms None mn coherent_add_key [OF assms None ok] coherent_add_address [of E "s\<lparr>keys := (keys s)(idx \<mapsto> _)\<rparr>"]
      by (auto simp: ensureKey_def current_network_def wp_simps own_key_def own_address_def split: sum.splits)
  qed (simp_all add: ensureKey_def current_network_def wp_simps None assms)
next
  case (Some k)
  then have "own_key E s idx k" using assms by (simp add: coherent_def)
  with Some assms show ?thesis by (simp add: ensureKey_def wp_simps)
qed

lemma pres_ensureKey [pres_intros]: "pres (coherent E) (ensureKey E idx)"
  unfolding pres_wp using wp_ensureKey by (fastforce elim: wp_mono)

text \<open>Everything but the caches is left alone by a key lookup.\<close>

definition cache_free :: "(wallet \<Rightarrow> bool) \<Rightarrow> bool" where
  "cache_free P = ((\<forall>s f. P s \<longrightarrow> P (s\<lparr>keys := f\<rparr>)) \<and> (\<forall>s f. P s \<longrightarrow> P (s\<lparr>addresses := f\<rparr>)))"

lemma pres_current_network [pres_intros]: "pres P current_network"
  by (simp add: current_network_def pres_intros)

lemma pres_ensureKey_frame: "cache_free P \<Longrightarrow> pres P (ensureKey E idx)"
  by (simp add: ensureKey_def pres_intros pres_modm cache_free_def)

lemma pres_address_text [pres_intros]: "pres P (address_text idx)" "pres P activeAddress"
  by (simp_all add: address_text_def activeAddress_def pres_intros)

lemma pres_loadAddressIndices [pres_intros]: "pres P loadAddressIndices" "pres P addressIndicesStorageKey"
  by (simp_all add: loadAddressIndices_def addressIndicesStorageKey_def pres_intros)

lemma pres_gatherAllUtxos [pres_intros]: "request_free P ''GET'' \<Longrightarrow> pres P (gatherAllUtxos E)"
  by (simp add: gatherAllUtxos_def utxos_def pres_intros)

lemma pres_deriveAllKnownAddresses [pres_intros]: "pres (coherent E) (deriveAllKnownAddresses E)"
  by (simp add: deriveAllKnownAddresses_def pres_intros pres_modm)

section \<open>A sample wallet\<close>

definition sample_page :: page_lib where
  "sample_page = \<lparr>pg_random = (\<lambda>n. of_nat n / 12), pg_clipboard = \<lambda>_. Inr (), pg_qr = \<lambda>_. Inr (), pg_push = False,
     pg_permission = Inr ''denied'', pg_register = Inr (), pg_subscription = Inr None, pg_subscribe = \<lambda>_. Inl DOMException,
     pg_localeDate = \<lambda>_. [], pg_localeNumber = js_numToString, pg_isoDate = ''2025-01-01''\<rparr>"

definition sample_env :: env where
  "sample_env = platform.extend sample_platform
     \<lparr>e_sha256 = \<lambda>_. replicate 32 7, e_ripemd160 = \<lambda>_. replicate 20 1, e_sign = \<lambda>_ _. Inl TypeError, e_bip = sample_bip,
      e_msg = sample_msg, e_subtle = sample_subtle, e_page = sample_page\<rparr>"

definition sample_wallet :: wallet where
  "sample_wallet = browser.extend blank_browser
     \<lparr>network_name = ''mainnet'', mnemonic = Some ''abandon'', pendingMnemonic = None, addressIndices = [0], activeIndex = 0,
      keys = Map.empty, addresses = Map.empty, gatewayUrls = Map.empty, gateway = [], stakeToken = JNull, sendFeeMinRate = None,
      sendFeeRateOverride = None, rows = [], recipientIdCounter = 0, activeRecipientId = None, seenTxids = None,
      lastHistory = None, txPollHandle = None, timers = [], nextTimer = 1, ui = blank_screens\<rparr>"

lemma sample_coherent: "coherent E (sample_wallet\<lparr>rows := r\<rparr>)" "coherent E sample_wallet"
  by (simp_all add: coherent_def sample_wallet_def browser.defs)

end
