(* ===== verification/Coin_Select.thy ===== *)
theory Coin_Select
  imports Js_Value
begin

text \<open>
  Choosing coins to spend: the loop the send form and the multisig proposal form
  share (\<open>app.js\<close>). Coins are taken in the order the gateway lists them until they
  pay the amount and the fee for that many inputs.
\<close>

section \<open>The loop\<close>

definition coin_value :: "jsval \<Rightarrow> int result" where
  "coin_value u = bindr (js_get u ''value'') js_toBigInt"

fun choose_coins :: "('u \<Rightarrow> int result) \<Rightarrow> (nat \<Rightarrow> int) \<Rightarrow> int \<Rightarrow> 'u list \<Rightarrow> 'u list \<Rightarrow> int \<Rightarrow> ('u list \<times> int) result" where
  "choose_coins val fee amount [] chosen totalIn = Inr (chosen, totalIn)"
| "choose_coins val fee amount (u # us) chosen totalIn =
     bindr (val u) (\<lambda>v.
       let chosen' = chosen @ [u]; totalIn' = totalIn + v
       in if totalIn' \<ge> amount + fee (length chosen') then Inr (chosen', totalIn')
          else choose_coins val fee amount us chosen' totalIn')"

text \<open>The two size estimates.\<close>

definition send_vsize :: "nat \<Rightarrow> nat \<Rightarrow> int" where
  "send_vsize outputCount n = 10 + int n * 148 + int outputCount * 34"

definition multisig_vsize :: "nat \<Rightarrow> nat \<Rightarrow> int" where
  "multisig_vsize scriptLength n = 10 + int n * (int scriptLength + 150) + 2 * 34"

section \<open>What it chooses\<close>

text \<open>The first \<open>k\<close> coins pay the amount and the fee of spending them.\<close>

definition prefix_pays :: "(nat \<Rightarrow> int) \<Rightarrow> int \<Rightarrow> int list \<Rightarrow> nat \<Rightarrow> bool" where
  "prefix_pays fee amount vs k = (0 < k \<and> k \<le> length vs \<and> amount + fee k \<le> sum_list (take k vs))"

lemma choose_coins_from:
  assumes "mapr val coins = Inr vs" "length taken = length ds"
  shows "\<exists>n \<le> length coins. choose_coins val fee amount coins taken (sum_list ds) =
      Inr (taken @ take n coins, sum_list ds + sum_list (take n vs)) \<and>
    (\<forall>k. 0 < k \<and> k < n \<longrightarrow> sum_list ds + sum_list (take k vs) < amount + fee (length ds + k)) \<and>
    ((0 < n \<and> amount + fee (length ds + n) \<le> sum_list ds + sum_list (take n vs)) \<or>
     (n = length coins \<and> (0 < n \<longrightarrow> sum_list ds + sum_list (take n vs) < amount + fee (length ds + n))))"
  using assms
proof (induction coins arbitrary: vs taken ds)
  case (Cons u us)
  then obtain v ws where v: "val u = Inr v" "mapr val us = Inr ws" "vs = v # ws" by (auto simp: result_simps)
  show ?case
  proof (cases "amount + fee (Suc (length ds)) \<le> sum_list ds + v")
    case True
    then show ?thesis
      by (intro exI [of _ 1]) (simp add: v(1,3) Cons.prems(2))
  next
    case False
    have len: "length (taken @ [u]) = length (ds @ [v])" using Cons.prems(2) by simp
    obtain n where n: "n \<le> length us"
        "choose_coins val fee amount us (taken @ [u]) (sum_list (ds @ [v])) =
           Inr ((taken @ [u]) @ take n us, sum_list (ds @ [v]) + sum_list (take n ws))"
        "\<forall>k. 0 < k \<and> k < n \<longrightarrow> sum_list (ds @ [v]) + sum_list (take k ws) < amount + fee (length (ds @ [v]) + k)"
        "(0 < n \<and> amount + fee (length (ds @ [v]) + n) \<le> sum_list (ds @ [v]) + sum_list (take n ws)) \<or>
         (n = length us \<and> (0 < n \<longrightarrow> sum_list (ds @ [v]) + sum_list (take n ws) < amount + fee (length (ds @ [v]) + n)))"
      using Cons.IH [OF v(2) len] by blast
    have lt: "sum_list ds + sum_list (take k (v # ws)) < amount + fee (length ds + k)" if "0 < k" "k < Suc n" for k
      using that n(3) False by (cases k; cases "k - 1") (auto simp: add.assoc)
    show ?thesis
    proof (intro exI [of _ "Suc n"] conjI)
      show "choose_coins val fee amount (u # us) taken (sum_list ds) =
          Inr (taken @ take (Suc n) (u # us), sum_list ds + sum_list (take (Suc n) vs))"
        using n(2) False by (simp add: v(1,3) Cons.prems(2) add.assoc)
      show "\<forall>k. 0 < k \<and> k < Suc n \<longrightarrow> sum_list ds + sum_list (take k vs) < amount + fee (length ds + k)"
        using lt v(3) by blast
      show "(0 < Suc n \<and> amount + fee (length ds + Suc n) \<le> sum_list ds + sum_list (take (Suc n) vs)) \<or>
          (Suc n = length (u # us) \<and>
            (0 < Suc n \<longrightarrow> sum_list ds + sum_list (take (Suc n) vs) < amount + fee (length ds + Suc n)))"
        using n(4) False by (cases "n = 0") (auto simp: v(3) add.assoc)
    qed (use n(1) in simp)
  qed
qed simp

lemma choose_coins_prefix:
  assumes "mapr val coins = Inr vs"
  shows "\<exists>n \<le> length coins. choose_coins val fee amount coins [] 0 = Inr (take n coins, sum_list (take n vs)) \<and>
    (\<forall>k < n. \<not> prefix_pays fee amount vs k) \<and> (prefix_pays fee amount vs n \<or> n = length coins \<and> \<not> prefix_pays fee amount vs n)"
proof -
  obtain n where n: "n \<le> length coins" "choose_coins val fee amount coins [] 0 = Inr (take n coins, sum_list (take n vs))"
      "\<forall>k. 0 < k \<and> k < n \<longrightarrow> sum_list (take k vs) < amount + fee k"
      "(0 < n \<and> amount + fee n \<le> sum_list (take n vs)) \<or> (n = length coins \<and> (0 < n \<longrightarrow> sum_list (take n vs) < amount + fee n))"
    using choose_coins_from [OF assms, of "[]" "[]" fee amount] by auto
  have "length vs = length coins" by (rule mapr_Inr_length [OF assms])
  moreover have "\<not> prefix_pays fee amount vs k" if "k < n" for k
    using that n(3) by (auto simp: prefix_pays_def not_le)
  ultimately show ?thesis using n by (intro exI [of _ n]) (auto simp: prefix_pays_def)
qed

text \<open>
  C8: The loop takes the shortest leading run of coins that pays the amount and its own fee; if no leading run
  pays it takes every coin.
\<close>

theorem choose_coins_least:
  assumes "mapr val coins = Inr vs"
  shows "choose_coins val fee amount coins [] 0 =
    (case find (prefix_pays fee amount vs) [0..<Suc (length vs)] of
       Some k \<Rightarrow> Inr (take k coins, sum_list (take k vs))
     | None \<Rightarrow> Inr (coins, sum_list vs))"
proof -
  obtain n where n: "n \<le> length coins" "choose_coins val fee amount coins [] 0 = Inr (take n coins, sum_list (take n vs))"
      "\<forall>k < n. \<not> prefix_pays fee amount vs k"
      "prefix_pays fee amount vs n \<or> n = length coins \<and> \<not> prefix_pays fee amount vs n"
    using choose_coins_prefix [OF assms] by blast
  have len: "length vs = length coins" by (rule mapr_Inr_length [OF assms])
  show ?thesis
  proof (cases "prefix_pays fee amount vs n")
    case True
    have "find (prefix_pays fee amount vs) [0..<Suc (length vs)] = Some n"
      unfolding find_Some_iff using True n(1,3) len by (intro exI [of _ n]) (simp del: upt_Suc)
    with n(2) show ?thesis by simp
  next
    case False
    then have nl: "n = length vs" using n(4) len by simp
    have "\<not> prefix_pays fee amount vs k" if "k \<le> n" for k
      using that False n(3) by (cases "k = n") simp_all
    with nl have "find (prefix_pays fee amount vs) [0..<Suc (length vs)] = None"
      unfolding find_None_iff by (simp del: upt_Suc)
    with n(2) nl len show ?thesis by simp
  qed
qed

theorem choose_coins_least_witness:
  "choose_coins (\<lambda>v. Inr v) (\<lambda>n. 10 * send_vsize 2 n) 50000 [30000, 40000, 90000 :: int] [] 0 = Inr ([30000, 40000], 70000)"
proof -
  have f: "(case find (prefix_pays (\<lambda>n. 10 * send_vsize 2 n) 50000 [30000, 40000, 90000]) [0..<Suc (length [30000, 40000, 90000 :: int])] of
      Some k \<Rightarrow> Inr (take k [30000, 40000, 90000], sum_list (take k [30000, 40000, 90000]))
    | None \<Rightarrow> Inr ([30000, 40000, 90000], sum_list [30000, 40000, 90000])) = (Inr ([30000, 40000], 70000) :: (int list \<times> int) result)"
    by code_simp
  have m: "mapr (\<lambda>v. Inr v) [30000, 40000, 90000 :: int] = Inr [30000, 40000, 90000]" by simp
  show ?thesis by (rule trans [OF choose_coins_least [OF m] f])
qed

text \<open>
  Only leading runs are tried: with a coin worth less than the fee of spending it in front, the loop ends
  short of the amount although one coin alone would pay it.
\<close>

lemma choose_coins_misses_payment:
  "\<exists>coins amount rate. choose_coins (\<lambda>v. Inr v) (\<lambda>n. rate * send_vsize 2 n) amount coins [] 0 = Inr (coins, sum_list coins) \<and>
     sum_list coins < amount + rate * send_vsize 2 (length coins) \<and>
     (\<exists>c \<in> set coins. amount + rate * send_vsize 2 1 \<le> c)"
  by (intro exI [of _ "[1, 100000 :: int]"] exI [of _ "97740 :: int"] exI [of _ "10 :: int"])
     (simp add: send_vsize_def)

end
