(* ===== verification/Wallet_Send.thy ===== *)
theory Wallet_Send
  imports Wallet_State Coin_Select
begin

text \<open>
  Sending (\<open>app.js\<close>, the send and fee sections): the recipient rows, the fee rate
  control, the send handler, the log of sent transactions and fee bumping.
\<close>

section \<open>Fee rate\<close>

definition effectiveSendFeeRate :: "int wio" where
  "effectiveSendFeeRate =
     getm (\<lambda>s. case sendFeeRateOverride s of Some r \<Rightarrow> r
       | None \<Rightarrow> (case sendFeeMinRate s of Some r \<Rightarrow> r | None \<Rightarrow> 0))"

definition fee_estimate_text :: "int \<Rightarrow> int \<Rightarrow> string" where
  "fee_estimate_text roughFee minRate =
     ''~'' @ formatFic roughFee @ '' FIC for a single-input send (scales up with more inputs/recipients) -- recommended: '' @
     js_toString 10 minRate @ '' sat/vB''"

definition updateSendFeeEstimate :: "unit wio" where
  "updateSendFeeEstimate =
     bindm (getm sendFeeMinRate) (\<lambda>m. case m of
       None \<Rightarrow> set_text ''send-fee-estimate'' []
     | Some minRate \<Rightarrow>
         bindm effectiveSendFeeRate (\<lambda>rate. bindm (getm rows) (\<lambda>rs.
           let rowCount = (if rs = [] then 1 else length rs); outputCount = rowCount + 1;
               roughVsize = 10 + 148 + int outputCount * 34
           in set_text ''send-fee-estimate'' (fee_estimate_text (rate * roughVsize) minRate))))"

definition updateSendAmountFiat :: "unit wio" where
  "updateSendAmountFiat = updateSendFeeEstimate"

definition fetch_min_rate :: "'e env_scheme \<Rightarrow> int wio" where
  "fetch_min_rate E =
     bindm (getm gateway) (\<lambda>gw. bindm (feeEstimate E gw 6) (\<lambda>feeResp.
       liftr (bindr (js_get feeResp ''fee_rate_sat_per_vbyte'') js_toBigInt)))"

definition loadSendFeeRate :: "'e env_scheme \<Rightarrow> unit wio" where
  "loadSendFeeRate E =
     thenm
       (catchm
         (bindm (fetch_min_rate E) (\<lambda>r. do_all [
            modm (\<lambda>s. s\<lparr>sendFeeMinRate := Some r\<rparr>),
            modm (\<lambda>s. s\<lparr>sendFeeRateOverride := None\<rparr>),
            set_value ''send-fee-rate.min'' (js_toString 10 r),
            set_value ''send-fee-rate'' (js_toString 10 r)]))
         (\<lambda>_. modm (\<lambda>s. s\<lparr>sendFeeMinRate := None\<rparr>)))
       updateSendFeeEstimate"

definition clamp_rate :: "int \<Rightarrow> int \<Rightarrow> int" where
  "clamp_rate minRate rate =
     (let ceiling = minRate * 50 in if rate < minRate then minRate else if rate > ceiling then ceiling else rate)"

definition setSendFeeRate :: "int \<Rightarrow> unit wio" where
  "setSendFeeRate rate =
     bindm (getm sendFeeMinRate) (\<lambda>m. case m of
       None \<Rightarrow> ret ()
     | Some minRate \<Rightarrow>
         (let clamped = clamp_rate minRate rate in do_all [
           modm (\<lambda>s. s\<lparr>sendFeeRateOverride := (if clamped = minRate then None else Some clamped)\<rparr>),
           set_value ''send-fee-rate'' (js_toString 10 clamped),
           updateSendFeeEstimate]))"

definition on_fee_decrease :: "unit wio" where
  "on_fee_decrease = bindm effectiveSendFeeRate (\<lambda>r. setSendFeeRate (r - 10))"

definition on_fee_increase :: "unit wio" where
  "on_fee_increase = bindm effectiveSendFeeRate (\<lambda>r. setSendFeeRate (r + 10))"

definition min_rate_or_zero :: "int wio" where
  "min_rate_or_zero = getm (\<lambda>s. case sendFeeMinRate s of Some r \<Rightarrow> r | None \<Rightarrow> 0)"

definition on_fee_reset :: "unit wio" where
  "on_fee_reset = bindm min_rate_or_zero setSendFeeRate"

text \<open>\<open>parseInt\<close> returns a number, so a long digit run is rounded before \<open>BigInt\<close>.\<close>

definition on_fee_change :: "unit wio" where
  "on_fee_change =
     bindm (get_value ''send-fee-rate'') (\<lambda>v.
       case map_option js_Number (js_parseInt 10 v) of
         Some (Fin x) \<Rightarrow> if x \<le> 0 then on_fee_reset else bindm (liftr (js_BigInt (Fin x))) setSendFeeRate
       | _ \<Rightarrow> on_fee_reset)"

section \<open>Recipient rows\<close>

definition new_row :: "nat \<Rightarrow> recipient_row" where
  "new_row i = \<lparr>row_id = i, row_address = [], row_amount = [], row_remove = []\<rparr>"

definition update_row :: "nat \<Rightarrow> (recipient_row \<Rightarrow> recipient_row) \<Rightarrow> unit wio" where
  "update_row i f = modm (\<lambda>s. s\<lparr>rows := map (\<lambda>r. if row_id r = i then f r else r) (rows s)\<rparr>)"

text \<open>A number field keeps only texts of finite numbers.\<close>

definition amount_field :: "jsnum \<Rightarrow> string" where
  "amount_field n = (case n of Fin _ \<Rightarrow> js_numToString n | _ \<Rightarrow> [])"

definition fill_row :: "string \<times> jsnum option \<Rightarrow> recipient_row \<Rightarrow> recipient_row" where
  "fill_row = (\<lambda>(address, amount) r.
     (case amount of None \<Rightarrow> r\<lparr>row_address := address\<rparr>
      | Some n \<Rightarrow> r\<lparr>row_address := address, row_amount := amount_field n\<rparr>))"

definition on_row_focus :: "nat \<Rightarrow> unit wio" where
  "on_row_focus i = modm (\<lambda>s. s\<lparr>activeRecipientId := Some (js_toString 10 (int i))\<rparr>)"

definition on_address_change :: "nat \<Rightarrow> unit wio" where
  "on_address_change i =
     update_row i (\<lambda>r. let parsed = parseBip21 (row_address r)
       in if fst parsed \<noteq> row_address r then fill_row parsed r else r)"

definition on_row_scanned :: "nat \<Rightarrow> string \<Rightarrow> unit wio" where
  "on_row_scanned i text = update_row i (fill_row (parseBip21 text))"

definition updateRecipientRemoveButtons :: "unit wio" where
  "updateRecipientRemoveButtons =
     modm (\<lambda>s. s\<lparr>rows := map (\<lambda>r. r\<lparr>row_remove := (if length (rows s) > 1 then [] else ''none'')\<rparr>) (rows s)\<rparr>)"

definition on_row_remove :: "nat \<Rightarrow> unit wio" where
  "on_row_remove i = do_all [
     modm (\<lambda>s. s\<lparr>rows := filter (\<lambda>r. row_id r \<noteq> i) (rows s)\<rparr>),
     updateRecipientRemoveButtons,
     updateSendAmountFiat]"

definition addRecipientRow :: "unit wio" where
  "addRecipientRow =
     bindm (getm recipientIdCounter) (\<lambda>i. do_all [
       modm (\<lambda>s. s\<lparr>recipientIdCounter := i + 1, rows := rows s @ [new_row i]\<rparr>),
       modm (\<lambda>s. s\<lparr>activeRecipientId :=
         (case activeRecipientId s of None \<Rightarrow> Some (js_toString 10 (int i)) | Some a \<Rightarrow> Some a)\<rparr>),
       updateRecipientRemoveButtons])"

definition resetSendRecipients :: "unit wio" where
  "resetSendRecipients = do_all [
     modm (\<lambda>s. s\<lparr>rows := [], recipientIdCounter := 0, activeRecipientId := None\<rparr>),
     addRecipientRow]"

section \<open>The log of sent transactions\<close>

text \<open>An entry that is \<open>undefined\<close> is not written.\<close>

definition sent_in_value :: "sent_in \<Rightarrow> jsval" where
  "sent_in_value i = JObj [(''txid'', JStr (si_txid i)), (''vout'', js_int (si_vout i)),
     (''valueSatoshis'', js_int (si_value i)), (''derivationIndex'', js_int (si_derivationIndex i))]"

definition sent_out_value :: "sent_out \<Rightarrow> jsval" where
  "sent_out_value o' = JObj ([(''scriptPubKeyHex'', JStr (so_scriptPubKeyHex o')), (''valueSatoshis'', js_int (so_value o')),
     (''isChange'', JBool (so_isChange o'))] @
     (case so_changeIndex o' of None \<Rightarrow> [] | Some c \<Rightarrow> [(''changeIndex'', js_int c)]))"

definition sent_record_value :: "sent_record \<Rightarrow> jsval" where
  "sent_record_value r = JObj ([(''inputs'', JArr (map sent_in_value (sr_inputs r))),
     (''outputs'', JArr (map sent_out_value (sr_outputs r))), (''feeSatoshis'', js_int (sr_fee r))] @
     (case sr_replaces r of None \<Rightarrow> [] | Some t \<Rightarrow> [(''replacesTxid'', JStr t)]))"

text \<open>Reading an entry back; a text of another shape than the page writes is refused.\<close>

definition int_field :: "jsval \<Rightarrow> string \<Rightarrow> int result" where
  "int_field v k = bindr (js_get v k) index_of_value"

definition text_field :: "jsval \<Rightarrow> string \<Rightarrow> string result" where
  "text_field v k = bindr (js_get v k) (\<lambda>x. case x of JStr t \<Rightarrow> Inr t | _ \<Rightarrow> Inl TypeError)"

definition sent_in_of :: "jsval \<Rightarrow> sent_in result" where
  "sent_in_of v =
     bindr (text_field v ''txid'') (\<lambda>t. bindr (int_field v ''vout'') (\<lambda>n. bindr (int_field v ''valueSatoshis'') (\<lambda>a.
     bindr (int_field v ''derivationIndex'') (\<lambda>d.
       Inr \<lparr>si_txid = t, si_vout = n, si_value = a, si_derivationIndex = d\<rparr>))))"

definition sent_out_of :: "jsval \<Rightarrow> sent_out result" where
  "sent_out_of v =
     bindr (text_field v ''scriptPubKeyHex'') (\<lambda>t. bindr (int_field v ''valueSatoshis'') (\<lambda>a.
     bindr (js_get v ''isChange'') (\<lambda>c. bindr (js_get v ''changeIndex'') (\<lambda>x.
     bindr (if x = JUndef then Inr None else bindr (index_of_value x) (\<lambda>i. Inr (Some i))) (\<lambda>ix.
       Inr \<lparr>so_scriptPubKeyHex = t, so_value = a, so_isChange = js_truthy c, so_changeIndex = ix\<rparr>)))))"

definition sent_record_of :: "jsval \<Rightarrow> sent_record result" where
  "sent_record_of v =
     bindr (bindr (bindr (js_get v ''inputs'') js_array) (mapr sent_in_of)) (\<lambda>ins.
     bindr (bindr (bindr (js_get v ''outputs'') js_array) (mapr sent_out_of)) (\<lambda>outs.
     bindr (int_field v ''feeSatoshis'') (\<lambda>fee. bindr (js_get v ''replacesTxid'') (\<lambda>r.
       Inr \<lparr>sr_inputs = ins, sr_outputs = outs, sr_fee = fee,
         sr_replaces = (case r of JStr t \<Rightarrow> Some t | _ \<Rightarrow> None)\<rparr>))))"

definition js_entries :: "jsval \<Rightarrow> (string \<times> jsval) list result" where
  "js_entries v = (case v of JObj kvs \<Rightarrow> Inr kvs | _ \<Rightarrow> Inl TypeError)"

definition loadSentTxLog :: "(string \<times> jsval) list wio" where
  "loadSentTxLog = bindm (load_json ''fic_sent_tx_log'' (JObj [])) (\<lambda>v. liftr (js_entries v))"

definition saveSentTxLog :: "'e env_scheme \<Rightarrow> (string \<times> jsval) list \<Rightarrow> unit wio" where
  "saveSentTxLog E entries = setItem E ''fic_sent_tx_log'' (json_stringify (JObj entries))"

definition recordSentTx :: "'e env_scheme \<Rightarrow> string \<Rightarrow> sent_record \<Rightarrow> unit wio" where
  "recordSentTx E txid r =
     bindm loadSentTxLog (\<lambda>entries. saveSentTxLog E (obj_set entries txid (sent_record_value r)))"

section \<open>Sending\<close>

text \<open>
  The rows in order; \<open>None\<close> for an incomplete row, at which the handler gives up.
  An amount too large for a finite number throws.
\<close>

fun read_recipients :: "recipient_row list \<Rightarrow> (string \<times> int) list option result" where
  "read_recipients [] = Inr (Some [])"
| "read_recipients (r # rs) =
     (let address = js_trim (row_address r); amountFic = js_parseFloat (row_amount r) in
      if address = [] \<or> \<not> js_truthy_num amountFic \<or> js_less_eq amountFic (Fin 0) then Inr None
      else bindr (js_BigInt (to_satoshis amountFic)) (\<lambda>n.
        bindr (read_recipients rs) (\<lambda>rest. Inr (map_option (Cons (address, n)) rest))))"

definition script_for :: "AddressType \<times> bytes \<Rightarrow> bytes" where
  "script_for = (\<lambda>(ty, h). case ty of P2pkh \<Rightarrow> p2pkhScriptPubKey h | P2sh \<Rightarrow> p2shScriptPubKey h
     | P2wpkh \<Rightarrow> p2wpkhScriptPubKey h)"

text \<open>\<open>Number(n)\<close> of an amount, which the serialiser turns back into a \<open>BigInt\<close>.\<close>

definition as_number :: "int \<Rightarrow> int result" where
  "as_number n = js_BigInt (js_Number n)"

definition dest_output :: "hash_fun \<Rightarrow> network \<Rightarrow> string \<times> int \<Rightarrow> tx_out result" where
  "dest_output sha256 net = (\<lambda>(address, amount).
     bindr (decodeAddress sha256 address net) (\<lambda>decoded.
     bindr (as_number amount) (\<lambda>v.
       Inr \<lparr>scriptPubKey = script_for decoded, valueSatoshis = v\<rparr>)))"

definition send_input :: "'e env_scheme \<Rightarrow> (int \<rightharpoonup> key_pair) \<Rightarrow> jsval \<times> int \<Rightarrow> utxo_in result" where
  "send_input E ks = (\<lambda>(u, idx).
     (case ks idx of None \<Rightarrow> Inl TypeError
      | Some key \<Rightarrow>
          bindr (text_field u ''txid'') (\<lambda>t. bindr (int_field u ''vout'') (\<lambda>n.
          bindr (bindr (coin_value u) as_number) (\<lambda>v.
            Inr \<lparr>u_txid = rev (hexToBytes t), u_vout = n, u_value = v,
              u_pubkeyHash = hash160 (e_sha256 E) (e_ripemd160 E) (kp_public key),
              u_privateKey = Some (kp_private key), u_publicKey = Some (kp_public key), u_sequence = None\<rparr>)))))"

definition sent_input :: "jsval \<times> int \<Rightarrow> sent_in result" where
  "sent_input = (\<lambda>(u, idx).
     bindr (text_field u ''txid'') (\<lambda>t. bindr (int_field u ''vout'') (\<lambda>n. bindr (bindr (coin_value u) as_number) (\<lambda>v.
       Inr \<lparr>si_txid = t, si_vout = n, si_value = v, si_derivationIndex = idx\<rparr>))))"

definition sent_output :: "bool \<Rightarrow> int \<Rightarrow> nat \<Rightarrow> nat \<Rightarrow> tx_out \<Rightarrow> sent_out" where
  "sent_output hasChange act n i o' =
     (let isc = (hasChange \<and> i = n - 1) in
      \<lparr>so_scriptPubKeyHex = bytesToHex (scriptPubKey o'), so_value = valueSatoshis o', so_isChange = isc,
       so_changeIndex = (if isc then Some act else None)\<rparr>)"

definition sent_outputs :: "bool \<Rightarrow> int \<Rightarrow> tx_out list \<Rightarrow> sent_out list" where
  "sent_outputs hasChange act outs = map2 (sent_output hasChange act (length outs)) [0..<length outs] outs"

definition insufficient_text :: "string \<Rightarrow> int \<Rightarrow> int \<Rightarrow> string" where
  "insufficient_text what have need = what @ '': have '' @ formatFic have @ '', need '' @ formatFic need"

definition send_fee_rate :: "int option \<Rightarrow> int \<Rightarrow> int" where
  "send_fee_rate override minRate = (case override of Some r \<Rightarrow> if r > minRate then r else minRate | None \<Rightarrow> minRate)"

definition with_change :: "'e env_scheme \<Rightarrow> key_pair \<Rightarrow> tx_out list \<Rightarrow> int \<Rightarrow> tx_out list result" where
  "with_change E changeKey destOutputs change =
     (if change > 0
      then bindr (as_number change) (\<lambda>v. Inr (destOutputs @
        [\<lparr>scriptPubKey = p2pkhScriptPubKey (hash160 (e_sha256 E) (e_ripemd160 E) (kp_public changeKey)), valueSatoshis = v\<rparr>]))
      else Inr destOutputs)"

text \<open>Signing, broadcasting and recording, once the coins are chosen.\<close>

definition sign_and_broadcast ::
  "'e env_scheme \<Rightarrow> tx_out list \<Rightarrow> (jsval \<times> int) list \<Rightarrow> int \<Rightarrow> int \<Rightarrow> int \<Rightarrow> key_pair \<Rightarrow> unit wio" where
  "sign_and_broadcast E destOutputs chosen change feeSatoshis act changeKey =
     bindm (liftr (with_change E changeKey destOutputs change)) (\<lambda>outputs.
     bindm (getm keys) (\<lambda>ks.
     bindm (liftr (mapr (send_input E ks) chosen)) (\<lambda>inputs.
     bindm (liftr (buildAndSignTransaction (e_sha256 E) (e_sign E) inputs outputs None None 0)) (\<lambda>rawTx.
     bindm (getm gateway) (\<lambda>gw.
     bindm (broadcast E gw (bytesToHex rawTx)) (\<lambda>result.
     bindm (liftr (js_get result ''txid'')) (\<lambda>txid.
     thenm (set_text ''send-success'' (''Broadcast: '' @ js_String txid))
     (bindm (liftr (mapr sent_input chosen)) (\<lambda>sentIns.
      bindm (liftr (as_number feeSatoshis)) (\<lambda>fee. do_all [
        recordSentTx E (js_String txid)
          \<lparr>sr_inputs = sentIns, sr_outputs = sent_outputs (change > 0) act outputs, sr_fee = fee, sr_replaces = None\<rparr>,
        resetSendRecipients,
        updateSendAmountFiat]))))))))))"

definition send_chosen ::
  "'e env_scheme \<Rightarrow> tx_out list \<Rightarrow> (jsval \<times> int) list \<Rightarrow> int \<Rightarrow> int \<Rightarrow> unit wio" where
  "send_chosen E destOutputs chosen change feeSatoshis =
     bindm (getm activeIndex) (\<lambda>act.
     bindm (ensureKey E act) (sign_and_broadcast E destOutputs chosen change feeSatoshis act))"

definition send_body :: "'e env_scheme \<Rightarrow> (string \<times> int) list \<Rightarrow> unit wio" where
  "send_body E recipients =
     bindm current_network (\<lambda>net.
     bindm (liftr (mapr (dest_output (e_sha256 E) net) recipients)) (\<lambda>destOutputs.
     let amountTotal = sum_list (map snd recipients) in
     bindm (gatherAllUtxos E) (\<lambda>allUtxos.
     bindm (fetch_min_rate E) (\<lambda>minRate.
     thenm (modm (\<lambda>s. s\<lparr>sendFeeMinRate := Some minRate\<rparr>))
     (bindm (getm sendFeeRateOverride) (\<lambda>override.
       let feeRate = send_fee_rate override minRate; outputCount = length recipients + 1 in
       bindm (liftr (choose_coins (\<lambda>(u, _). coin_value u) (\<lambda>n. feeRate * send_vsize outputCount n) amountTotal allUtxos [] 0))
         (\<lambda>(chosen, totalIn).
           let feeSatoshis = feeRate * send_vsize outputCount (length chosen) in
           if totalIn < amountTotal + feeSatoshis
           then set_text ''send-error'' (insufficient_text ''Insufficient funds'' totalIn (amountTotal + feeSatoshis))
           else send_chosen E destOutputs chosen (totalIn - amountTotal - feeSatoshis) feeSatoshis)))))))"

definition on_send_confirm :: "'e env_scheme \<Rightarrow> unit wio" where
  "on_send_confirm E = do_all [
     set_text ''send-error'' [],
     set_text ''send-success'' [],
     bindm (getm rows) (\<lambda>rs. bindm (liftr (read_recipients rs)) (\<lambda>recipients. case recipients of
       None \<Rightarrow> set_text ''send-error'' ''Enter a destination address and a positive amount for every recipient.''
     | Some rcpts \<Rightarrow>
         catchm (send_body E rcpts) (\<lambda>e. set_text ''send-error'' (gateway_or e (err_string E e)))))]"

section \<open>Bumping the fee\<close>

definition no_record_text :: string where
  "no_record_text = ''No local record of this transaction -- it was either sent from a different device/browser, '' @
     ''or before this feature existed. Can'' @ [CHR 0x27] @ ''t bump its fee here.''"

fun math_max :: "jsnum \<Rightarrow> jsnum \<Rightarrow> jsnum" where
  "math_max a b = (if a = NaN \<or> b = NaN then NaN else if js_less a b then b else a)"

definition bumped_fee :: "int \<Rightarrow> sent_record \<Rightarrow> int result" where
  "bumped_fee feeRate r =
     (let estimatedVsize = send_vsize (length (sr_outputs r)) (length (sr_inputs r));
          rateBasedFee = js_Number (feeRate * estimatedVsize)
      in js_BigInt (math_max rateBasedFee (math_round (js_mul (js_Number (sr_fee r)) (Fin (3 / 2))))))"

definition bumpFee :: "'e env_scheme \<Rightarrow> string \<Rightarrow> string wio" where
  "bumpFee E txid =
     bindm loadSentTxLog (\<lambda>entries. case map_of entries txid of
       None \<Rightarrow> throwm (Error no_record_text)
     | Some v \<Rightarrow>
         bindm (liftr (sent_record_of v)) (\<lambda>r.
         bindm (fetch_min_rate E) (\<lambda>feeRate.
         bindm (liftr (bumped_fee feeRate r)) (\<lambda>newFee.
         bindm (mapm (\<lambda>i. ensureKey E (si_derivationIndex i)) (sr_inputs r)) (\<lambda>inputKeys.
         bindm (liftr (buildBumpFeeTransaction (e_sha256 E) (e_ripemd160 E) (e_sign E) r newFee inputKeys)) (\<lambda>(rawTx, newOutputs).
         bindm (getm gateway) (\<lambda>gw.
         bindm (broadcast E gw (bytesToHex rawTx)) (\<lambda>result.
         bindm (liftr (js_get result ''txid'')) (\<lambda>newTxid.
         bindm loadSentTxLog (\<lambda>entries2.
         thenm (saveSentTxLog E (obj_set (obj_delete entries2 txid) (js_String newTxid)
           (sent_record_value \<lparr>sr_inputs = sr_inputs r, sr_outputs = newOutputs, sr_fee = newFee, sr_replaces = Some txid\<rparr>)))
           (ret (js_String newTxid))))))))))))"

end
