(* ===== verification/Wallet_Send_Spec.thy ===== *)
theory Wallet_Send_Spec
  imports Wallet_Send
begin

text \<open>
  What the send form does: the fee rate stays within its bounds, a confirmed send
  broadcasts at most one transaction, which pays what the form says, and a sent
  transaction can be found again to raise its fee.
\<close>

section \<open>The fee rate\<close>

definition fee_ok :: "wallet \<Rightarrow> bool" where
  "fee_ok s =
     (case (sendFeeMinRate s, sendFeeRateOverride s) of
        (Some m, Some r) \<Rightarrow> 0 < m \<longrightarrow> m < r \<and> r \<le> 50 * m | _ \<Rightarrow> True)"

lemma clamp_rate_bounds: "0 < m \<Longrightarrow> m \<le> clamp_rate m r \<and> clamp_rate m r \<le> 50 * m"
  by (auto simp: clamp_rate_def Let_def)

lemma dom_free_fee_ok [simp]: "dom_free fee_ok" "request_free fee_ok m"
  by (simp_all add: dom_free_def request_free_def fee_ok_def)

lemma pres_updateSendFeeEstimate [pres_intros]: "dom_free P \<Longrightarrow> pres P updateSendFeeEstimate" "pres P effectiveSendFeeRate"
  by (simp_all add: updateSendFeeEstimate_def effectiveSendFeeRate_def pres_intros)

lemma wp_updateSendFeeEstimate: "dom_free P \<Longrightarrow> P t \<Longrightarrow> wp updateSendFeeEstimate (\<lambda>_. P) (\<lambda>_. P) t"
  by (rule wp_pres [OF pres_updateSendFeeEstimate(1)]) simp_all

lemmas wp_up = wp_updateSendFeeEstimate [OF dom_free_fee_ok(1)]

lemma pres_setSendFeeRate [pres_intros]: "pres fee_ok (setSendFeeRate r)"
  unfolding pres_wp
proof (intro allI impI)
  fix s
  assume ok: "fee_ok s"
  show "wp (setSendFeeRate r) (\<lambda>_. fee_ok) (\<lambda>_. fee_ok) s"
  proof (cases "sendFeeMinRate s")
    case (Some m)
    have ok': "fee_ok (s\<lparr>sendFeeRateOverride := c, inputValue := f\<rparr>)"
      if "c = (if clamp_rate m r = m then None else Some (clamp_rate m r))" for c f
      using that Some clamp_rate_bounds [of m r] by (auto simp: fee_ok_def)
    show ?thesis by (simp add: Some setSendFeeRate_def wp_simps Let_def) (auto intro!: wp_up ok')
  qed (use ok in \<open>simp add: setSendFeeRate_def wp_simps\<close>)
qed

lemma pres_min_rate [pres_intros]: "pres P min_rate_or_zero"
  by (simp add: min_rate_or_zero_def pres_intros)

lemma pres_fetch_min_rate [pres_intros]: "request_free P ''GET'' \<Longrightarrow> pres P (fetch_min_rate E)"
  by (simp add: fetch_min_rate_def feeEstimate_def pres_intros)

lemma pres_fee_handlers:
  "pres fee_ok on_fee_decrease" "pres fee_ok on_fee_increase" "pres fee_ok on_fee_reset" "pres fee_ok on_fee_change"
  by (simp_all add: on_fee_decrease_def on_fee_increase_def on_fee_reset_def on_fee_change_def pres_intros
      split: option.splits jsnum.splits)

lemma pres_loadSendFeeRate: "pres fee_ok (loadSendFeeRate E)"
proof -
  have t: "wp (fetch_min_rate E) Q R s" if "\<And>x t. Q x t" "\<And>e t. R e t" for Q R s
    using that by (simp add: wp_def split: prod.splits sum.splits)
  have f: "fee_ok (s\<lparr>sendFeeMinRate := None\<rparr>)" "fee_ok (s\<lparr>sendFeeRateOverride := None, inputValue := v\<rparr>)" for s v
    by (simp_all add: fee_ok_def split: option.splits)
  show ?thesis
    unfolding pres_wp loadSendFeeRate_def
    by (simp add: wp_simps) (auto intro!: t wp_up simp: f fee_ok_def split: option.splits)
qed


section \<open>What a send broadcasts\<close>

text \<open>The requests sent so far that change something.\<close>

definition posts :: "'b browser_scheme \<Rightarrow> request list" where
  "posts s = filter (\<lambda>r. rq_method r \<noteq> ''GET'') (requests s)"

lemma posts_free [simp]:
  "dom_free (\<lambda>s. posts s = b)" "request_free (\<lambda>s. posts s = b) ''GET''" "cache_free (\<lambda>s. posts s = b)"
  by (simp_all add: dom_free_def request_free_def cache_free_def posts_def)

text \<open>What stays fixed while a send runs.\<close>

definition sending :: "'e env_scheme \<Rightarrow> wallet \<Rightarrow> request list \<Rightarrow> wallet \<Rightarrow> bool" where
  "sending E s b t =
     (coherent E t \<and> posts t = b \<and> mnemonic t = mnemonic s \<and> network_name t = network_name s \<and>
      activeIndex t = activeIndex s \<and> gateway t = gateway s \<and> sendFeeRateOverride t = sendFeeRateOverride s)"

lemma sending_dom [simp]: "dom_free (sending E s b)" "request_free (sending E s b) ''GET''"
  using dom_free_coherent [of E] by (simp_all add: sending_def dom_free_def request_free_def posts_def)

lemma own_key_same:
  assumes "mnemonic u = mnemonic s" "network_name u = network_name s"
  shows "own_key E u idx k \<longleftrightarrow> own_key E s idx k"
  unfolding own_key_def assms ..

lemma sending_ensureKey:
  assumes "sending E s b t"
  shows "wp (ensureKey E idx) (\<lambda>k u. sending E s b u \<and> keys u idx = Some k \<and> own_key E s idx k) (\<lambda>_. sending E s b) t"
proof -
  define F where "F u = (posts u = b \<and> mnemonic u = mnemonic s \<and> network_name u = network_name s \<and>
      activeIndex u = activeIndex s \<and> gateway u = gateway s \<and> sendFeeRateOverride u = sendFeeRateOverride s)" for u :: wallet
  have "cache_free F" by (simp add: cache_free_def F_def posts_def)
  then have "pres F (ensureKey E idx)" by (rule pres_ensureKey_frame)
  moreover have "F t" using assms by (simp add: F_def sending_def)
  ultimately have f: "wp (ensureKey E idx) (\<lambda>_. F) (\<lambda>_. F) t" by (auto intro: wp_pres)
  have c: "wp (ensureKey E idx) (\<lambda>k u. coherent E u \<and> keys u idx = Some k \<and> own_key E u idx k) (\<lambda>_. coherent E) t"
    using assms by (intro wp_ensureKey) (simp add: sending_def)
  from c f have "wp (ensureKey E idx) (\<lambda>k u. (coherent E u \<and> keys u idx = Some k \<and> own_key E u idx k) \<and> F u)
      (\<lambda>_ u. coherent E u \<and> F u) t"
    using wp_conj by fast
  then show ?thesis by (rule wp_mono) (auto simp: sending_def F_def dest: own_key_same [THEN iffD1, rotated 2])
qed

text \<open>A coin is spent with the key of the address it belongs to.\<close>

definition spends :: "'e env_scheme \<Rightarrow> wallet \<Rightarrow> jsval \<times> int \<Rightarrow> utxo_in \<Rightarrow> bool" where
  "spends E s = (\<lambda>(u, idx) inp. \<exists>k t n. own_key E s idx k \<and> text_field u ''txid'' = Inr t \<and> int_field u ''vout'' = Inr n \<and>
     u_txid inp = rev (hexToBytes t) \<and> u_vout inp = n \<and> u_pubkeyHash inp = hash160 (e_sha256 E) (e_ripemd160 E) (kp_public k) \<and>
     u_privateKey inp = Some (kp_private k) \<and> u_publicKey inp = Some (kp_public k))"

lemma send_input_spends:
  assumes "sending E s b t" "send_input E (keys t) c = Inr inp"
  shows "spends E s c inp"
proof -
  obtain u idx where c: "c = (u, idx)" by fastforce
  then obtain k where k: "keys t idx = Some k" using assms(2) by (auto simp: send_input_def split: option.splits)
  have "own_key E t idx k" using assms(1) k by (simp add: sending_def coherent_def)
  then have "own_key E s idx k" using assms(1) own_key_same [of t s E idx k] by (simp add: sending_def)
  with assms(2) k show ?thesis by (auto simp: c send_input_def spends_def result_simps)
qed

lemma mapr_list_all2: "mapr f xs = Inr ys \<Longrightarrow> (\<And>x y. f x = Inr y \<Longrightarrow> R x y) \<Longrightarrow> list_all2 R xs ys"
  by (induction xs arbitrary: ys) (auto simp: result_simps)

definition broadcast_post :: "string \<Rightarrow> bytes \<Rightarrow> request" where
  "broadcast_post gw raw = post_request gw ''/v1/tx/broadcast'' (JObj [(''raw_tx_hex'', JStr (bytesToHex raw))]) JUndef"

definition signed_payment ::
  "'e env_scheme \<Rightarrow> wallet \<Rightarrow> tx_out list \<Rightarrow> (jsval \<times> int) list \<Rightarrow> int \<Rightarrow> bytes \<Rightarrow> bool" where
  "signed_payment E s dests chosen change raw =
     (\<exists>k inputs outputs. own_key E s (activeIndex s) k \<and> with_change E k dests change = Inr outputs \<and>
        list_all2 (spends E s) chosen inputs \<and>
        buildAndSignTransaction (e_sha256 E) (e_sign E) inputs outputs None None 0 = Inr raw)"

text \<open>Nothing after the broadcast sends a further request.\<close>

lemma pres_posts_after [pres_intros]:
  "pres (\<lambda>s. posts s = b) (recordSentTx E txid r)"
  "pres (\<lambda>s. posts s = b) resetSendRecipients"
  "pres (\<lambda>s. posts s = b) updateSendAmountFiat"
proof -
  have p: "posts (s\<lparr>localStore := a\<rparr>) = posts s" "posts (s'\<lparr>rows := r\<rparr>) = posts s'" "posts (s'\<lparr>recipientIdCounter := n\<rparr>) = posts s'"
    "posts (s'\<lparr>activeRecipientId := i\<rparr>) = posts s'" for s s' :: wallet and a r n i by (simp_all add: posts_def)
  show "pres (\<lambda>s. posts s = b) (recordSentTx E txid r)"
    by (simp add: recordSentTx_def loadSentTxLog_def saveSentTxLog_def pres_intros pres_setItem p)
  show "pres (\<lambda>s. posts s = b) resetSendRecipients"
    by (simp add: resetSendRecipients_def addRecipientRow_def updateRecipientRemoveButtons_def pres_intros pres_modm p)
  show "pres (\<lambda>s. posts s = b) updateSendAmountFiat"
    by (simp add: updateSendAmountFiat_def pres_intros)
qed

lemma wp_posts_after:
  assumes "\<And>u. posts u = posts t \<Longrightarrow> Q u"
  shows "wp (recordSentTx E txid r) (\<lambda>_. wp resetSendRecipients (\<lambda>_. wp updateSendAmountFiat (\<lambda>_. Q) (\<lambda>_. Q)) (\<lambda>_. Q)) (\<lambda>_. Q) t"
  by (rule wp_pres [OF pres_posts_after(1)], rule refl, rule wp_pres [OF pres_posts_after(2)], assumption,
      rule wp_pres [OF pres_posts_after(3)]) (auto intro: assms)

lemma posts_broadcast [simp]:
  "posts (sent_state (broadcast_post gw raw) t) = posts t @ [broadcast_post gw raw]"
  "posts (s\<lparr>textContent := f\<rparr>) = posts s"
  by (simp_all add: sent_state_def posts_def broadcast_post_def post_request_def)

definition at_most_payment :: "'e env_scheme \<Rightarrow> wallet \<Rightarrow> request list \<Rightarrow> (bytes \<Rightarrow> bool) \<Rightarrow> wallet \<Rightarrow> bool" where
  "at_most_payment E s b good t =
     (posts t = b \<or> (\<exists>raw. posts t = b @ [broadcast_post (gateway s) raw] \<and> good raw))"

lemma at_most_paymentI:
  "posts t = b \<Longrightarrow> at_most_payment E s b good t"
  "posts t = b @ [broadcast_post (gateway s) raw] \<Longrightarrow> good raw \<Longrightarrow> at_most_payment E s b good t"
  by (auto simp: at_most_payment_def)

lemma wp_sign_and_broadcast:
  assumes "sending E s b t" "own_key E s (activeIndex s) k"
  shows "wp (sign_and_broadcast E dests chosen change fee act k)
    (\<lambda>_. at_most_payment E s b (signed_payment E s dests chosen change))
    (\<lambda>_. at_most_payment E s b (signed_payment E s dests chosen change)) t"
proof -
  have pu: "posts t = b" "gateway t = gateway s" using assms(1) by (simp_all add: sending_def)
  have good: "signed_payment E s dests chosen change raw"
    if "with_change E k dests change = Inr outputs" "mapr (send_input E (keys t)) chosen = Inr inputs"
      "buildAndSignTransaction (e_sha256 E) (e_sign E) inputs outputs None None 0 = Inr raw" for outputs inputs raw
  proof -
    have "list_all2 (spends E s) chosen inputs"
      using that(2) by (rule mapr_list_all2) (rule send_input_spends [OF assms(1)])
    with that assms(2) show ?thesis unfolding signed_payment_def by blast
  qed
  show ?thesis
    using pu good
    by (simp add: sign_and_broadcast_def wp_simps broadcast_def broadcast_post_def [symmetric] split: sum.splits)
       (auto intro!: wp_posts_after intro: at_most_paymentI)
qed

lemma wp_send_chosen:
  assumes "sending E s b t"
  shows "wp (send_chosen E dests chosen change fee)
    (\<lambda>_. at_most_payment E s b (signed_payment E s dests chosen change))
    (\<lambda>_. at_most_payment E s b (signed_payment E s dests chosen change)) t"
proof -
  have act: "activeIndex t = activeIndex s" using assms by (simp add: sending_def)
  show ?thesis
    unfolding send_chosen_def wp_bindm wp_basic act
    by (rule wp_mono [OF sending_ensureKey [OF assms]])
       (auto intro: wp_sign_and_broadcast simp: at_most_payment_def sending_def)
qed

lemma as_number_exact: "\<bar>n\<bar> < 2 ^ 53 \<Longrightarrow> as_number n = Inr n"
  using round_double_int [of n] by (simp add: as_number_def js_Number_def)

lemma mapr_append: "mapr f xs = Inr ys \<Longrightarrow> f x = Inr y \<Longrightarrow> mapr f (xs @ [x]) = Inr (ys @ [y])"
  by (induction xs arbitrary: ys) (auto simp: result_simps)

lemma choose_coins_sum:
  "choose_coins val fee amount coins taken (sum_list ds) = Inr (chosen, totalIn) \<Longrightarrow> mapr val taken = Inr ds \<Longrightarrow>
     \<exists>vs. mapr val chosen = Inr vs \<and> totalIn = sum_list vs"
proof (induction coins arbitrary: taken ds)
  case (Cons u us)
  obtain v where v: "val u = Inr v" using Cons.prems(1) by (auto simp: result_simps)
  note m = mapr_append [OF Cons.prems(2) v]
  show ?case
  proof (cases "amount + fee (Suc (length taken)) \<le> sum_list ds + v")
    case True
    with Cons.prems(1) v m show ?thesis by (intro exI [of _ "ds @ [v]"]) simp
  next
    case False
    with Cons.prems(1) v have "choose_coins val fee amount us (taken @ [u]) (sum_list (ds @ [v])) = Inr (chosen, totalIn)" by simp
    from Cons.IH [OF this m] show ?thesis .
  qed
qed auto

text \<open>
  A transaction pays the recipients: an output per recipient with the script of its address and its amount,
  change to the wallet's active address, inputs that are the wallet's own coins, and a fee at the chosen rate that
  is exactly what the inputs leave.
\<close>

definition pays_recipient :: "'e env_scheme \<Rightarrow> network \<Rightarrow> string \<times> int \<Rightarrow> tx_out \<Rightarrow> bool" where
  "pays_recipient E net = (\<lambda>(a, n) out. \<exists>d. decodeAddress (e_sha256 E) a net = Inr d \<and> scriptPubKey out = script_for d \<and>
     (\<bar>n\<bar> < 2 ^ 53 \<longrightarrow> valueSatoshis out = n))"

definition pays :: "'e env_scheme \<Rightarrow> wallet \<Rightarrow> network \<Rightarrow> (string \<times> int) list \<Rightarrow> bytes \<Rightarrow> bool" where
  "pays E s net rcpts raw =
     (\<exists>dests chosen vs change fee minRate.
        list_all2 (pays_recipient E net) rcpts dests \<and>
        mapr coin_value (map fst chosen) = Inr vs \<and> sum_list vs = sum_list (map snd rcpts) + change + fee \<and> 0 \<le> change \<and>
        fee = send_fee_rate (sendFeeRateOverride s) minRate * send_vsize (length rcpts + 1) (length chosen) \<and>
        signed_payment E s dests chosen change raw)"

lemma dest_output_pays: "dest_output (e_sha256 E) net r = Inr out \<Longrightarrow> pays_recipient E net r out"
  by (auto simp: dest_output_def pays_recipient_def result_simps as_number_exact split: prod.splits)

lemma mapr_fst: "mapr (\<lambda>(u, _). f u) cs = mapr f (map fst cs)"
  by (induction cs) auto

lemma wp_send_body:
  assumes "coherent E s" "NETWORKS (network_name s) = Some net"
  shows "wp (send_body E rcpts) (\<lambda>_. at_most_payment E s (posts s) (pays E s net rcpts))
    (\<lambda>_. at_most_payment E s (posts s) (pays E s net rcpts)) s"
proof -
  let ?G = "at_most_payment E s (posts s) (pays E s net rcpts)"
  have st: "sending E s (posts s) s" using assms by (simp add: sending_def)
  have upd: "sending E s (posts s) (t\<lparr>sendFeeMinRate := m\<rparr>) = sending E s (posts s) t" for t m
    by (simp add: sending_def posts_def)
  have none: "?G t" if "sending E s (posts s) t" for t
    using that by (intro at_most_paymentI(1)) (simp add: sending_def)
  have none': "?G (t\<lparr>textContent := f\<rparr>)" if "sending E s (posts s) t" for t f
    using that by (intro at_most_paymentI(1)) (simp add: sending_def)
  have pay: "wp (send_chosen E dests chosen (totalIn - sum_list (map snd rcpts) - fee) fee) (\<lambda>_. ?G) (\<lambda>_. ?G) t"
    if d: "mapr (dest_output (e_sha256 E) net) rcpts = Inr dests"
      and c: "choose_coins (\<lambda>(u, _). coin_value u) f amount coins [] 0 = Inr (chosen, totalIn)"
      and fee: "fee = send_fee_rate (sendFeeRateOverride s) m * send_vsize (length rcpts + 1) (length chosen)"
      and enough: "\<not> totalIn < sum_list (map snd rcpts) + fee" and t: "sending E s (posts s) t"
    for dests f amount coins chosen totalIn fee m t
  proof -
    obtain vs where vs: "mapr coin_value (map fst chosen) = Inr vs" "totalIn = sum_list vs"
      using choose_coins_sum [of "\<lambda>(u, _). coin_value u" f amount coins "[]" "[]" chosen totalIn] c
      by (auto simp: mapr_fst)
    have "list_all2 (pays_recipient E net) rcpts dests" using d dest_output_pays by (rule mapr_list_all2)
    then have "pays E s net rcpts raw" if "signed_payment E s dests chosen (totalIn - sum_list (map snd rcpts) - fee) raw" for raw
      unfolding pays_def using vs fee enough that
      by (intro exI [of _ dests] exI [of _ chosen] exI [of _ vs] exI [of _ "totalIn - sum_list (map snd rcpts) - fee"]
          exI [of _ fee] exI [of _ m]) simp
    then show ?thesis
      by (intro wp_mono [OF wp_send_chosen [OF t]]) (auto simp: at_most_payment_def)
  qed
  have ov: "sendFeeRateOverride t = sendFeeRateOverride s" if "sending E s (posts s) t" for t
    using that by (simp add: sending_def)
  note gather = wp_pres [OF pres_gatherAllUtxos [OF sending_dom(2)] st]
  note rate = wp_pres [OF pres_fetch_min_rate [OF sending_dom(2) [of E s "posts s"]]]
  show ?thesis
    unfolding send_body_def current_network_def
    by (simp add: wp_simps Let_def assms(2) none [OF st] split: sum.splits)
       (auto intro!: gather rate none none' pay simp: wp_simps upd ov split: sum.splits)
qed

lemma own_text: "own_key E (s\<lparr>textContent := f\<rparr>) = own_key E s"
  by (simp add: fun_eq_iff own_key_same [of "s\<lparr>textContent := f\<rparr>" s])

lemma pays_text: "pays E (s\<lparr>textContent := f\<rparr>) = pays E s"
  by (simp add: pays_def [abs_def] signed_payment_def [abs_def] spends_def [abs_def] own_text)

lemma coherent_text: "coherent E (s\<lparr>textContent := f\<rparr>) = coherent E s"
  by (simp add: coherent_def own_key_def own_address_def)

lemma wp_on_send_confirm:
  assumes "coherent E s" "NETWORKS (network_name s) = Some net" "read_recipients (rows s) = Inr (Some rcpts)"
  shows "wp (on_send_confirm E) (\<lambda>_. at_most_payment E s (posts s) (pays E s net rcpts))
    (\<lambda>_. at_most_payment E s (posts s) (pays E s net rcpts)) s"
proof -
  let ?s = "s\<lparr>textContent := (textContent s)(''send-error'' := [], ''send-success'' := [])\<rparr>"
  let ?G = "at_most_payment E s (posts s) (pays E s net rcpts)"
  have "wp (send_body E rcpts) (\<lambda>_. at_most_payment E ?s (posts ?s) (pays E ?s net rcpts))
      (\<lambda>_. at_most_payment E ?s (posts ?s) (pays E ?s net rcpts)) ?s"
    using assms by (intro wp_send_body) (simp_all add: coherent_text)
  then have "wp (send_body E rcpts) (\<lambda>_. ?G) (\<lambda>_. ?G) ?s" by (simp add: pays_text at_most_payment_def [abs_def])
  moreover have "?G t \<Longrightarrow> ?G (t\<lparr>textContent := f\<rparr>)" for t f by (simp add: at_most_payment_def)
  ultimately show ?thesis
    using assms(3) by (auto simp: on_send_confirm_def wp_simps elim!: wp_mono)
qed



section \<open>The log of sent transactions\<close>

interpretation sent_log: json_store loadSentTxLog "saveSentTxLog E" "\<lambda>kvs. json_ok (JObj kvs)" for E
proof
  show "loadSentTxLog t = (Inr kvs, t)" if "json_ok (JObj kvs)" "saveSentTxLog E kvs s = (Inr (), t)" for kvs s t
    using that load_json_saved [of E "''fic_sent_tx_log''" "JObj kvs" s t "JObj []"]
    by (simp add: loadSentTxLog_def saveSentTxLog_def bindm_def liftr_def js_entries_def)
  show "t = s" if "saveSentTxLog E kvs s = (Inl e, t)" for kvs s t e
    using that setItem_run(2) by (simp add: saveSentTxLog_def)
qed

lemma map_of_obj_set: "map_of (obj_set kvs k v) = (map_of kvs)(k \<mapsto> v)"
  by (induction kvs) (auto simp: fun_eq_iff)

lemma fst_obj_set: "fst ` set (obj_set kvs k v) = insert k (fst ` set kvs)"
proof (induction kvs)
  case (Cons kv kvs)
  then show ?case by (cases kv) (simp add: insert_commute)
qed simp

lemma json_ok_obj_set: "json_ok (JObj kvs) \<Longrightarrow> json_ok v \<Longrightarrow> json_ok (JObj (obj_set kvs k v))"
proof (induction kvs)
  case (Cons kv kvs)
  obtain k' v' where "kv = (k', v')" by fastforce
  with Cons fst_obj_set [of kvs k v] show ?case by (auto simp: image_iff)
qed simp

lemma index_of_js_int [simp]: "index_of_value (js_int n) = Inr n"
  by (simp add: js_int_def)

lemma sent_record_round_trip: "sent_record_of (sent_record_value r) = Inr r"
proof -
  have i: "sent_in_of (sent_in_value i) = Inr i" for i
    by (simp add: sent_in_of_def sent_in_value_def text_field_def int_field_def)
  have o: "sent_out_of (sent_out_value o') = Inr o'" for o'
    by (cases "so_changeIndex o'") (simp_all add: sent_out_of_def sent_out_value_def text_field_def int_field_def js_int_def)
  have "mapr sent_in_of (map sent_in_value is) = Inr is" "mapr sent_out_of (map sent_out_value os) = Inr os" for "is" os
    by (induction "is"; simp add: i) (induction os; simp add: o)
  then show ?thesis
    by (cases "sr_replaces r") (simp_all add: sent_record_of_def sent_record_value_def int_field_def)
qed

text \<open>
  C36: A sent transaction that was recorded is found in the log under its id, as recorded, and recording it
  leaves every other entry as it was; when the storage refuses the write nothing changes.
\<close>

theorem sent_tx_found:
  assumes "loadSentTxLog s = (Inr entries, s)" "json_ok (JObj entries)" "json_ok (sent_record_value r)"
  shows "(\<forall>t. recordSentTx E txid r s = (Inr (), t) \<longrightarrow>
      (\<exists>entries' v. loadSentTxLog t = (Inr entries', t) \<and> map_of entries' txid = Some v \<and> sent_record_of v = Inr r \<and>
        (\<forall>x. x \<noteq> txid \<longrightarrow> map_of entries' x = map_of entries x))) \<and>
    (\<forall>e t. recordSentTx E txid r s = (Inl e, t) \<longrightarrow> t = s)"
proof (intro conjI allI impI)
  let ?new = "obj_set entries txid (sent_record_value r)"
  fix t
  assume "recordSentTx E txid r s = (Inr (), t)"
  then have "bindm loadSentTxLog (\<lambda>kvs. saveSentTxLog E (obj_set kvs txid (sent_record_value r))) s = (Inr (), t)"
    by (simp add: recordSentTx_def)
  from sent_log.update_loaded [OF assms(1) _ this] have "loadSentTxLog t = (Inr ?new, t)"
    using json_ok_obj_set [OF assms(2,3)] by simp
  then show "\<exists>entries' v. loadSentTxLog t = (Inr entries', t) \<and> map_of entries' txid = Some v \<and> sent_record_of v = Inr r \<and>
      (\<forall>x. x \<noteq> txid \<longrightarrow> map_of entries' x = map_of entries x)"
    by (intro exI [of _ ?new] exI [of _ "sent_record_value r"]) (simp add: map_of_obj_set sent_record_round_trip)
next
  fix e t
  assume "recordSentTx E txid r s = (Inl e, t)"
  then show "t = s"
    using sent_log.update_refused [OF assms(1), of E "\<lambda>kvs. obj_set kvs txid (sent_record_value r)" e t]
    by (simp add: recordSentTx_def)
qed

theorem sent_tx_found_witness:
  "\<exists>t entries v. recordSentTx sample_env ''ab'' \<lparr>sr_inputs = [], sr_outputs = [], sr_fee = 0, sr_replaces = None\<rparr>
       sample_wallet = (Inr (), t) \<and> loadSentTxLog t = (Inr entries, t) \<and> map_of entries ''ab'' = Some v"
proof -
  let ?r = "\<lparr>sr_inputs = [], sr_outputs = [], sr_fee = 0, sr_replaces = None\<rparr>"
  have l: "loadSentTxLog sample_wallet = (Inr [], sample_wallet)"
    by (simp add: loadSentTxLog_def load_json_def bindm_def getItem_def getm_def sample_wallet_def browser.defs blank_browser_def
        item_or_def ret_def liftr_def js_entries_def)
  obtain t where t: "recordSentTx sample_env ''ab'' ?r sample_wallet = (Inr (), t)"
    by (simp add: recordSentTx_def bindm_def l saveSentTxLog_def setItem_def getm_def modm_def sample_env_def platform.defs
        sample_platform_def)
  have "json_ok (sent_record_value ?r)" by (simp add: sent_record_value_def js_int_def num_ok_def)
  from sent_tx_found [OF l _ this, of sample_env "''ab''"] t show ?thesis by auto
qed

end
