(* ===== verification/Wallet_Lists.thy ===== *)
theory Wallet_Lists
  imports Wallet_Send
begin

text \<open>
  The lists the user keeps and the screens around them (\<open>app.js\<close>): the QR scanner
  overlay, the address book, the receive screen with its addresses, and the
  watch-only list.
\<close>

section \<open>Page helpers\<close>

text \<open>
  Assigning \<open>undefined\<close> or \<open>null\<close> to \<open>textContent\<close> empties the element; a field's value
  treats only \<open>null\<close> so. A template literal of several lines is its lines joined.
\<close>

definition text_of :: "jsval \<Rightarrow> string" where
  "text_of v = (if nullish v then [] else js_String v)"

definition value_of :: "jsval \<Rightarrow> string" where
  "value_of v = (if v = JNull then [] else js_String v)"

definition js_lines :: "string list \<Rightarrow> string" where
  "js_lines = js_join [CHR 0x0A]"

definition nat_text :: "nat \<Rightarrow> string" where
  "nat_text n = js_toString 10 (int n)"

definition field_string :: "jsval \<Rightarrow> string \<Rightarrow> string result" where
  "field_string v k = bindr (js_get v k) (\<lambda>x. Inr (js_String x))"

text \<open>\<open>xs.splice(i, 1)\<close> and \<open>xs.map((x, i) => ...)\<close>.\<close>

definition splice1 :: "nat \<Rightarrow> 'a list \<Rightarrow> 'a list" where
  "splice1 i xs = take i xs @ drop (i + 1) xs"

definition mapi :: "(nat \<Rightarrow> 'a \<Rightarrow> 'b result) \<Rightarrow> 'a list \<Rightarrow> 'b list result" where
  "mapi f xs = mapr (\<lambda>(i, x). f i x) (zip [0..<length xs] xs)"

section \<open>QR codes\<close>

definition renderQr :: "'e env_scheme \<Rightarrow> string \<Rightarrow> string option \<Rightarrow> unit wio" where
  "renderQr E canvas text =
     bindm (liftr (pg_qr (e_page E) text)) (\<lambda>_. modui (\<lambda>u. u\<lparr>drawn := (drawn u)(canvas := text)\<rparr>))"

definition openQrScanner :: "scan_target \<Rightarrow> unit wio" where
  "openQrScanner target = do_all [
     set_display ''qr-scan-overlay'' ''flex'',
     set_text ''qr-scan-error'' [],
     modui (\<lambda>u. u\<lparr>qrScan := Some (target, startQrScanner)\<rparr>)]"

definition closeQrScan :: "unit wio" where
  "closeQrScan = do_all [
     modui (\<lambda>u. u\<lparr>qrScan := None\<rparr>),
     set_display ''qr-scan-overlay'' ''none'']"

definition scan_result :: "scan_target \<Rightarrow> string \<Rightarrow> unit wio" where
  "scan_result target text = (case target of ScanRow i \<Rightarrow> on_row_scanned i text
     | ScanProposal \<Rightarrow> set_value ''ms-proposal-json'' text)"

text \<open>
  The events of the open scanner: a frame that may show a code, the camera granted,
  the camera refused.
\<close>

definition on_scan_frame :: "string option \<Rightarrow> unit wio" where
  "on_scan_frame code =
     bindm (getui qrScan) (\<lambda>h. case h of
       None \<Rightarrow> ret ()
     | Some (target, sc) \<Rightarrow>
         let sc' = qr_tick code sc in
         thenm (modui (\<lambda>u. u\<lparr>qrScan := Some (target, sc')\<rparr>))
           (if results sc' = results sc then ret ()
            else thenm (scan_result target (last (results sc'))) closeQrScan))"

definition on_camera_granted :: "unit wio" where
  "on_camera_granted =
     modui (\<lambda>u. u\<lparr>qrScan := map_option (\<lambda>(target, sc). (target, qr_granted sc)) (qrScan u)\<rparr>)"

definition on_camera_refused :: "unit wio" where
  "on_camera_refused =
     thenm (modui (\<lambda>u. u\<lparr>qrScan := map_option (\<lambda>(target, sc). (target, qr_refused sc)) (qrScan u)\<rparr>))
       (set_text ''qr-scan-error'' (''Could not access the camera. Check that this site has camera permission in your '' @
          ''browser settings.''))"

section \<open>Address book\<close>

definition loadAddressBookEntries :: "jsval list wio" where
  "loadAddressBookEntries = load_list ''fic_address_book''"

definition saveAddressBookEntries :: "'e env_scheme \<Rightarrow> jsval list \<Rightarrow> unit wio" where
  "saveAddressBookEntries E entries = save_list E ''fic_address_book'' entries"

definition entry_value :: "string \<Rightarrow> string \<Rightarrow> jsval" where
  "entry_value label address = JObj [(''label'', JStr label), (''address'', JStr address)]"

definition book_row_html :: "nat \<Rightarrow> jsval \<Rightarrow> string result" where \<open>
  book_row_html i e =
    bindr (field_string e ''label'') (\<lambda>label. bindr (field_string e ''address'') (\<lambda>address.
      Inr (js_lines [[],
        ''    <div class="book-row">'',
        ''      <div class="book-info">'',
        ''        <div class="book-label">'' @ escapeHtml label @ ''</div>'',
        ''        <div class="book-address mono">'' @ escapeHtml address @ ''</div>'',
        ''      </div>'',
        ''      <button class="secondary" type="button" data-use="'' @ nat_text i @ ''">Use</button>'',
        ''      <button class="danger" type="button" data-remove="'' @ nat_text i @ ''">Remove</button>'',
        ''    </div>''])))\<close>

definition renderAddressBook :: "unit wio" where \<open>
  renderAddressBook =
    bindm loadAddressBookEntries (\<lambda>entries.
      if entries = []
      then thenm (set_html ''address-book-list'' ''<p class="notice">No saved addresses yet.</p>'')
        (modui (\<lambda>u. u\<lparr>bookShown := []\<rparr>))
      else bindm (liftr (mapi book_row_html entries)) (\<lambda>hs.
        thenm (set_html ''address-book-list'' (concat hs)) (modui (\<lambda>u. u\<lparr>bookShown := entries\<rparr>))))\<close>

text \<open>The row the \<open>Use\<close> button fills: the one focused last if it is still there, else the first.\<close>

definition book_target :: "string option \<Rightarrow> recipient_row list \<Rightarrow> recipient_row option" where
  "book_target act rs =
     (case find (\<lambda>r. act = Some (nat_text (row_id r))) rs of
        Some r \<Rightarrow> Some r
      | None \<Rightarrow> (case rs of [] \<Rightarrow> None | r # _ \<Rightarrow> Some r))"

definition on_book_use :: "nat \<Rightarrow> unit wio" where
  "on_book_use i =
     bindm (getui bookShown) (\<lambda>entries. bindm (getm (\<lambda>s. book_target (activeRecipientId s) (rows s))) (\<lambda>target.
       case target of
         None \<Rightarrow> ret ()
       | Some r \<Rightarrow>
           if i < length entries
           then bindm (liftr (js_get (entries ! i) ''address'')) (\<lambda>a. update_row (row_id r) (\<lambda>r. r\<lparr>row_address := value_of a\<rparr>))
           else throwm TypeError))"

definition on_book_remove :: "'e env_scheme \<Rightarrow> nat \<Rightarrow> unit wio" where
  "on_book_remove E idx =
     bindm loadAddressBookEntries (\<lambda>updated.
       thenm (saveAddressBookEntries E (splice1 idx updated)) renderAddressBook)"

definition loadAddressBook :: "unit wio" where
  "loadAddressBook = renderAddressBook"

definition on_book_add :: "'e env_scheme \<Rightarrow> unit wio" where
  "on_book_add E =
     bindm (get_value ''new-book-label'') (\<lambda>l. bindm (get_value ''new-book-address'') (\<lambda>a.
       let label = js_trim l; address = js_trim a in
       if label = [] \<or> address = [] then ret ()
       else bindm loadAddressBookEntries (\<lambda>entries.
         thenm (saveAddressBookEntries E (entries @ [entry_value label address]))
           (thenm (set_value ''new-book-label'' [])
             (thenm (set_value ''new-book-address'' []) renderAddressBook)))))"

section \<open>Watch-only list\<close>

definition loadWatchList :: "jsval list wio" where
  "loadWatchList = load_list ''fic_watch_list''"

definition saveWatchList :: "'e env_scheme \<Rightarrow> jsval list \<Rightarrow> unit wio" where
  "saveWatchList E entries = save_list E ''fic_watch_list'' entries"

definition watch_row_html :: "nat \<Rightarrow> jsval \<Rightarrow> string result" where \<open>
  watch_row_html i e =
    bindr (field_string e ''label'') (\<lambda>label. bindr (field_string e ''address'') (\<lambda>address.
      Inr (js_lines [[],
        ''    <div class="book-row">'',
        ''      <div class="book-info">'',
        ''        <div class="book-label">'' @ escapeHtml label @ ''</div>'',
        ''        <div class="book-address mono">'' @ escapeHtml address @ ''</div>'',
        ''        <div class="notice small" id="watch-balance-'' @ nat_text i @ ''">Loading balance...</div>'',
        ''      </div>'',
        ''      <button class="secondary" type="button" data-explorer="'' @ nat_text i @ ''">Explorer</button>'',
        ''      <button class="danger" type="button" data-remove="'' @ nat_text i @ ''">Remove</button>'',
        ''    </div>''])))\<close>

text \<open>\<open>BigInt(balance.confirmed) + BigInt(balance.unconfirmed)\<close>\<close>

definition balance_total :: "jsval \<Rightarrow> int result" where
  "balance_total b =
     bindr (bindr (js_get b ''confirmed'') js_toBigInt) (\<lambda>c.
     bindr (bindr (js_get b ''unconfirmed'') js_toBigInt) (\<lambda>u. Inr (c + u)))"

definition watch_balance :: "'e env_scheme \<Rightarrow> nat \<Rightarrow> jsval \<Rightarrow> unit wio" where
  "watch_balance E i e =
     catchm
       (bindm (getm gateway) (\<lambda>gw.
        bindm (liftr (field_string e ''address'')) (\<lambda>a.
        bindm (balance E gw a) (\<lambda>b.
        bindm (liftr (balance_total b)) (\<lambda>n.
          set_text (''watch-balance-'' @ nat_text i) (formatFic n @ '' FIC''))))))
       (\<lambda>_. set_text (''watch-balance-'' @ nat_text i) ''Could not fetch balance'')"

definition loadWatch :: "'e env_scheme \<Rightarrow> unit wio" where \<open>
  loadWatch E =
    bindm loadWatchList (\<lambda>entries.
      if entries = []
      then thenm (set_html ''watch-list'' ''<p class="notice">No watched addresses yet.</p>'')
        (modui (\<lambda>u. u\<lparr>watchShown := []\<rparr>))
      else bindm (liftr (mapi watch_row_html entries)) (\<lambda>hs.
        thenm (set_html ''watch-list'' (concat hs))
          (thenm (modui (\<lambda>u. u\<lparr>watchShown := entries\<rparr>))
            (form (zip [0..<length entries] entries) (\<lambda>(i, e). watch_balance E i e)))))\<close>

definition on_watch_remove :: "'e env_scheme \<Rightarrow> nat \<Rightarrow> unit wio" where
  "on_watch_remove E idx =
     bindm loadWatchList (\<lambda>updated. thenm (saveWatchList E (splice1 idx updated)) (spawn (loadWatch E)))"

definition explorer_address_url :: "string \<Rightarrow> string" where
  "explorer_address_url address = ''https://explorer.firstislamiccoin.com/#/address/'' @ address"

definition on_watch_explorer :: "nat \<Rightarrow> unit wio" where
  "on_watch_explorer i =
     bindm (getui watchShown) (\<lambda>entries.
       if i < length entries
       then bindm (liftr (field_string (entries ! i) ''address'')) (\<lambda>a. window_open (explorer_address_url a))
       else throwm TypeError)"

definition on_watch_add :: "'e env_scheme \<Rightarrow> unit wio" where
  "on_watch_add E =
     bindm (get_value ''watch-label'') (\<lambda>l. bindm (get_value ''watch-address'') (\<lambda>a.
       let label = js_trim l; address = js_trim a in
       if label = [] \<or> address = [] then ret ()
       else bindm loadWatchList (\<lambda>entries.
         thenm (saveWatchList E (entries @ [entry_value label address]))
           (thenm (set_value ''watch-label'' [])
             (thenm (set_value ''watch-address'' []) (spawn (loadWatch E)))))))"

definition on_show_xpub :: "'e env_scheme \<Rightarrow> unit wio" where
  "on_show_xpub E =
     bindm (getm (\<lambda>s. display s ''my-xpub-output'')) (\<lambda>d.
       if d \<noteq> ''none'' then set_display ''my-xpub-output'' ''none''
       else thenm (set_disabled ''btn-show-xpub'' True)
         (finallym
           (bindm current_network (\<lambda>net. bindm (getm mnemonic) (\<lambda>m. case m of
              None \<Rightarrow> throwm TypeError
            | Some phrase \<Rightarrow>
                bindm (liftr (deriveAccountXpub (e_bip E) phrase net [])) (\<lambda>xpub.
                  thenm (set_value ''my-xpub-output'' xpub) (set_display ''my-xpub-output'' ''block'')))))
           (set_disabled ''btn-show-xpub'' False)))"

text \<open>
  The number of rounds of a loop up to \<open>Math.max(1, Math.min(50, Number(v) || 0))\<close>, which
  need not be whole.
\<close>

definition xpub_count :: "string \<Rightarrow> nat" where
  "xpub_count v =
     (case js_StringToNumber v of NaN \<Rightarrow> 1 | Infinity pos \<Rightarrow> if pos then 50 else 1
      | Fin x \<Rightarrow> nat \<lceil>max 1 (min 50 x)\<rceil>)"

definition xpub_entry :: "string \<Rightarrow> string \<Rightarrow> string \<Rightarrow> nat \<Rightarrow> jsval" where
  "xpub_entry label groupId address i =
     JObj [(''label'', JStr (label @ '' #'' @ nat_text i)), (''address'', JStr address), (''xpubGroup'', JStr groupId)]"

definition xpub_entries :: "'e env_scheme \<Rightarrow> network \<Rightarrow> string \<Rightarrow> string \<Rightarrow> nat \<Rightarrow> jsval list result" where
  "xpub_entries E net label xpub count =
     mapr (\<lambda>i. bindr (deriveXpubAddress (e_sha256 E) (e_ripemd160 E) (e_bip E) xpub net (int i)) (\<lambda>address.
       Inr (xpub_entry label (js_slice_from (- 8) xpub) address i))) [0..<count]"

definition watch_xpub :: "'e env_scheme \<Rightarrow> string \<Rightarrow> string \<Rightarrow> nat \<Rightarrow> unit wio" where
  "watch_xpub E label xpub count =
     bindm current_network (\<lambda>net. bindm loadWatchList (\<lambda>entries.
     bindm (liftr (xpub_entries E net label xpub count)) (\<lambda>added.
     thenm (saveWatchList E (entries @ added))
       (thenm (set_value ''watch-xpub-label'' [])
         (thenm (set_value ''watch-xpub-input'' []) (spawn (loadWatch E)))))))"

definition on_watch_xpub_add :: "'e env_scheme \<Rightarrow> unit wio" where
  "on_watch_xpub_add E =
     thenm (set_text ''watch-xpub-error'' [])
       (bindm (get_value ''watch-xpub-label'') (\<lambda>l. bindm (get_value ''watch-xpub-input'') (\<lambda>x.
        bindm (get_value ''watch-xpub-count'') (\<lambda>c.
          let label = js_trim l; xpub = js_trim x in
          if label = [] \<or> xpub = [] then set_text ''watch-xpub-error'' ''Enter a label and an xpub.''
          else catchm (watch_xpub E label xpub (xpub_count c))
            (\<lambda>e. set_text ''watch-xpub-error''
               (or_text (err_message E e) ''Could not derive addresses from this xpub.''))))))"

section \<open>A list on a screen\<close>

text \<open>
  The contract of a screen over a stored list: showing it neither fails nor changes
  it. Then a change is what is found next, and a refused write changes nothing.
\<close>

locale list_screen = json_store load save "list_all ok"
  for load :: "('s, 'a list) io" and save :: "'a list \<Rightarrow> ('s, unit) io" and ok :: "'a \<Rightarrow> bool" +
  fixes show_list :: "('s, unit) io"
  assumes show_total: "load s = (Inr vs, s) \<Longrightarrow> list_all ok vs \<Longrightarrow> wp show_list (\<lambda>_ t. load t = (Inr vs, t)) (\<lambda>_ _. False) s"
begin

lemma change_kept:
  assumes "load s = (Inr vs, s)" "list_all ok (f vs)"
    and after: "\<And>t. load t = (Inr (f vs), t) \<Longrightarrow> wp after (\<lambda>_ u. load u = (Inr (f vs), u)) (\<lambda>_ _. False) t"
  shows "wp (bindm load (\<lambda>vs. thenm (save (f vs)) after)) (\<lambda>_ t. load t = (Inr (f vs), t)) (\<lambda>_ t. t = s) s"
proof (cases "save (f vs) s")
  case (Pair r t)
  show ?thesis
  proof (cases r)
    case (Inl e)
    then show ?thesis using Pair assms(1) save_refused by (simp add: wp_simps wp_Inr wp_Inl)
  next
    case (Inr x)
    then have "load t = (Inr (f vs), t)" using Pair assms(2) load_saved by simp
    then have "wp after (\<lambda>_ u. load u = (Inr (f vs), u)) (\<lambda>_ u. u = s) t" by (auto intro: wp_mono [OF after])
    then show ?thesis using Pair Inr assms(1) by (simp add: wp_simps wp_Inr)
  qed
qed

lemma change_shown:
  assumes "load s = (Inr vs, s)" "list_all ok (f vs)"
  shows "wp (bindm load (\<lambda>vs. thenm (save (f vs)) show_list)) (\<lambda>_ t. load t = (Inr (f vs), t)) (\<lambda>_ t. t = s) s"
  by (rule change_kept) (use assms show_total in auto)

end

section \<open>The stored entries\<close>

definition entry_ok :: "jsval \<Rightarrow> bool" where
  "entry_ok v = (json_ok v \<and> (case v of JObj _ \<Rightarrow> True | _ \<Rightarrow> False))"

lemma entry_ok_value [simp]: "entry_ok (entry_value l a)" "entry_ok (xpub_entry l g a i)"
  by (simp_all add: entry_ok_def entry_value_def xpub_entry_def)

lemma entry_ok_obj: "entry_ok v \<Longrightarrow> \<exists>kvs. v = JObj kvs"
  by (cases v) (simp_all add: entry_ok_def)

lemma load_list_same:
  assumes "localStore t k = localStore s k" "load_list k s = (Inr vs, s)"
  shows "load_list k t = (Inr vs, t)"
  using assms
  by (auto simp: load_list_def load_json_def getItem_def getm_def bindm_def liftr_def ret_def split: if_splits prod.splits sum.splits)

lemma entries_store: "json_store (load_list k) (save_list P k) (list_all entry_ok)"
proof
  show "load_list k t = (Inr vs, t)" if "list_all entry_ok vs" "save_list P k vs s = (Inr (), t)" for vs s t
    using that json_list.load_saved [of vs P k s t] by (simp add: list_all_iff entry_ok_def)
  show "t = s" if "save_list P k vs s = (Inl e, t)" for vs s t e
    using that json_list.save_refused by blast
qed

lemma mapi_total: "(\<And>i x. x \<in> set xs \<Longrightarrow> \<exists>y. f i x = Inr y) \<Longrightarrow> \<exists>ys. mapi f xs = Inr ys"
  unfolding mapi_def by (rule mapr_exists) (auto simp: set_zip)

lemma row_html_total:
  "list_all entry_ok es \<Longrightarrow> \<exists>hs. mapi book_row_html es = Inr hs"
  "list_all entry_ok es \<Longrightarrow> \<exists>hs. mapi watch_row_html es = Inr hs"
  by (rule mapi_total; force simp: list_all_iff book_row_html_def watch_row_html_def field_string_def dest!: entry_ok_obj)+

lemma wp_form_total:
  assumes "\<And>x s. P s \<Longrightarrow> wp (f x) (\<lambda>_. P) (\<lambda>_ _. False) s" "P s"
  shows "wp (form xs f) (\<lambda>_. P) (\<lambda>_ _. False) s"
  using assms(2)
proof (induction xs arbitrary: s)
  case (Cons x xs)
  show ?case unfolding wp_form by (rule wp_mono [OF assms(1) [OF Cons.prems] Cons.IH])
qed (simp add: wp_simps)

lemma book_store: "json_store loadAddressBookEntries (saveAddressBookEntries E) (list_all entry_ok)"
  using entries_store by (simp add: loadAddressBookEntries_def saveAddressBookEntries_def [abs_def])

lemma watch_store: "json_store loadWatchList (saveWatchList E) (list_all entry_ok)"
  using entries_store by (simp add: loadWatchList_def saveWatchList_def [abs_def])

interpretation book: list_screen loadAddressBookEntries "saveAddressBookEntries E" entry_ok renderAddressBook for E
proof (intro list_screen.intro book_store list_screen_axioms.intro)
  fix s vs
  assume l: "loadAddressBookEntries s = (Inr vs, s)" "list_all entry_ok vs"
  obtain hs where "mapi book_row_html vs = Inr hs" using row_html_total(1) [OF l(2)] by blast
  with l(1) show "wp renderAddressBook (\<lambda>_ t. loadAddressBookEntries t = (Inr vs, t)) (\<lambda>_ _. False) s"
    by (auto simp: renderAddressBook_def wp_simps wp_Inr loadAddressBookEntries_def elim!: load_list_same [rotated])
qed

lemma wp_watch_balance:
  "localStore s = st \<Longrightarrow> wp (watch_balance E i e) (\<lambda>_ t. localStore t = st) (\<lambda>_ _. False) s"
  by (simp add: watch_balance_def balance_def wp_simps sent_state_def split: sum.splits)

lemma wp_watch_balances:
  "wp (form xs (\<lambda>(i, e). watch_balance E i e)) (\<lambda>_ t. localStore t = localStore s) (\<lambda>_ _. False) s"
  by (rule wp_form_total) (auto intro: wp_watch_balance)

interpretation watch: list_screen loadWatchList "saveWatchList E" entry_ok "spawn (loadWatch E')" for E E'
proof (intro list_screen.intro watch_store list_screen_axioms.intro)
  fix s vs
  assume l: "loadWatchList s = (Inr vs, s)" "list_all entry_ok vs"
  obtain hs where "mapi watch_row_html vs = Inr hs" using row_html_total(2) [OF l(2)] by blast
  with l(1) show "wp (spawn (loadWatch E')) (\<lambda>_ t. loadWatchList t = (Inr vs, t)) (\<lambda>_ _. False) s"
    by (auto simp: loadWatch_def wp_simps wp_Inr loadWatchList_def elim!: load_list_same [rotated]
        intro!: wp_mono [OF wp_watch_balances])
qed

section \<open>The screens implement lists of labelled addresses\<close>

text \<open>The abstract operations on lists of label and address.\<close>

definition list_add :: "string \<Rightarrow> string \<Rightarrow> (string \<times> string) list \<Rightarrow> (string \<times> string) list" where
  "list_add l a es = (if js_trim l = [] \<or> js_trim a = [] then es else es @ [(js_trim l, js_trim a)])"

definition entry_pair :: "jsval \<Rightarrow> string \<times> string" where
  "entry_pair v = (case (field_string v ''label'', field_string v ''address'') of (Inr l, Inr a) \<Rightarrow> (l, a) | _ \<Rightarrow> ([], []))"

definition kept :: "string \<Rightarrow> 'b browser_scheme \<Rightarrow> (string \<times> string) list option" where
  "kept k s =
     (case fst (load_list k s) of
        Inr vs \<Rightarrow> if list_all entry_ok vs then Some (map entry_pair vs) else None
      | Inl _ \<Rightarrow> None)"

lemma kept_Some: "kept k s = Some es \<longleftrightarrow> (\<exists>vs. load_list k s = (Inr vs, s) \<and> list_all entry_ok vs \<and> es = map entry_pair vs)"
  using load_list_keeps [of k s "fst (load_list k s)" "snd (load_list k s)"]
  by (cases "load_list k s") (auto simp: kept_def split: sum.splits)

lemma kept_same: "localStore t k = localStore s k \<Longrightarrow> kept k s = Some es \<Longrightarrow> kept k t = Some es"
  using load_list_same by (fastforce simp: kept_Some)

lemma entry_pair_simps [simp]:
  "entry_pair (entry_value l a) = (l, a)" "entry_pair (xpub_entry l g a i) = (l @ '' #'' @ nat_text i, a)"
  by (simp_all add: entry_pair_def entry_value_def xpub_entry_def field_string_def)

lemma map_splice1: "map f (splice1 i xs) = splice1 i (map f xs)"
  by (simp add: splice1_def take_map drop_map)

lemma list_all_splice1: "list_all P xs \<Longrightarrow> list_all P (splice1 i xs)"
  by (auto simp: splice1_def list_all_iff dest: in_set_takeD in_set_dropD)

lemma book_screen: "list_screen (load_list ''fic_address_book'') (saveAddressBookEntries E) entry_ok renderAddressBook"
  using book.list_screen_axioms by (simp add: loadAddressBookEntries_def)

lemma watch_screen: "list_screen (load_list ''fic_watch_list'') (saveWatchList E) entry_ok (spawn (loadWatch E'))"
  using watch.list_screen_axioms by (simp add: loadWatchList_def)

lemma remove_refines:
  assumes "list_screen (load_list k) save entry_ok show" "kept k s = Some es"
  shows "wp (bindm (load_list k) (\<lambda>vs. thenm (save (splice1 i vs)) show)) (\<lambda>_ t. kept k t = Some (splice1 i es)) (\<lambda>_ t. t = s) s"
proof -
  obtain vs where vs: "load_list k s = (Inr vs, s)" "list_all entry_ok vs" "es = map entry_pair vs"
    using assms by (auto simp: kept_Some)
  show ?thesis
    by (rule wp_mono [OF list_screen.change_shown [OF assms(1) vs(1)]])
       (use vs in \<open>auto simp: list_all_splice1 kept_Some map_splice1\<close>)
qed

lemma append_refines:
  assumes "list_screen (load_list k) save entry_ok show" "kept k (s :: wallet) = Some es" "list_all entry_ok added"
  shows "wp (bindm (load_list k) (\<lambda>vs. thenm (save (vs @ added)) (thenm (set_value i []) (thenm (set_value j []) show))))
    (\<lambda>_ t. kept k t = Some (es @ map entry_pair added)) (\<lambda>_ t. t = s) s"
proof -
  obtain vs where vs: "load_list k s = (Inr vs, s)" "list_all entry_ok vs" "es = map entry_pair vs"
    using assms by (auto simp: kept_Some)
  have "wp (bindm (load_list k) (\<lambda>vs. thenm (save (vs @ added)) (thenm (set_value i []) (thenm (set_value j []) show))))
      (\<lambda>_ t. load_list k t = (Inr (vs @ added), t)) (\<lambda>_ t. t = s) s"
    by (rule list_screen.change_kept [OF assms(1) vs(1), where f = "\<lambda>vs. vs @ added"])
       (use vs assms in \<open>auto simp: wp_simps intro!: list_screen.show_total [OF assms(1)] elim!: load_list_same [rotated]\<close>)
  then show ?thesis by (rule wp_mono) (use vs assms(3) in \<open>auto simp: kept_Some\<close>)
qed

lemma add_refines:
  assumes "list_screen (load_list k) save entry_ok show" "kept k (s :: wallet) = Some es"
  shows "wp (bindm (get_value i) (\<lambda>l. bindm (get_value j) (\<lambda>a. let label = js_trim l; address = js_trim a in
      if label = [] \<or> address = [] then ret () else bindm (load_list k) (\<lambda>entries.
        thenm (save (entries @ [entry_value label address])) (thenm (set_value i []) (thenm (set_value j []) show))))))
    (\<lambda>_ t. kept k t = Some (list_add (inputValue s i) (inputValue s j) es)) (\<lambda>_ t. t = s) s"
  using append_refines [OF assms, of "[entry_value (js_trim (inputValue s i)) (js_trim (inputValue s j))]" i j] assms(2)
  by (simp add: wp_bindm [of "get_value _"] wp_read wp_basic list_add_def Let_def)

text \<open>The addresses an extended public key adds to the watch list.\<close>

definition watched :: "'e env_scheme \<Rightarrow> network \<Rightarrow> string \<Rightarrow> string \<Rightarrow> nat \<Rightarrow> (string \<times> string) list \<Rightarrow> bool" where
  "watched E net label xpub n ps =
     (length ps = n \<and> (\<forall>i < n. fst (ps ! i) = label @ '' #'' @ nat_text i \<and>
        deriveXpubAddress (e_sha256 E) (e_ripemd160 E) (e_bip E) xpub net (int i) = Inr (snd (ps ! i))))"

lemma xpub_entries_watched:
  assumes "xpub_entries E net label xpub n = Inr vs"
  shows "list_all entry_ok vs \<and> watched E net label xpub n (map entry_pair vs)"
proof -
  have l: "length vs = n" using mapr_Inr_length assms by (fastforce simp: xpub_entries_def)
  have "\<exists>a. deriveXpubAddress (e_sha256 E) (e_ripemd160 E) (e_bip E) xpub net (int i) = Inr a \<and>
      vs ! i = xpub_entry label (js_slice_from (- 8) xpub) a i" if "i < n" for i
    using mapr_Inr_nth [OF assms [unfolded xpub_entries_def], of i] that by (auto simp: result_simps)
  then show ?thesis using l by (fastforce simp: watched_def list_all_length)
qed

lemma xpub_count_bounds: "1 \<le> xpub_count v \<and> xpub_count v \<le> 50"
proof (cases "js_StringToNumber v")
  case (Fin x)
  define y where "y = max 1 (min 50 x)"
  have "1 \<le> y" "y \<le> 50" by (simp_all add: y_def)
  then have "1 \<le> nat \<lceil>y\<rceil> \<and> nat \<lceil>y\<rceil> \<le> 50" by linarith
  then show ?thesis using Fin by (simp add: xpub_count_def y_def)
qed (simp_all add: xpub_count_def)

lemma watch_xpub_refines:
  assumes "kept ''fic_watch_list'' s = Some es"
  shows "wp (watch_xpub E label xpub n)
    (\<lambda>_ t. \<exists>ps net. NETWORKS (network_name s) = Some net \<and> kept ''fic_watch_list'' t = Some (es @ ps) \<and> watched E net label xpub n ps)
    (\<lambda>_ t. t = s) s"
proof (cases "NETWORKS (network_name s)")
  case None
  then show ?thesis by (simp add: watch_xpub_def current_network_def wp_simps)
next
  case (Some net)
  obtain vs where vs: "loadWatchList s = (Inr vs, s)" using assms by (auto simp: kept_Some loadWatchList_def)
  show ?thesis
  proof (cases "xpub_entries E net label xpub n")
    case (Inl e)
    then show ?thesis using vs Some by (simp add: watch_xpub_def current_network_def wp_simps wp_Inr)
  next
    case (Inr added)
    have "wp (bindm loadWatchList (\<lambda>entries. thenm (saveWatchList E (entries @ added)) (thenm (set_value ''watch-xpub-label'' [])
        (thenm (set_value ''watch-xpub-input'' []) (spawn (loadWatch E))))))
        (\<lambda>_ t. kept ''fic_watch_list'' t = Some (es @ map entry_pair added)) (\<lambda>_ t. t = s) s"
      unfolding loadWatchList_def using xpub_entries_watched [OF Inr] by (intro append_refines watch_screen assms) simp
    then have "wp (watch_xpub E label xpub n) (\<lambda>_ t. kept ''fic_watch_list'' t = Some (es @ map entry_pair added)) (\<lambda>_ t. t = s) s"
      by (simp add: watch_xpub_def current_network_def wp_simps Some Inr)
    then show ?thesis by (rule wp_mono) (use Some xpub_entries_watched [OF Inr] in blast)+
  qed
qed

lemma on_watch_xpub_add_refines:
  assumes "kept ''fic_watch_list'' s = Some es"
  shows "wp (on_watch_xpub_add E) (\<lambda>_ t. \<exists>ps. kept ''fic_watch_list'' t = Some (es @ ps) \<and> (ps = [] \<or>
      (\<exists>net n. NETWORKS (network_name s) = Some net \<and> 1 \<le> n \<and> n \<le> 50 \<and>
        watched E net (js_trim (inputValue s ''watch-xpub-label'')) (js_trim (inputValue s ''watch-xpub-input'')) n ps)))
    (\<lambda>_ _. False) s"
proof -
  let ?s = "s\<lparr>textContent := (textContent s)(''watch-xpub-error'' := [])\<rparr>"
  have k: "kept ''fic_watch_list'' (s\<lparr>textContent := f\<rparr>) = Some es" for f using assms by (rule kept_same [rotated]) simp
  show ?thesis
    using xpub_count_bounds
    by (auto simp: on_watch_xpub_add_def wp_simps Let_def k intro!: wp_mono [OF watch_xpub_refines [OF k]])
qed



end
