(* ===== verification/Wallet_Home.thy ===== *)
theory Wallet_Home
  imports Wallet_Lists
begin

text \<open>
  The home and receive screens (\<open>app.js\<close>): the combined balance, the receive
  address and its QR code, and the list of the wallet's own addresses.
\<close>

section \<open>Home\<close>

text \<open>The active address as an element's text, which is empty when there is none.\<close>

definition active_text :: "string wio" where
  "active_text = getm (\<lambda>s. case addresses s (activeIndex s) of None \<Rightarrow> [] | Some a \<Rightarrow> a)"

definition address_count_text :: "nat \<Rightarrow> string" where
  "address_count_text n = (if n > 1 then ''Balance combined across '' @ nat_text n @ '' addresses'' else [])"

definition total_balance :: "'e env_scheme \<Rightarrow> int wio" where
  "total_balance E =
     bindm (getm addressIndices) (\<lambda>ixs. bindm (getm gateway) (\<lambda>gw.
       foldm (\<lambda>idx n.
         bindm (address_text idx) (\<lambda>a.
         bindm (balance E gw a) (\<lambda>b.
         bindm (liftr (balance_total b)) (\<lambda>m. ret (n + m))))) ixs 0))"

definition loadHome :: "'e env_scheme \<Rightarrow> unit wio" where
  "loadHome E = do_all [
     set_text ''home-error'' [],
     bindm active_text (set_text ''home-address''),
     bindm (getm addressIndices) (\<lambda>ixs. set_text ''home-address-count'' (address_count_text (length ixs))),
     catchm
       (bindm (total_balance E) (\<lambda>n. set_text ''home-balance'' (formatFic n @ '' FIC'')))
       (\<lambda>e. set_text ''home-error'' (gateway_or e (''Could not reach the network: '' @ err_string E e)))]"

section \<open>Receive\<close>

definition receive_text :: "string option \<Rightarrow> string \<Rightarrow> string option" where
  "receive_text address amount =
     (case address of
        Some a \<Rightarrow> Some (receive_uri a amount)
      | None \<Rightarrow> if js_less (Fin 0) (js_parseFloat (js_trim amount)) then Some (receive_uri ''undefined'' amount) else None)"

definition refreshReceiveQr :: "'e env_scheme \<Rightarrow> unit wio" where
  "refreshReceiveQr E =
     bindm (get_value ''receive-request-amount'') (\<lambda>amount.
     bindm (getm (\<lambda>s. addresses s (activeIndex s))) (\<lambda>a. renderQr E ''receive-qr'' (receive_text a amount)))"

definition address_row_html :: "int \<Rightarrow> int \<Rightarrow> string \<Rightarrow> string" where \<open>
  address_row_html act idx a =
    js_lines [[],
      ''    <div class="addr-row '' @ (if idx = act then ''current'' else []) @ ''">'',
      ''      <span class="mono addr-info">'' @ a @ ''</span>'',
      ''      <button class="secondary" type="button" data-select="'' @ js_toString 10 idx @ ''">'' @
        (if idx = act then ''Current'' else ''Use'') @ ''</button>'',
      ''    </div>'']\<close>

definition renderAddressList :: "unit wio" where
  "renderAddressList =
     bindm (getm activeIndex) (\<lambda>act. bindm (getm addressIndices) (\<lambda>ixs.
     bindm (mapm (\<lambda>idx. bindm (address_text idx) (\<lambda>a. ret (address_row_html act idx a))) ixs) (\<lambda>hs.
       set_html ''address-list'' (concat hs))))"

definition loadReceive :: "'e env_scheme \<Rightarrow> unit wio" where
  "loadReceive E = do_all [
     bindm active_text (set_text ''receive-address''),
     set_value ''receive-request-amount'' [],
     refreshReceiveQr E,
     renderAddressList]"

definition on_address_select :: "'e env_scheme \<Rightarrow> int \<Rightarrow> unit wio" where
  "on_address_select E idx = thenm (modm (\<lambda>s. s\<lparr>activeIndex := idx\<rparr>)) (loadReceive E)"

text \<open>\<open>Math.max(...xs)\<close>; a wallet whose receive screen is open has an address.\<close>

definition max_index :: "int list \<Rightarrow> int result" where
  "max_index ixs = (case ixs of [] \<Rightarrow> Inl RangeError | i # is \<Rightarrow> Inr (foldl max i is))"

definition on_new_address :: "'e env_scheme \<Rightarrow> unit wio" where
  "on_new_address E =
     bindm (getm addressIndices) (\<lambda>ixs. bindm (liftr (max_index ixs)) (\<lambda>m.
       let nextIndex = m + 1 in do_all [
         modm (\<lambda>s. s\<lparr>addressIndices := addressIndices s @ [nextIndex]\<rparr>),
         saveAddressIndices E,
         bindm (ensureKey E nextIndex) (\<lambda>_. ret ()),
         modm (\<lambda>s. s\<lparr>activeIndex := nextIndex\<rparr>),
         loadReceive E]))"

definition write_clipboard :: "'e env_scheme \<Rightarrow> string \<Rightarrow> unit wio" where
  "write_clipboard E text =
     bindm (liftr (pg_clipboard (e_page E) text)) (\<lambda>_. modm (\<lambda>s. s\<lparr>clipboard := Some text\<rparr>))"

definition on_copy_address :: "'e env_scheme \<Rightarrow> unit wio" where
  "on_copy_address E = bindm activeAddress (\<lambda>a. spawn (write_clipboard E a))"

definition on_view_on_explorer :: "unit wio" where
  "on_view_on_explorer = bindm activeAddress (\<lambda>a. window_open (explorer_address_url a))"

end
