(* ===== verification/Wallet_History.thy ===== *)
theory Wallet_History
  imports Wallet_Home "HOL-Library.Multiset"
begin

text \<open>
  Transaction history (\<open>app.js\<close>): the history of all addresses combined, its screen,
  the poll for new transactions, the CSV export and the transaction overlay with its
  fee-bump button.
\<close>

section \<open>Sorting\<close>

text \<open>
  \<open>Array.prototype.sort\<close> is stable: an element stays before a later one unless the
  comparison of the two is positive.
\<close>

fun js_insert :: "('a \<Rightarrow> 'a \<Rightarrow> jsnum) \<Rightarrow> 'a \<Rightarrow> 'a list \<Rightarrow> 'a list" where
  "js_insert cmp x [] = [x]"
| "js_insert cmp x (y # ys) = (if js_less (Fin 0) (cmp x y) then y # js_insert cmp x ys else x # y # ys)"

fun js_sort :: "('a \<Rightarrow> 'a \<Rightarrow> jsnum) \<Rightarrow> 'a list \<Rightarrow> 'a list" where
  "js_sort cmp [] = []"
| "js_sort cmp (x # xs) = js_insert cmp x (js_sort cmp xs)"

section \<open>Combined history\<close>

definition entry_txid :: "jsval \<Rightarrow> jsval" where
  "entry_txid t = (case js_get t ''txid'' of Inr v \<Rightarrow> v | Inl _ \<Rightarrow> JUndef)"

text \<open>\<open>t.height ?? Infinity\<close> as a number.\<close>

definition sort_height :: "jsval \<Rightarrow> jsnum" where
  "sort_height t =
     (case js_get t ''height'' of Inr v \<Rightarrow> js_toNumber (js_coalesce v (JNum (Infinity True))) | Inl _ \<Rightarrow> NaN)"

definition by_height :: "jsval \<Rightarrow> jsval \<Rightarrow> jsnum" where
  "by_height a b = js_sub (sort_height b) (sort_height a)"

definition address_history :: "'e env_scheme \<Rightarrow> int \<Rightarrow> jsval list wio" where
  "address_history E idx =
     bindm (getm gateway) (\<lambda>gw. bindm (address_text idx) (\<lambda>a.
     bindm (history E gw a 50) (\<lambda>resp. liftr (bindr (js_get resp ''transactions'') js_iter))))"

text \<open>The inner loop: transactions whose id was seen are skipped.\<close>

fun add_unseen :: "jsval list \<Rightarrow> jsval list \<times> jsval list \<Rightarrow> (jsval list \<times> jsval list) result" where
  "add_unseen [] (seen, allTxs) = Inr (seen, allTxs)"
| "add_unseen (t # ts) (seen, allTxs) =
     bindr (js_get t ''txid'') (\<lambda>txid.
       if txid \<in> set seen then add_unseen ts (seen, allTxs) else add_unseen ts (seen @ [txid], allTxs @ [t]))"

definition fetchCombinedHistory :: "'e env_scheme \<Rightarrow> jsval list wio" where
  "fetchCombinedHistory E =
     bindm (getm addressIndices) (\<lambda>ixs.
     bindm (foldm (\<lambda>idx acc. bindm (address_history E idx) (\<lambda>ts. liftr (add_unseen ts acc))) ixs ([], [])) (\<lambda>(_, allTxs).
       ret (js_sort by_height allTxs)))"

section \<open>History screen\<close>

text \<open>The set of seen ids as a list without repetitions.\<close>

definition add_new :: "jsval list \<Rightarrow> jsval list \<Rightarrow> jsval list" where
  "add_new old new = foldl (\<lambda>xs x. if x \<in> set xs then xs else xs @ [x]) old new"

definition seen_or_empty :: "jsval list option \<Rightarrow> jsval list" where
  "seen_or_empty seen = (case seen of None \<Rightarrow> [] | Some xs \<Rightarrow> xs)"

definition mark_seen :: "jsval list \<Rightarrow> unit wio" where
  "mark_seen txs = modm (\<lambda>s. s\<lparr>seenTxids := Some (add_new (seen_or_empty (seenTxids s)) (map entry_txid txs))\<rparr>)"

definition history_row_html :: "jsval \<Rightarrow> string result" where \<open>
  history_row_html t =
    bindr (field_string t ''txid'') (\<lambda>txid. bindr (js_get t ''height'') (\<lambda>h.
      Inr (''<div class="tx-row mono" data-txid="'' @ txid @ ''">'' @ txid @ ''<br><span class="notice">'' @
        (if js_truthy h then ''Height '' @ js_String h else ''Pending'') @ ''</span></div>'')))\<close>

definition error_html :: "string \<Rightarrow> string" where \<open>
  error_html m = ''<p class="error">'' @ m @ ''</p>''\<close>

definition loading_html :: string where \<open>
  loading_html = ''<p class="notice">Loading...</p>''\<close>

definition loadHistory :: "'e env_scheme \<Rightarrow> unit wio" where \<open>
  loadHistory E =
    thenm (set_html ''history-list'' loading_html)
      (catchm
        (bindm (fetchCombinedHistory E) (\<lambda>allTxs.
         thenm (modm (\<lambda>s. s\<lparr>lastHistory := Some allTxs\<rparr>))
          (thenm (mark_seen allTxs)
            (if allTxs = [] then set_html ''history-list'' ''<p class="notice">No transactions yet.</p>''
             else bindm (liftr (mapr history_row_html allTxs)) (\<lambda>hs. set_html ''history-list'' (concat hs))))))
        (\<lambda>e. set_html ''history-list'' (error_html (gateway_or e ''Could not reach the network.''))))\<close>

section \<open>Polling\<close>

definition stopTxPolling :: "unit wio" where
  "stopTxPolling =
     bindm (getm txPollHandle) (\<lambda>h. case h of
       None \<Rightarrow> ret ()
     | Some i \<Rightarrow> modm (\<lambda>s. s\<lparr>timers := filter (\<lambda>j. j \<noteq> i) (timers s), txPollHandle := None\<rparr>))"

definition setInterval :: "nat wio" where
  "setInterval =
     bindm (getm nextTimer) (\<lambda>i. thenm (modm (\<lambda>s. s\<lparr>timers := timers s @ [i], nextTimer := i + 1\<rparr>)) (ret i))"

definition startTxPolling :: "unit wio" where
  "startTxPolling =
     thenm stopTxPolling (bindm setInterval (\<lambda>i. modm (\<lambda>s. s\<lparr>txPollHandle := Some i\<rparr>)))"

definition banner_text :: "nat \<Rightarrow> string" where
  "banner_text n = (if n = 1 then ''1 new transaction'' else nat_text n @ '' new transactions'')"

definition showNewTxBanner :: "nat \<Rightarrow> unit wio" where
  "showNewTxBanner n =
     thenm (set_text ''new-tx-banner-text'' (banner_text n)) (set_display ''new-tx-banner'' ''flex'')"

definition unlocked :: "wallet \<Rightarrow> bool" where
  "unlocked s = (case mnemonic s of None \<Rightarrow> False | Some m \<Rightarrow> m \<noteq> [])"

definition checkForNewTx :: "'e env_scheme \<Rightarrow> unit wio" where
  "checkForNewTx E =
     bindm (getm unlocked) (\<lambda>u.
       if \<not> u then ret ()
       else catchm
         (bindm (fetchCombinedHistory E) (\<lambda>allTxs.
          bindm (getm seenTxids) (\<lambda>seen. case seen of
            None \<Rightarrow> mark_seen allTxs
          | Some ids \<Rightarrow>
              let newOnes = filter (\<lambda>t. entry_txid t \<notin> set ids) allTxs in
              thenm (mark_seen allTxs) (whenm (length newOnes > 0) (showNewTxBanner (length newOnes))))))
         (\<lambda>_. ret ()))"

definition on_new_tx_dismiss :: "unit wio" where
  "on_new_tx_dismiss = set_display ''new-tx-banner'' ''none''"

section \<open>CSV export\<close>

definition csv_cell :: "string \<Rightarrow> string" where
  "csv_cell cell = CHR 0x22 # concat (map (\<lambda>c. if c = CHR 0x22 then [c, c] else [c]) cell) @ [CHR 0x22]"

definition csv_row :: "string list \<Rightarrow> string" where
  "csv_row cells = js_join '','' (map csv_cell cells)"

definition csv_text :: "string list list \<Rightarrow> string" where
  "csv_text rws = js_join [CHR 0x0A] (map csv_row rws)"

definition csv_header :: "string list" where
  "csv_header = [''txid'', ''status'', ''height'', ''fee_satoshis'']"

definition csv_entry :: "jsval \<Rightarrow> string list result" where
  "csv_entry t =
     bindr (js_get t ''txid'') (\<lambda>txid. bindr (js_get t ''height'') (\<lambda>h. bindr (js_get t ''fee'') (\<lambda>f.
       Inr [js_String txid,
         if js_truthy h \<and> js_less (Fin 0) (js_toNumber h) then ''confirmed'' else ''pending'',
         js_String (js_coalesce h (JStr [])),
         js_String (js_coalesce f (JStr []))])))"

definition on_export_csv :: "'e env_scheme \<Rightarrow> unit wio" where
  "on_export_csv E =
     bindm (getm lastHistory) (\<lambda>h.
       let txs = seen_or_empty h in
       if txs = [] then ret ()
       else bindm (liftr (mapr csv_entry txs)) (\<lambda>rws.
         modui (\<lambda>u. u\<lparr>downloads := downloads u @
           [(''firstislamiccoin-history-'' @ pg_isoDate (e_page E) @ ''.csv'', csv_text (csv_header # rws))]\<rparr>)))"

section \<open>Transaction overlay\<close>

text \<open>\<open>v?.k\<close> and \<open>v?.[0]\<close>.\<close>

definition opt_get :: "jsval \<Rightarrow> string \<Rightarrow> jsval result" where
  "opt_get v k = (if nullish v then Inr JUndef else js_get v k)"

definition opt_first :: "jsval \<Rightarrow> jsval" where
  "opt_first v =
     (case v of JArr (x # _) \<Rightarrow> x | JStr (c # _) \<Rightarrow> JStr [c]
      | JObj kvs \<Rightarrow> (case map_of kvs ''0'' of None \<Rightarrow> JUndef | Some x \<Rightarrow> x) | _ \<Rightarrow> JUndef)"

definition status_text :: "jsval \<Rightarrow> jsval \<Rightarrow> string" where
  "status_text h confirmations =
     (if js_truthy h then ''Confirmed, height '' @ js_String h @ '' ('' @ js_String confirmations @ '' confirmations)''
      else ''Pending'')"

definition stake_rows :: "jsval \<Rightarrow> (string \<times> string) list result" where
  "stake_rows tx =
     bindr (js_get tx ''is_coinstake'') (\<lambda>c. bindr (js_get tx ''reward_satoshis'') (\<lambda>r.
       if js_truthy c \<and> \<not> nullish r
       then bindr (formatFic_value r) (\<lambda>n. Inr [(''Type'', ''Staking reward (coinstake)''), (''Reward'', n @ '' FIC'')])
       else Inr []))"

definition vin_row :: "jsval \<Rightarrow> (string \<times> string) result" where
  "vin_row vin =
     bindr (js_get vin ''coinbase'') (\<lambda>c.
       if js_truthy c then Inr (''Input'', ''coinbase'')
       else bindr (text_field vin ''txid'') (\<lambda>t. bindr (field_string vin ''vout'') (\<lambda>n.
         Inr (''Input'', js_slice 0 16 t @ ''...:'' @ n))))"

definition vout_address :: "jsval \<Rightarrow> jsval result" where
  "vout_address vout =
     bindr (js_get vout ''scriptPubKey'') (\<lambda>spk. bindr (opt_get spk ''address'') (\<lambda>a.
       if js_truthy a then Inr a
       else bindr (opt_get spk ''addresses'') (\<lambda>as. Inr (js_or (opt_first as) (JStr ''(non-standard output)'')))))"

definition vout_row :: "jsval \<Rightarrow> (string \<times> string) result" where
  "vout_row vout =
     bindr (vout_address vout) (\<lambda>a. bindr (field_string vout ''value'') (\<lambda>v.
       Inr (''Output'', js_String a @ '': '' @ v @ '' FIC'')))"

definition tx_rows :: "jsval \<Rightarrow> (string \<times> string) list result" where
  "tx_rows tx =
     bindr (field_string tx ''txid'') (\<lambda>txid. bindr (js_get tx ''height'') (\<lambda>h. bindr (js_get tx ''confirmations'') (\<lambda>n.
     bindr (stake_rows tx) (\<lambda>st.
     bindr (bindr (bindr (js_get tx ''vin'') js_iter) (mapr vin_row)) (\<lambda>ins.
     bindr (bindr (bindr (js_get tx ''vout'') js_iter) (mapr vout_row)) (\<lambda>outs.
       Inr ([(''Txid'', txid), (''Status'', status_text h n)] @ st @ ins @ outs)))))))"

definition kv_row_html :: "string \<times> string \<Rightarrow> string" where \<open>
  kv_row_html = (\<lambda>(k, v). ''<div class="kv-row"><span>'' @ escapeHtml k @ ''</span><span class="mono">'' @ escapeHtml v @
    ''</span></div>'')\<close>

definition can_bump :: "jsval \<Rightarrow> string \<Rightarrow> bool wio" where
  "can_bump tx txid =
     bindm (liftr (js_get tx ''height'')) (\<lambda>h.
       if js_truthy h then ret False
       else bindm loadSentTxLog (\<lambda>entries.
         ret (case map_of entries txid of None \<Rightarrow> False | Some v \<Rightarrow> js_truthy v)))"

definition openTxDetail :: "'e env_scheme \<Rightarrow> string \<Rightarrow> unit wio" where
  "openTxDetail E txid = do_all [
     set_display ''tx-detail-overlay'' ''flex'',
     modui (\<lambda>u. u\<lparr>explorerTarget := Some txid\<rparr>),
     set_display ''btn-tx-detail-bump-fee'' ''none'',
     set_text ''tx-detail-bump-error'' [],
     set_text ''tx-detail-bump-success'' [],
     set_html ''tx-detail-body'' loading_html,
     catchm
       (bindm (getm gateway) (\<lambda>gw. bindm (gw_tx E gw txid) (\<lambda>tx.
        bindm (can_bump tx txid) (\<lambda>b.
        thenm (whenm b (thenm (set_display ''btn-tx-detail-bump-fee'' ''block'') (modui (\<lambda>u. u\<lparr>bumpTarget := Some txid\<rparr>))))
          (bindm (liftr (tx_rows tx)) (\<lambda>rws. set_html ''tx-detail-body'' (concat (map kv_row_html rws))))))))
       (\<lambda>e. set_html ''tx-detail-body'' (error_html (gateway_or e ''Could not load transaction.'')))]"

definition on_bump_click :: "'e env_scheme \<Rightarrow> unit wio" where
  "on_bump_click E =
     bindm (getui bumpTarget) (\<lambda>target. case target of
       None \<Rightarrow> ret ()
     | Some txid \<Rightarrow> do_all [
         set_text ''tx-detail-bump-error'' [],
         set_text ''tx-detail-bump-success'' [],
         set_disabled ''btn-tx-detail-bump-fee'' True,
         finallym
           (catchm
             (bindm (bumpFee E txid) (\<lambda>newTxid.
              thenm (set_text ''tx-detail-bump-success'' (''Rebroadcast with a higher fee: '' @ newTxid))
                (set_display ''btn-tx-detail-bump-fee'' ''none'')))
             (\<lambda>e. set_text ''tx-detail-bump-error'' (or_text (err_message E e) ''Could not bump fee.'')))
           (set_disabled ''btn-tx-detail-bump-fee'' False)])"

definition on_tx_explorer :: "unit wio" where
  "on_tx_explorer =
     bindm (getui explorerTarget) (\<lambda>target. case target of
       None \<Rightarrow> ret ()
     | Some txid \<Rightarrow> window_open (''https://explorer.firstislamiccoin.com/#/tx/'' @ txid))"

definition on_tx_detail_close :: "unit wio" where
  "on_tx_detail_close = set_display ''tx-detail-overlay'' ''none''"

section \<open>Sorting is sorting\<close>

lemma mset_js_insert: "mset (js_insert cmp x ys) = add_mset x (mset ys)"
  by (induction ys) auto

lemma mset_js_sort: "mset (js_sort cmp xs) = mset xs"
  by (induction xs) (simp_all add: mset_js_insert)

lemma set_js_sort: "set (js_sort cmp xs) = set xs"
  using mset_js_sort [of cmp xs] by (metis set_mset_mset)

lemma set_js_insert: "set (js_insert cmp x ys) = insert x (set ys)"
  using mset_js_insert [of cmp x ys] by (metis set_mset_add_mset_insert set_mset_mset)

text \<open>A height as the gateway reports it: missing, or a block number.\<close>

definition height_ok :: "jsval \<Rightarrow> bool" where
  "height_ok t = (sort_height t = Infinity True \<or> (\<exists>n. \<bar>n\<bar> \<le> 2 ^ 52 \<and> sort_height t = Fin (of_int n)))"

definition not_below :: "jsval \<Rightarrow> jsval \<Rightarrow> bool" where
  "not_below a b = (\<not> js_less (sort_height a) (sort_height b))"

lemma by_height_less:
  assumes "height_ok a" "height_ok b"
  shows "js_less (Fin 0) (by_height a b) \<longleftrightarrow> \<not> not_below a b"
proof -
  have "round_double (of_int m - of_int n) = Fin (of_int (m - n))" if "\<bar>m\<bar> \<le> 2 ^ 52" "\<bar>n\<bar> \<le> 2 ^ 52" for m n :: int
    using js_Number_exact [of "m - n"] that by (simp add: js_Number_def)
  then show ?thesis using assms by (auto simp: height_ok_def by_height_def not_below_def js_sub_def)
qed

lemma not_below_total: "height_ok a \<Longrightarrow> height_ok b \<Longrightarrow> \<not> not_below a b \<Longrightarrow> not_below b a"
  by (auto simp: height_ok_def not_below_def)

lemma not_below_trans: "height_ok a \<Longrightarrow> height_ok b \<Longrightarrow> height_ok c \<Longrightarrow> not_below a b \<Longrightarrow> not_below b c \<Longrightarrow> not_below a c"
  by (auto simp: height_ok_def not_below_def)

lemma sorted_js_insert:
  "height_ok x \<Longrightarrow> list_all height_ok ys \<Longrightarrow> sorted_wrt not_below ys \<Longrightarrow> sorted_wrt not_below (js_insert by_height x ys)"
proof (induction ys)
  case (Cons y ys)
  show ?case
  proof (cases "not_below x y")
    case True
    with Cons.prems show ?thesis by (auto simp: by_height_less list_all_iff intro: not_below_trans [of x y])
  next
    case False
    with Cons show ?thesis by (auto simp: by_height_less set_js_insert intro: not_below_total)
  qed
qed simp

lemma sorted_js_sort: "list_all height_ok xs \<Longrightarrow> sorted_wrt not_below (js_sort by_height xs)"
  by (induction xs) (simp_all add: sorted_js_insert list_all_iff set_js_sort)

section \<open>The combined history\<close>

text \<open>Of several transactions with one id the first.\<close>

fun first_of_each :: "jsval list \<Rightarrow> jsval list \<Rightarrow> jsval list" where
  "first_of_each ids [] = []"
| "first_of_each ids (t # ts) =
     (if entry_txid t \<in> set ids then first_of_each ids ts else t # first_of_each (ids @ [entry_txid t]) ts)"

lemma add_unseen_first:
  "add_unseen ts (ids, acc) = Inr (ids', acc') \<Longrightarrow>
   acc' = acc @ first_of_each ids ts \<and> ids' = ids @ map entry_txid (first_of_each ids ts)"
proof (induction ts arbitrary: ids acc)
  case (Cons t ts)
  then obtain v where "js_get t ''txid'' = Inr v" by (auto simp: result_simps)
  with Cons show ?case by (force simp: entry_txid_def split: if_splits)
qed simp

lemma first_of_each_append:
  "first_of_each ids (ts @ us) = first_of_each ids ts @ first_of_each (ids @ map entry_txid (first_of_each ids ts)) us"
  by (induction ts arbitrary: ids) simp_all

lemma first_of_each_ids:
  "distinct (map entry_txid (first_of_each ids ts)) \<and> set (map entry_txid (first_of_each ids ts)) = entry_txid ` set ts - set ids"
proof (induction ts arbitrary: ids)
  case (Cons t ts)
  show ?case
  proof (cases "entry_txid t \<in> set ids")
    case True
    then show ?thesis using Cons.IH [of ids] by auto
  next
    case False
    then show ?thesis using Cons.IH [of "ids @ [entry_txid t]"] by auto
  qed
qed simp

lemma mset_first_of_each: "mset (first_of_each ids ts) \<subseteq># mset ts"
proof (induction ts arbitrary: ids)
  case (Cons t ts)
  have "mset ts \<subseteq># mset (t # ts)" by simp
  then show ?case
    using subset_mset.order_trans [OF Cons.IH [of ids]] Cons.IH [of "ids @ [entry_txid t]"] by simp
qed simp

lemma history_loop:
  assumes "foldm (\<lambda>idx acc. bindm (address_history E idx) (\<lambda>ts. liftr (add_unseen ts acc))) ixs (ids, acc) s = (Inr (ids', acc'), t)"
  shows "\<exists>lists. mapm (address_history E) ixs s = (Inr lists, t) \<and> acc' = acc @ first_of_each ids (concat lists)"
  using assms
proof (induction ixs arbitrary: ids acc s)
  case (Cons idx ixs)
  from Cons.prems obtain ts u ids1 acc1 where u: "address_history E idx s = (Inr ts, u)" "add_unseen ts (ids, acc) = Inr (ids1, acc1)"
      "foldm (\<lambda>idx acc. bindm (address_history E idx) (\<lambda>ts. liftr (add_unseen ts acc))) ixs (ids1, acc1) u = (Inr (ids', acc'), t)"
    by (auto simp: bindm_def liftr_def split: prod.splits sum.splits)
  from Cons.IH [OF u(3)] add_unseen_first [OF u(2)] u(1) show ?case
    by (auto simp: bindm_def ret_def first_of_each_append)
qed (simp add: ret_def)


definition sample_history :: jsval where
  "sample_history = JObj [(''transactions'', JArr [JObj [(''txid'', JStr ''aa''), (''height'', JNum (Fin 5))],
     JObj [(''txid'', JStr ''bb'')], JObj [(''txid'', JStr ''aa''), (''height'', JNum (Fin 5))]])]"

definition answering :: "jsval \<Rightarrow> env" where
  "answering v = sample_env\<lparr>p_fetch := \<lambda>_ _. Inr \<lparr>rs_ok = True, rs_status = 200, rs_body = json_stringify v\<rparr>\<rparr>"

lemma gw_get_answering:
  "json_ok v \<Longrightarrow> gw_get (answering v) base path auth s = (Inr v, sent_state (get_request base path auth) s)"
  by (simp add: gw_get_def answering_def fetch_def bindm_def thenm_def getm_def modm_def liftr_def gw_decode_ok
      json_parse_stringify sent_state_def get_request_def)


end
