(* ===== verification/Wallet_Staking.thy ===== *)
theory Wallet_Staking
  imports Wallet_History
begin

text \<open>
  The staking screen (\<open>app.js\<close>): signing in to the staking service, its status,
  referrals, deposits and withdrawals, web push and price alerts. The page reloads
  itself when its session has expired, so it is a partial function whose totality
  is a theorem.
\<close>

section \<open>Price alerts\<close>

definition price_text :: "'e env_scheme \<Rightarrow> jsval \<Rightarrow> string result" where
  "price_text E v =
     (case v of JNum n \<Rightarrow> Inr (pg_localeNumber (e_page E) n)
      | _ \<Rightarrow> if nullish v then Inl TypeError else Inr (js_String v))"

definition alert_row_html :: "jsval \<Rightarrow> string result" where \<open>
  alert_row_html a =
    bindr (field_string a ''direction'') (\<lambda>d. bindr (field_string a ''threshold_usd'') (\<lambda>n. bindr (field_string a ''id'') (\<lambda>i.
      Inr (''<div class="stat-row"><span>Price goes '' @ d @ '' $'' @ n @ ''</span>'' @
        ''<button class="secondary" data-alert-id="'' @ i @ ''" data-action="delete-price-alert">Remove</button></div>''))))\<close>

definition pending_alert :: "jsval \<Rightarrow> bool result" where
  "pending_alert a = bindr (js_get a ''triggered_at'') (\<lambda>t. Inr (\<not> js_truthy t))"

text \<open>\<open>xs.filter(p)\<close> with a condition that may throw.\<close>

fun filterr :: "('a \<Rightarrow> bool result) \<Rightarrow> 'a list \<Rightarrow> 'a list result" where
  "filterr p [] = Inr []"
| "filterr p (x # xs) = bindr (p x) (\<lambda>b. bindr (filterr p xs) (\<lambda>ys. Inr (if b then x # ys else ys)))"

definition load_price :: "'e env_scheme \<Rightarrow> unit wio" where
  "load_price E =
     catchm
       (bindm (getm gateway) (\<lambda>gw. bindm (currentPrice E gw) (\<lambda>resp.
        bindm (liftr (bindr (js_get resp ''usd_per_fic'') (price_text E))) (\<lambda>t.
          set_text ''price-alerts-current'' (''Current price: ~$'' @ t)))))
       (\<lambda>_. set_text ''price-alerts-current'' ''Current price: unavailable right now'')"

definition loadPriceAlerts :: "'e env_scheme \<Rightarrow> unit wio" where \<open>
  loadPriceAlerts E =
    thenm (load_price E)
      (catchm
        (bindm (getm gateway) (\<lambda>gw. bindm (getm stakeToken) (\<lambda>token. bindm (priceAlertsList E gw token) (\<lambda>resp.
         bindm (liftr (bindr (bindr (js_get resp ''alerts'') js_array) (filterr pending_alert))) (\<lambda>pending.
           if pending = [] then set_html ''price-alert-list'' ''<p class="notice">No alerts set.</p>''
           else bindm (liftr (mapr alert_row_html pending)) (\<lambda>hs. set_html ''price-alert-list'' (concat hs)))))))
        (\<lambda>_. ret ()))\<close>

definition on_alert_delete :: "'e env_scheme \<Rightarrow> string \<Rightarrow> unit wio" where
  "on_alert_delete E alertId =
     catchm
       (bindm (getm gateway) (\<lambda>gw. bindm (getm stakeToken) (\<lambda>token. bindm (priceAlertsDelete E gw token alertId) (\<lambda>_.
         spawn (loadPriceAlerts E)))))
       (\<lambda>e. set_text ''price-alert-error'' (gateway_or e (err_string E e)))"

definition on_price_alert_add :: "'e env_scheme \<Rightarrow> unit wio" where
  "on_price_alert_add E =
     thenm (set_text ''price-alert-error'' [])
       (bindm (get_value ''price-alert-direction'') (\<lambda>direction.
        bindm (get_value ''price-alert-threshold'') (\<lambda>v.
          let threshold = js_parseFloat v in
          if \<not> js_truthy_num threshold \<or> js_less_eq threshold (Fin 0)
          then set_text ''price-alert-error'' ''Enter a USD price to alert at.''
          else catchm
            (bindm (getm gateway) (\<lambda>gw. bindm (getm stakeToken) (\<lambda>token.
             bindm (priceAlertsCreate E gw token direction (JNum threshold)) (\<lambda>_.
             thenm (set_value ''price-alert-threshold'' []) (spawn (loadPriceAlerts E))))))
            (\<lambda>e. set_text ''price-alert-error'' (gateway_or e (err_string E e))))))"

section \<open>Status\<close>

definition stakingLoggedIn :: "bool wio" where
  "stakingLoggedIn = getm (\<lambda>s. js_truthy (stakeToken s))"

definition block_if :: "bool \<Rightarrow> string" where
  "block_if b = (if b then ''block'' else ''none'')"

definition show_staking_cards :: "'e env_scheme \<Rightarrow> bool \<Rightarrow> unit wio" where
  "show_staking_cards E b = do_all [
     set_display ''staking-auth-card'' (block_if (\<not> b)),
     set_display ''staking-status-card'' (block_if b),
     set_display ''push-card'' (block_if (b \<and> pg_push (e_page E))),
     set_display ''price-alerts-card'' (block_if (b \<and> pg_push (e_page E))),
     set_display ''staking-actions-card'' (block_if b),
     set_display ''referral-card'' (block_if b)]"

definition percent_text :: "jsval \<Rightarrow> string" where
  "percent_text bp = js_numToString (js_div (js_toNumber bp) (Fin 100)) @ ''%''"

definition fic_text :: "jsval \<Rightarrow> string \<Rightarrow> string result" where
  "fic_text v k = bindr (bindr (js_get v k) formatFic_value) (\<lambda>t. Inr (t @ '' FIC''))"

definition show_status :: "jsval \<Rightarrow> unit wio" where
  "show_status status = do_all [
     bindm (liftr (fic_text status ''delegated_amount'')) (set_text ''stat-delegated''),
     bindm (liftr (fic_text status ''accrued_rewards'')) (set_text ''stat-rewards''),
     bindm (liftr (js_get status ''effective_monthly_rate_bp'')) (\<lambda>v. set_text ''stat-rate'' (percent_text v @ '' / month'')),
     bindm (liftr (js_get status ''pool_fee_bp'')) (\<lambda>v. set_text ''stat-fee'' (percent_text v))]"

definition unauthorized :: "js_error \<Rightarrow> bool" where
  "unauthorized e = (case e of GatewayError (Some c) _ \<Rightarrow> c = ''unauthorized'' | _ \<Rightarrow> False)"

text \<open>The status request; \<open>True\<close> when the session turns out to have expired.\<close>

definition load_status :: "'e env_scheme \<Rightarrow> bool wio" where
  "load_status E =
     catchm
       (bindm (getm gateway) (\<lambda>gw. bindm (getm stakeToken) (\<lambda>token. bindm (stakingStatus E gw token) (\<lambda>status.
         thenm (show_status status) (ret False)))))
       (\<lambda>e. if unauthorized e
            then thenm (modm (\<lambda>s. s\<lparr>stakeToken := JNull\<rparr>)) (thenm (session_removeItem ''fic_stake_token'') (ret True))
            else ret False)"

definition load_referral :: "'e env_scheme \<Rightarrow> unit wio" where
  "load_referral E =
     catchm
       (bindm (getm gateway) (\<lambda>gw. bindm (getm stakeToken) (\<lambda>token. bindm (referralStatus E gw token) (\<lambda>ref. do_all [
         bindm (liftr (js_get ref ''referral_code'')) (\<lambda>v. set_text ''stat-referral-code'' (text_of v)),
         bindm (liftr (js_get ref ''referred_count'')) (\<lambda>v. set_text ''stat-referral-count'' (text_of v)),
         bindm (liftr (fic_text ref ''available_satoshis'')) (set_text ''stat-referral-available'')]))))
       (\<lambda>_. ret ())"

definition referral_status_text :: "jsval \<Rightarrow> string result" where
  "referral_status_text r =
     bindr (js_get r ''amount_satoshis'') (\<lambda>a.
       if nullish a then Inr ''no funded deposit yet''
       else bindr (js_get r ''withdrawn'') (\<lambda>w. bindr (formatFic_value a) (\<lambda>t.
         Inr (t @ '' FIC earned '' @ (if js_truthy w then ''(withdrawn)'' else ''(available)'')))))"

definition referral_row_html :: "'e env_scheme \<Rightarrow> jsval \<Rightarrow> string result" where \<open>
  referral_row_html E r =
    bindr (js_get r ''joined_at'') (\<lambda>j. bindr (referral_status_text r) (\<lambda>st. bindr (field_string r ''referred_email_masked'') (\<lambda>m.
      Inr (''<div class="stat-row"><span>'' @ escapeHtml m @ '' (joined '' @
        pg_localeDate (e_page E) (js_mul (js_toNumber j) (Fin 1000)) @ '')</span><span>'' @ escapeHtml st @ ''</span></div>''))))\<close>

definition load_referral_history :: "'e env_scheme \<Rightarrow> unit wio" where \<open>
  load_referral_history E =
    catchm
      (bindm (getm gateway) (\<lambda>gw. bindm (getm stakeToken) (\<lambda>token. bindm (referralHistory E gw token) (\<lambda>resp.
       bindm (liftr (js_get resp ''referrals'')) (\<lambda>referrals.
       bindm (liftr (js_get referrals ''length'')) (\<lambda>n.
         if \<not> js_truthy n then set_html ''referral-history-list'' ''<p class="notice">No referrals yet.</p>''
         else bindm (liftr (bindr (js_array referrals) (mapr (referral_row_html E)))) (\<lambda>hs.
           set_html ''referral-history-list'' (concat hs))))))))
      (\<lambda>_. ret ())\<close>

text \<open>
  One run of \<open>loadStaking\<close>: nobody signed in, an expired session that makes it start
  again, or the rest of the page.
\<close>

datatype staking_next = Stop | Again | Continue

definition staking_front :: "'e env_scheme \<Rightarrow> staking_next wio" where
  "staking_front E =
     bindm stakingLoggedIn (\<lambda>b.
     thenm (show_staking_cards E b)
       (if \<not> b then ret Stop
        else thenm (spawn (loadPriceAlerts E)) (bindm (load_status E) (\<lambda>expired. ret (if expired then Again else Continue)))))"

partial_function (option) staking_run :: "'e env_scheme \<Rightarrow> wallet \<Rightarrow> wallet option" where
  "staking_run E s =
     (case staking_front E s of
        (Inr Again, t) \<Rightarrow> staking_run E t
      | (Inr Continue, t) \<Rightarrow> Some (snd (thenm (load_referral E) (load_referral_history E) t))
      | (_, t) \<Rightarrow> Some t)"

text \<open>Nobody awaits \<open>loadStaking\<close>, so callers only see the state it leaves.\<close>

definition loadStaking :: "'e env_scheme \<Rightarrow> unit wio" where
  "loadStaking E = modm (\<lambda>s. case staking_run E s of Some t \<Rightarrow> t | None \<Rightarrow> s)"

section \<open>Copying the referral code\<close>

text \<open>The label's timers fire in the order they were set, each restoring the text its click found.\<close>

definition on_referral_copy :: "'e env_scheme \<Rightarrow> unit wio" where
  "on_referral_copy E =
     bindm (get_text ''stat-referral-code'') (\<lambda>code.
       if code = [] \<or> code = ''-'' then ret ()
       else catchm
         (thenm (write_clipboard E code)
           (bindm (get_text ''btn-referral-copy'') (\<lambda>original.
             thenm (set_text ''btn-referral-copy'' ''Copied!'') (modui (\<lambda>u. u\<lparr>copyTimers := copyTimers u @ [original]\<rparr>)))))
         (\<lambda>_. ret ()))"

definition on_copy_timer :: "unit wio" where
  "on_copy_timer =
     bindm (getui copyTimers) (\<lambda>ts. case ts of
       [] \<Rightarrow> ret ()
     | original # rest \<Rightarrow> thenm (set_text ''btn-referral-copy'' original) (modui (\<lambda>u. u\<lparr>copyTimers := rest\<rparr>)))"

section \<open>Signing in\<close>

definition kyc_fields :: "(string \<times> jsval) list wio" where
  "kyc_fields =
     bindm (get_value ''stake-full-name'') (\<lambda>n. bindm (get_value ''stake-dob'') (\<lambda>d. bindm (get_value ''stake-id-type'') (\<lambda>t.
     bindm (get_value ''stake-id-number'') (\<lambda>i. bindm (get_value ''stake-referral-code'') (\<lambda>r.
       ret [(''full_name'', JStr (js_trim n)), (''date_of_birth'', JStr d), (''id_type'', JStr t),
         (''id_number'', JStr (js_trim i)), (''referral_code'', JStr (js_trim r))])))))"

definition stakeAuth :: "'e env_scheme \<Rightarrow> string \<Rightarrow> unit wio" where
  "stakeAuth E action =
     thenm (set_text ''stake-auth-error'' [])
       (bindm (get_value ''stake-email'') (\<lambda>m. bindm (get_value ''stake-password'') (\<lambda>password.
          let email = js_trim m in
          catchm
            (bindm (getm gateway) (\<lambda>gw.
             bindm (if action = ''login'' then login E gw email password
                    else bindm kyc_fields (signup E gw email password)) (\<lambda>result.
             bindm (liftr (js_get result ''token'')) (\<lambda>token.
             thenm (modm (\<lambda>s. s\<lparr>stakeToken := token\<rparr>))
               (thenm (session_setItem E ''fic_stake_token'' (js_String token)) (loadStaking E))))))
            (\<lambda>e. set_text ''stake-auth-error'' (gateway_or e (err_string E e))))))"

section \<open>Deposits and withdrawals\<close>

definition bad_amount :: "jsnum \<Rightarrow> bool" where
  "bad_amount n = (\<not> js_truthy_num n \<or> js_less_eq n (Fin 0))"

definition on_stake_deposit :: "'e env_scheme \<Rightarrow> unit wio" where
  "on_stake_deposit E =
     bindm (get_value ''deposit-amount'') (\<lambda>v.
       let amountFic = js_parseFloat v in
       if bad_amount amountFic then ret ()
       else thenm (set_text ''staking-action-error'' [])
         (catchm
           (bindm (getm gateway) (\<lambda>gw. bindm (getm stakeToken) (\<lambda>token.
            bindm (stakingDeposit E gw token (JNum (to_satoshis amountFic))) (\<lambda>result.
            bindm (liftr (field_string result ''deposit_address'')) (\<lambda>a.
              set_text ''deposit-result'' (''Send funds to: '' @ a))))))
           (\<lambda>e. thenm (set_text ''deposit-result'' [])
              (set_text ''staking-action-error'' (gateway_or e (err_string E e))))))"

definition withdrawal_text :: "jsval \<Rightarrow> string result" where
  "withdrawal_text result = bindr (field_string result ''txid'') (\<lambda>t. Inr (''Withdrawal broadcast: '' @ t))"

definition on_stake_withdraw :: "'e env_scheme \<Rightarrow> unit wio" where
  "on_stake_withdraw E = do_all [
     set_text ''staking-action-error'' [],
     set_text ''staking-action-success'' [],
     bindm (get_value ''withdraw-amount'') (\<lambda>v. bindm (get_value ''withdraw-address'') (\<lambda>a.
       let amountFic = js_parseFloat v; toAddress = js_trim a in
       if bad_amount amountFic \<or> toAddress = []
       then set_text ''staking-action-error'' ''Enter an amount and destination address.''
       else catchm
         (bindm (getm gateway) (\<lambda>gw. bindm (getm stakeToken) (\<lambda>token.
          bindm (stakingWithdraw E gw token (JNum (to_satoshis amountFic)) toAddress) (\<lambda>result.
          bindm (liftr (withdrawal_text result)) (\<lambda>t. thenm (set_text ''staking-action-success'' t) (loadStaking E))))))
         (\<lambda>e. set_text ''staking-action-error'' (gateway_or e (err_string E e)))))]"

definition on_referral_withdraw :: "'e env_scheme \<Rightarrow> unit wio" where
  "on_referral_withdraw E = do_all [
     set_text ''referral-action-error'' [],
     set_text ''referral-action-success'' [],
     bindm (get_value ''referral-withdraw-address'') (\<lambda>a.
       let toAddress = js_trim a in
       if toAddress = [] then set_text ''referral-action-error'' ''Enter a destination address.''
       else catchm
         (bindm (getm gateway) (\<lambda>gw. bindm (getm stakeToken) (\<lambda>token.
          bindm (referralWithdraw E gw token toAddress) (\<lambda>result.
          bindm (liftr (withdrawal_text result)) (\<lambda>t. thenm (set_text ''referral-action-success'' t) (loadStaking E))))))
         (\<lambda>e. set_text ''referral-action-error'' (gateway_or e (err_string E e))))]"

section \<open>Web push\<close>

text \<open>An existing subscription is used as it is; otherwise one is made for the gateway's key.\<close>

definition push_subscription :: "'e env_scheme \<Rightarrow> jsval \<Rightarrow> jsval result" where
  "push_subscription E vapid =
     bindr (pg_subscription (e_page E)) (\<lambda>existing. case existing of
       Some sub \<Rightarrow> Inr sub
     | None \<Rightarrow>
         (case vapid of
            JStr k \<Rightarrow> bindr (urlBase64ToUint8Array k) (pg_subscribe (e_page E))
          | _ \<Rightarrow> Inl TypeError))"

definition on_enable_push :: "'e env_scheme \<Rightarrow> unit wio" where
  "on_enable_push E = do_all [
     set_text ''push-error'' [],
     set_text ''push-success'' [],
     catchm
       (bindm (liftr (pg_permission (e_page E))) (\<lambda>permission.
         if permission \<noteq> ''granted'' then set_text ''push-error'' ''Notification permission was not granted.''
         else bindm (getm gateway) (\<lambda>gw. bindm (pushVapidPublicKey E gw) (\<lambda>resp.
           bindm (liftr (js_get resp ''public_key'')) (\<lambda>vapid.
           bindm (liftr (pg_register (e_page E))) (\<lambda>_.
           bindm (liftr (push_subscription E vapid)) (\<lambda>sub.
           bindm (getm stakeToken) (\<lambda>token. bindm (pushSubscribe E gw token sub) (\<lambda>_.
             set_text ''push-success'' ''Notifications enabled.'')))))))))
       (\<lambda>e. set_text ''push-error'' (gateway_or e (err_string E e)))]"

section \<open>The staking page always loads\<close>

lemma wp_any: "(\<And>x t. Q x t) \<Longrightarrow> (\<And>e t. F e t) \<Longrightarrow> wp m Q F s"
  by (simp add: wp_def split: prod.splits sum.splits)

lemma load_status_expired: "wp (load_status E) (\<lambda>expired t. expired \<longrightarrow> stakeToken t = JNull) F s"
  unfolding load_status_def wp_catchm
  by (simp add: wp_simps stakingStatus_def split: sum.splits) (auto intro!: wp_any simp: wp_simps)

lemma staking_front_again:
  "wp (staking_front E) (\<lambda>next t. next = Again \<longrightarrow> stakeToken t = JNull) (\<lambda>_ _. True) s"
  by (auto simp: staking_front_def stakingLoggedIn_def wp_simps intro!: wp_any wp_mono [OF load_status_expired])

lemma staking_front_signed_out:
  assumes "\<not> js_truthy (stakeToken s)"
  shows "\<exists>t. staking_front E s = (Inr Stop, t)"
  using assms
  by (simp add: staking_front_def stakingLoggedIn_def show_staking_cards_def bindm_def thenm_def getm_def ret_def
      set_display_def modm_def)

text \<open>
  C27: Loading the staking page always comes to an end: an expired session makes it start over at most once, since
  the token is gone then and nobody is signed in.
\<close>

theorem loadStaking_terminates:
  "\<exists>t. staking_run E s = Some t \<and> loadStaking E s = (Inr (), t) \<and>
    (\<forall>u. staking_front E s = (Inr Again, u) \<longrightarrow> (\<exists>v. staking_front E u = (Inr Stop, v) \<and> t = v \<and> \<not> js_truthy (stakeToken u)))"
proof -
  have "\<exists>t. staking_run E s = Some t \<and> (\<forall>u. staking_front E s = (Inr Again, u) \<longrightarrow>
      (\<exists>v. staking_front E u = (Inr Stop, v) \<and> t = v \<and> \<not> js_truthy (stakeToken u)))"
  proof (cases "\<exists>u. staking_front E s = (Inr Again, u)")
    case True
    then obtain u where u: "staking_front E s = (Inr Again, u)" by blast
    then have "\<not> js_truthy (stakeToken u)" using staking_front_again [of E s] by (simp add: wp_Inr)
    moreover from this obtain v where v: "staking_front E u = (Inr Stop, v)" using staking_front_signed_out by blast
    then have "staking_run E u = Some v" by (subst staking_run.simps) simp
    then have "staking_run E s = Some v" using u by (subst staking_run.simps) simp
    ultimately show ?thesis using u v by auto
  next
    case False
    then show ?thesis
      by (cases "staking_front E s") (subst staking_run.simps, auto split: sum.splits staking_next.splits)
  qed
  then show ?thesis by (auto simp: loadStaking_def modm_def)
qed

definition refusing :: "string \<Rightarrow> env" where
  "refusing code = sample_env\<lparr>p_fetch := \<lambda>_ _. Inr \<lparr>rs_ok = False, rs_status = 401,
     rs_body = json_stringify (JObj [(''error'', JObj [(''code'', JStr code), (''message'', JStr ''expired'')])])\<rparr>\<rparr>"

lemma gw_get_refusing:
  "code \<noteq> [] \<Longrightarrow> gw_get (refusing code) base path auth s =
     (Inl (GatewayError (Some code) ''expired''), sent_state (get_request base path auth) s)"
  by (simp add: gw_get_def refusing_def fetch_def bindm_def thenm_def getm_def modm_def liftr_def gw_decode_def
      json_parse_stringify sent_state_def get_request_def js_or_def error_code_def)

theorem loadStaking_terminates_witness:
  "\<exists>t u v. staking_run (refusing ''unauthorized'') (sample_wallet\<lparr>stakeToken := JStr ''old''\<rparr>) = Some t \<and>
     staking_front (refusing ''unauthorized'') (sample_wallet\<lparr>stakeToken := JStr ''old''\<rparr>) = (Inr Again, u) \<and>
     staking_front (refusing ''unauthorized'') u = (Inr Stop, v) \<and> t = v"
proof -
  define f where "f = (\<lambda>s. snd (load_status (refusing ''unauthorized'') s))"
  have "load_status (refusing ''unauthorized'') s = (Inr True, f s)" for s
    by (simp add: f_def load_status_def catchm_def bindm_def getm_def stakingStatus_def gw_get_refusing unauthorized_def thenm_def
        modm_def session_removeItem_def ret_def)
  then obtain u where u: "staking_front (refusing ''unauthorized'') (sample_wallet\<lparr>stakeToken := JStr ''old''\<rparr>) = (Inr Again, u)"
    by (simp add: staking_front_def stakingLoggedIn_def show_staking_cards_def bindm_def thenm_def getm_def ret_def spawn_def
        set_display_def modm_def)
  obtain t where "staking_run (refusing ''unauthorized'') (sample_wallet\<lparr>stakeToken := JStr ''old''\<rparr>) = Some t"
      "\<exists>v. staking_front (refusing ''unauthorized'') u = (Inr Stop, v) \<and> t = v \<and> \<not> js_truthy (stakeToken u)"
    using loadStaking_terminates [of "refusing ''unauthorized''" "sample_wallet\<lparr>stakeToken := JStr ''old''\<rparr>"] u by metis
  with u show ?thesis by metis
qed

section \<open>A second click\<close>

text \<open>The second of two quick clicks finds the label \<open>Copied!\<close>, and its timer puts that back for good.\<close>

lemma copy_label_stuck:
  assumes "textContent s ''stat-referral-code'' = code" "code \<noteq> []" "code \<noteq> ''-''" "copyTimers (ui s) = []"
    "pg_clipboard (e_page E) code = Inr ()"
  shows "wp (do_all [on_referral_copy E, on_referral_copy E, on_copy_timer, on_copy_timer])
    (\<lambda>_ t. textContent t ''btn-referral-copy'' = ''Copied!'' \<and> copyTimers (ui t) = []) (\<lambda>_ _. False) s"
  using assms by (simp add: on_referral_copy_def on_copy_timer_def write_clipboard_def wp_simps)

end
