(* ===== verification/Wallet_Multisig.thy ===== *)
theory Wallet_Multisig
  imports Wallet_Staking Wallet_Send_Spec Multisig_Spec
begin

text \<open>
  The multisig screen (\<open>app.js\<close>): making an address, proposing a spend, signing and
  broadcasting a proposal that cosigners pass around as JSON text or as a QR code.
\<close>

section \<open>Proposals as JSON\<close>

definition proposal_in_value :: "proposal_in \<Rightarrow> jsval" where
  "proposal_in_value i = JObj [(''txid'', JStr (pi_txid i)), (''vout'', js_int (pi_vout i)),
     (''valueSatoshis'', js_int (pi_value i)), (''redeemScript'', JStr (pi_redeemScript i))]"

definition proposal_out_value :: "proposal_out \<Rightarrow> jsval" where
  "proposal_out_value o' = JObj [(''scriptPubKey'', JStr (po_scriptPubKey o')), (''valueSatoshis'', js_int (po_value o'))]"

definition sigs_value :: "(string \<times> string) list \<Rightarrow> jsval" where
  "sigs_value kvs = JObj (map (\<lambda>(k, v). (k, JStr v)) kvs)"

text \<open>The signature objects are given with their entries in order.\<close>

definition proposal_value :: "proposal \<Rightarrow> (string \<times> string) list list \<Rightarrow> jsval" where
  "proposal_value p objs = JObj [(''version'', js_int (pr_version p)), (''locktime'', js_int (pr_locktime p)),
     (''inputs'', JArr (map proposal_in_value (pr_inputs p))), (''outputs'', JArr (map proposal_out_value (pr_outputs p))),
     (''signatures'', JArr (map sigs_value objs))]"

text \<open>Reading a proposal; a text of another shape than the page writes is refused.\<close>

definition proposal_in_of :: "jsval \<Rightarrow> proposal_in result" where
  "proposal_in_of v =
     bindr (text_field v ''txid'') (\<lambda>t. bindr (int_field v ''vout'') (\<lambda>n. bindr (int_field v ''valueSatoshis'') (\<lambda>a.
     bindr (text_field v ''redeemScript'') (\<lambda>r. Inr \<lparr>pi_txid = t, pi_vout = n, pi_value = a, pi_redeemScript = r\<rparr>))))"

definition proposal_out_of :: "jsval \<Rightarrow> proposal_out result" where
  "proposal_out_of v =
     bindr (text_field v ''scriptPubKey'') (\<lambda>t. bindr (int_field v ''valueSatoshis'') (\<lambda>a.
       Inr \<lparr>po_scriptPubKey = t, po_value = a\<rparr>))"

definition sig_entry_of :: "string \<times> jsval \<Rightarrow> (string \<times> string) result" where
  "sig_entry_of = (\<lambda>(k, v). case v of JStr s \<Rightarrow> Inr (k, s) | _ \<Rightarrow> Inl TypeError)"

definition sigs_of :: "jsval \<Rightarrow> sig_map result" where
  "sigs_of v = bindr (bindr (js_entries v) (mapr sig_entry_of)) (\<lambda>kvs. Inr (map_of kvs))"

definition array_field :: "jsval \<Rightarrow> string \<Rightarrow> jsval list result" where
  "array_field v k = bindr (js_get v k) js_array"

definition proposal_of :: "jsval \<Rightarrow> proposal result" where
  "proposal_of v =
     bindr (int_field v ''version'') (\<lambda>ver. bindr (int_field v ''locktime'') (\<lambda>lt.
     bindr (bindr (array_field v ''inputs'') (mapr proposal_in_of)) (\<lambda>ins.
     bindr (bindr (array_field v ''outputs'') (mapr proposal_out_of)) (\<lambda>outs.
     bindr (bindr (array_field v ''signatures'') (mapr sigs_of)) (\<lambda>sigs.
       Inr \<lparr>pr_version = ver, pr_locktime = lt, pr_inputs = ins, pr_outputs = outs, pr_signatures = sigs\<rparr>)))))"

section \<open>Signing and finalising the text\<close>

text \<open>
  Signing changes the parsed object in place: the key's entry of every signature
  object it was added to.
\<close>

definition set_sig :: "string \<Rightarrow> sig_map \<Rightarrow> jsval \<Rightarrow> jsval" where
  "set_sig pk m obj =
     (case obj of
        JObj kvs \<Rightarrow> (case m pk of None \<Rightarrow> obj | Some sg \<Rightarrow> JObj (obj_set kvs pk (JStr sg)))
      | _ \<Rightarrow> obj)"

definition write_sigs :: "string \<Rightarrow> sig_map list \<Rightarrow> jsval \<Rightarrow> jsval result" where
  "write_sigs pk sigs v =
     bindr (js_entries v) (\<lambda>kvs. bindr (array_field v ''signatures'') (\<lambda>objs.
       Inr (JObj (obj_set kvs ''signatures'' (JArr (map2 (set_sig pk) sigs objs))))))"

definition sign_text :: "'e env_scheme \<Rightarrow> key_pair \<Rightarrow> string \<Rightarrow> string result" where
  "sign_text E key txt =
     bindr (json_parse txt) (\<lambda>v. bindr (proposal_of v) (\<lambda>p.
     bindr (signMultisigProposal (e_sha256 E) (e_sign E) p (Some (kp_private key)) (kp_public key)) (\<lambda>p'.
     bindr (write_sigs (bytesToHex (kp_public key)) (pr_signatures p') v) (\<lambda>v'. Inr (json_stringify_indent v')))))"

definition finalize_text :: "string \<Rightarrow> bytes result" where
  "finalize_text txt = bindr (json_parse txt) (\<lambda>v. bindr (proposal_of v) finalizeMultisigTransaction)"

section \<open>Handlers\<close>

definition loadMultisig :: "'e env_scheme \<Rightarrow> unit wio" where
  "loadMultisig E = bindm (ensureKey E 0) (\<lambda>key. set_text ''my-pubkey'' (bytesToHex (kp_public key)))"

text \<open>\<open>String(e.message || e)\<close>\<close>

definition message_or_string :: "'e env_scheme \<Rightarrow> js_error \<Rightarrow> string" where
  "message_or_string E e = or_text (err_message E e) (err_string E e)"

definition pubkey_lines :: "string \<Rightarrow> bytes list" where
  "pubkey_lines v = map hexToBytes (filter (\<lambda>l. l \<noteq> []) (map js_trim (js_split (CHR 0x0A) (js_trim v))))"

definition ms_create :: "'e env_scheme \<Rightarrow> unit wio" where
  "ms_create E =
     bindm (ensureKey E 0) (\<lambda>key.
     bindm (get_value ''ms-pubkeys'') (\<lambda>v. bindm (get_value ''ms-m'') (\<lambda>m.
     bindm (liftr (createMultisigRedeemScript (js_parseInt 10 m) (kp_public key # pubkey_lines v))) (\<lambda>redeemScript.
     bindm current_network (\<lambda>net.
     bindm (liftr (multisigAddress (e_sha256 E) (e_ripemd160 E) redeemScript net)) (\<lambda>address. do_all [
       set_text ''ms-redeem-script'' (bytesToHex redeemScript),
       set_text ''ms-address'' address,
       set_display ''ms-create-result'' ''block'',
       set_value ''ms-propose-address'' address,
       set_value ''ms-propose-redeem'' (bytesToHex redeemScript)]))))))"

definition on_ms_create :: "'e env_scheme \<Rightarrow> unit wio" where
  "on_ms_create E = do_all [
     set_text ''ms-create-error'' [],
     set_display ''ms-create-result'' ''none'',
     catchm (ms_create E) (\<lambda>e. set_text ''ms-create-error'' (message_or_string E e))]"

definition ms_input :: "bytes \<Rightarrow> jsval \<Rightarrow> multisig_in result" where
  "ms_input redeemScript u =
     bindr (text_field u ''txid'') (\<lambda>t. bindr (int_field u ''vout'') (\<lambda>n. bindr (bindr (coin_value u) as_number) (\<lambda>v.
       Inr \<lparr>mi_txid = rev (hexToBytes t), mi_vout = n, mi_value = v, mi_redeem = redeemScript\<rparr>)))"

definition ms_outputs :: "'e env_scheme \<Rightarrow> bytes \<Rightarrow> bytes \<Rightarrow> int \<Rightarrow> int \<Rightarrow> tx_out list result" where
  "ms_outputs E outScript redeemScript amount change =
     bindr (as_number amount) (\<lambda>a.
       if change > 0
       then bindr (as_number change) (\<lambda>c. Inr [\<lparr>scriptPubKey = outScript, valueSatoshis = a\<rparr>,
         \<lparr>scriptPubKey = p2shScriptPubKey (hash160 (e_sha256 E) (e_ripemd160 E) redeemScript), valueSatoshis = c\<rparr>])
       else Inr [\<lparr>scriptPubKey = outScript, valueSatoshis = a\<rparr>])"

definition new_proposal_text :: "multisig_in list \<Rightarrow> tx_out list \<Rightarrow> string" where
  "new_proposal_text inputs outputs =
     json_stringify_indent (proposal_value (createMultisigProposal inputs outputs 0) (map (\<lambda>_. []) inputs))"

definition ms_propose :: "'e env_scheme \<Rightarrow> string \<Rightarrow> bytes \<Rightarrow> string \<Rightarrow> jsnum \<Rightarrow> unit wio" where
  "ms_propose E address redeemScript toAddress amountFic =
     bindm current_network (\<lambda>net.
     bindm (liftr (decodeAddress (e_sha256 E) toAddress net)) (\<lambda>decoded.
     bindm (liftr (js_BigInt (to_satoshis amountFic))) (\<lambda>amount.
     bindm (getm gateway) (\<lambda>gw.
     bindm (utxos E gw address) (\<lambda>utxoResp.
     bindm (fetch_min_rate E) (\<lambda>feeRate.
     bindm (liftr (bindr (js_get utxoResp ''utxos'') js_iter)) (\<lambda>us.
     bindm (liftr (choose_coins coin_value (\<lambda>n. feeRate * multisig_vsize (length redeemScript) n) amount us [] 0))
       (\<lambda>(chosen, totalIn).
         let fee = feeRate * multisig_vsize (length redeemScript) (length chosen) in
         if totalIn < amount + fee
         then set_text ''ms-propose-error'' (insufficient_text ''Insufficient funds at this address'' totalIn (amount + fee))
         else
           bindm (liftr (ms_outputs E (script_for decoded) redeemScript amount (totalIn - amount - fee))) (\<lambda>outputs.
           bindm (liftr (mapr (ms_input redeemScript) chosen)) (\<lambda>inputs.
             set_value ''ms-proposal-json'' (new_proposal_text inputs outputs)))))))))))"

definition on_ms_propose :: "'e env_scheme \<Rightarrow> unit wio" where
  "on_ms_propose E = do_all [
     set_text ''ms-propose-error'' [],
     catchm
       (bindm (get_value ''ms-propose-address'') (\<lambda>a. bindm (get_value ''ms-propose-redeem'') (\<lambda>r.
        bindm (get_value ''ms-propose-to'') (\<lambda>t. bindm (get_value ''ms-propose-amount'') (\<lambda>v.
          let amountFic = js_parseFloat v in
          if js_trim a = [] \<or> js_trim r = [] \<or> js_trim t = [] \<or> bad_amount amountFic
          then set_text ''ms-propose-error'' ''Fill in every field.''
          else ms_propose E (js_trim a) (hexToBytes (js_trim r)) (js_trim t) amountFic)))))
       (\<lambda>e. set_text ''ms-propose-error'' (message_or_string E e))]"

definition on_ms_sign :: "'e env_scheme \<Rightarrow> unit wio" where
  "on_ms_sign E = do_all [
     set_text ''ms-sign-error'' [],
     set_text ''ms-sign-success'' [],
     catchm
       (bindm (ensureKey E 0) (\<lambda>key. bindm (get_value ''ms-proposal-json'') (\<lambda>txt.
        bindm (liftr (sign_text E key txt)) (\<lambda>signed.
        thenm (set_value ''ms-proposal-json'' signed)
          (set_text ''ms-sign-success'' (''Signed with your key. Send this JSON to the next cosigner, or finalize if '' @
             ''enough signatures are collected.''))))))
       (\<lambda>e. set_text ''ms-sign-error'' (message_or_string E e))]"

definition on_ms_broadcast :: "'e env_scheme \<Rightarrow> unit wio" where
  "on_ms_broadcast E = do_all [
     set_text ''ms-sign-error'' [],
     set_text ''ms-sign-success'' [],
     catchm
       (bindm (get_value ''ms-proposal-json'') (\<lambda>txt. bindm (liftr (finalize_text txt)) (\<lambda>rawTx.
        bindm (getm gateway) (\<lambda>gw. bindm (broadcast E gw (bytesToHex rawTx)) (\<lambda>result.
        bindm (liftr (field_string result ''txid'')) (\<lambda>t. set_text ''ms-sign-success'' (''Broadcast: '' @ t)))))))
       (\<lambda>e. set_text ''ms-sign-error'' (gateway_or e (message_or_string E e)))]"

definition MS_QR_MAX_CHARS :: nat where
  "MS_QR_MAX_CHARS = 1500"

definition on_ms_show_qr :: "'e env_scheme \<Rightarrow> unit wio" where
  "on_ms_show_qr E =
     thenm (set_text ''ms-qr-error'' [])
       (bindm (get_value ''ms-proposal-json'') (\<lambda>v.
         let json = js_trim v in
         if json = [] then set_text ''ms-qr-error'' ''Nothing to show -- paste or create a proposal first.''
         else if length json > MS_QR_MAX_CHARS
         then set_text ''ms-qr-error'' (''This proposal is too large for a reliable QR code ('' @ nat_text (length json) @
           '' characters). Share the JSON text directly instead.'')
         else thenm (set_display ''ms-qr-overlay'' ''flex'') (renderQr E ''ms-qr-canvas'' (Some json))))"

definition on_ms_qr_close :: "unit wio" where
  "on_ms_qr_close = set_display ''ms-qr-overlay'' ''none''"

definition on_ms_scan_qr :: "unit wio" where
  "on_ms_scan_qr = openQrScanner ScanProposal"

section \<open>A proposal survives its text\<close>

definition proposal_small :: "proposal \<Rightarrow> bool" where
  "proposal_small p =
     (\<bar>pr_version p\<bar> < 2 ^ 52 \<and> \<bar>pr_locktime p\<bar> < 2 ^ 52 \<and>
      list_all (\<lambda>i. \<bar>pi_vout i\<bar> < 2 ^ 52 \<and> \<bar>pi_value i\<bar> < 2 ^ 52) (pr_inputs p) \<and>
      list_all (\<lambda>o'. \<bar>po_value o'\<bar> < 2 ^ 52) (pr_outputs p))"

lemma json_ok_int: "json_ok (js_int n) \<longleftrightarrow> \<bar>n\<bar> < 2 ^ 52"
  by (simp add: js_int_def num_ok_def)

lemma mapr_map_id: "(\<And>x. f (g x) = Inr x) \<Longrightarrow> mapr f (map g xs) = Inr xs"
  by (induction xs) simp_all

lemma sigs_of_value: "sigs_of (sigs_value kvs) = Inr (map_of kvs)"
proof -
  have "mapr sig_entry_of (map (\<lambda>(k, v). (k, JStr v)) kvs) = Inr kvs"
    by (rule mapr_map_id) (auto simp: sig_entry_of_def)
  then show ?thesis by (simp add: sigs_of_def sigs_value_def js_entries_def)
qed

lemma mapr_sigs_of: "mapr sigs_of (map sigs_value objs) = Inr (map map_of objs)"
  by (induction objs) (simp_all add: sigs_of_value)

lemma proposal_of_value: "proposal_of (proposal_value p objs) = Inr (p\<lparr>pr_signatures := map map_of objs\<rparr>)"
proof -
  have i: "mapr proposal_in_of (map proposal_in_value is) = Inr is" for "is"
    by (rule mapr_map_id) (simp add: proposal_in_of_def proposal_in_value_def text_field_def int_field_def js_int_def)
  have o: "mapr proposal_out_of (map proposal_out_value os) = Inr os" for os
    by (rule mapr_map_id) (simp add: proposal_out_of_def proposal_out_value_def text_field_def int_field_def js_int_def)
  show ?thesis
    by (simp add: proposal_of_def proposal_value_def array_field_def int_field_def js_int_def i o mapr_sigs_of)
qed

lemma proposal_value_ok:
  assumes "proposal_small p" "list_all (\<lambda>kvs. distinct (map fst kvs)) objs"
  shows "json_ok (proposal_value p objs)"
proof -
  have "json_ok (sigs_value kvs)" if "distinct (map fst kvs)" for kvs
    using that by (simp add: sigs_value_def list_all_iff comp_def case_prod_beta)
  then show ?thesis
    using assms
    by (auto simp: proposal_value_def proposal_small_def json_ok_int proposal_in_value_def proposal_out_value_def list_all_iff)
qed

text \<open>The text holds the proposal with its signatures.\<close>

definition carries :: "string \<Rightarrow> proposal \<Rightarrow> bool" where
  "carries txt p =
     (proposal_small p \<and> (\<exists>objs. txt = json_stringify_indent (proposal_value p objs) \<and> map map_of objs = pr_signatures p \<and>
        list_all (\<lambda>kvs. distinct (map fst kvs)) objs))"

lemma carries_parse: "carries txt p \<Longrightarrow> \<exists>v. json_parse txt = Inr v \<and> proposal_of v = Inr p"
  by (auto simp: carries_def json_parse_stringify_indent [OF proposal_value_ok] proposal_of_value)

lemma carries_new:
  "proposal_small (createMultisigProposal inputs outputs 0) \<Longrightarrow>
   carries (new_proposal_text inputs outputs) (createMultisigProposal inputs outputs 0)"
  by (auto simp: carries_def new_proposal_text_def createMultisigProposal_def list_all_iff intro!: exI [of _ "map (\<lambda>_. []) inputs"])

definition put_sig :: "string \<Rightarrow> sig_map \<Rightarrow> (string \<times> string) list \<Rightarrow> (string \<times> string) list" where
  "put_sig pk m kvs = (case m pk of None \<Rightarrow> kvs | Some sg \<Rightarrow> obj_set kvs pk sg)"

lemma obj_set_map: "obj_set (map (\<lambda>(k, v). (k, f v)) kvs) k (f v) = map (\<lambda>(k, v). (k, f v)) (obj_set kvs k v)"
  by (induction kvs) auto

lemma set_sig_value: "set_sig pk m (sigs_value kvs) = sigs_value (put_sig pk m kvs)"
  by (simp add: set_sig_def sigs_value_def put_sig_def obj_set_map split: option.splits)

lemma write_sigs_value:
  assumes "length sigs = length objs" "proposal_tx p' = proposal_tx p"
  shows "write_sigs pk sigs (proposal_value p objs) = Inr (proposal_value p' (map2 (put_sig pk) sigs objs))"
proof -
  have "map2 (set_sig pk) sigs (map sigs_value objs) = map sigs_value (map2 (put_sig pk) sigs objs)"
    using assms(1) by (induction sigs objs rule: list_induct2) (simp_all add: set_sig_value)
  moreover have "proposal_value p' = proposal_value p"
    using assms(2) by (cases p; cases p') (simp add: proposal_tx_def proposal_value_def fun_eq_iff)
  ultimately show ?thesis
    by (simp add: write_sigs_def proposal_value_def array_field_def js_entries_def)
qed

lemma distinct_obj_set: "distinct (map fst kvs) \<Longrightarrow> distinct (map fst (obj_set kvs k v))"
  by (induction kvs) (auto simp: fst_obj_set)

text \<open>One more signature in an object, or the object as it was.\<close>

definition signs_one :: "string \<Rightarrow> sig_map \<Rightarrow> sig_map \<Rightarrow> bool" where
  "signs_one pk c c' = (c' = c \<or> (\<exists>v. c' = c(pk \<mapsto> v)))"

lemma put_sig_one: "signs_one pk (map_of kvs) c' \<Longrightarrow> map_of (put_sig pk c' kvs) = c'"
  by (auto simp: signs_one_def put_sig_def map_of_obj_set split: option.splits)

lemma sign_text_carries:
  assumes "carries txt p" "signMultisigProposal (e_sha256 E) (e_sign E) p (Some (kp_private key)) (kp_public key) = Inr p'"
    "proposal_tx p' = proposal_tx p" "list_all2 (signs_one (bytesToHex (kp_public key))) (pr_signatures p) (pr_signatures p')"
  shows "\<exists>txt'. sign_text E key txt = Inr txt' \<and> carries txt' p'"
proof -
  let ?pk = "bytesToHex (kp_public key)"
  obtain objs where o: "proposal_small p" "txt = json_stringify_indent (proposal_value p objs)"
      "map map_of objs = pr_signatures p" "list_all (\<lambda>kvs. distinct (map fst kvs)) objs"
    using assms(1) by (auto simp: carries_def)
  let ?objs = "map2 (put_sig ?pk) (pr_signatures p') objs"
  have l2: "list_all2 (\<lambda>kvs c'. signs_one ?pk (map_of kvs) c') objs (pr_signatures p')"
    using assms(4) unfolding o(3) [symmetric] by (simp add: list.rel_map)
  then have len: "length (pr_signatures p') = length objs" by (simp add: list_all2_lengthD)
  have "map map_of ?objs = pr_signatures p'"
    using l2 by (induction rule: list_all2_induct) (simp_all add: put_sig_one)
  moreover have "list_all (\<lambda>kvs. distinct (map fst kvs)) ?objs"
    using o(4) by (auto simp: list_all_iff put_sig_def distinct_obj_set dest!: set_zip_rightD split: option.splits)
  moreover have "proposal_small p'" using o(1) assms(3) by (cases p; cases p') (simp add: proposal_tx_def proposal_small_def)
  moreover have "sign_text E key txt = Inr (json_stringify_indent (proposal_value p' ?objs))"
    using assms(2) write_sigs_value [OF len assms(3), of ?pk] o
    by (simp add: sign_text_def json_parse_stringify_indent [OF proposal_value_ok] proposal_of_value)
  ultimately show ?thesis by (auto simp: carries_def)
qed

lemma finalize_text_carries: "carries txt p \<Longrightarrow> finalize_text txt = finalizeMultisigTransaction p"
  using carries_parse by (fastforce simp: finalize_text_def)

section \<open>From proposal to transaction\<close>

text \<open>The text goes from cosigner to cosigner; each signs what it received.\<close>

fun pass_around :: "'e env_scheme \<Rightarrow> key_pair list \<Rightarrow> string \<Rightarrow> string result" where
  "pass_around E [] txt = Inr txt"
| "pass_around E (key # ks) txt = bindr (sign_text E key txt) (pass_around E ks)"

definition script_at :: "proposal \<Rightarrow> nat \<Rightarrow> bytes" where
  "script_at p i = hexToBytes (pi_redeemScript (pr_inputs p ! i))"

lemma sign_text_step:
  assumes "signer_ok privs pubkey (e_sign E) verify" "kp_private key \<in> privs" "kp_public key = pubkey (kp_private key)"
    "carries txt p" "proposal_ok (e_sha256 E) verify p"
  shows "\<exists>txt' p'. sign_text E key txt = Inr txt' \<and> carries txt' p' \<and> proposal_ok (e_sha256 E) verify p' \<and>
    proposal_tx p' = proposal_tx p \<and> (\<forall>i < length (pr_inputs p). dom (pr_signatures p ! i) \<subseteq> dom (pr_signatures p' ! i) \<and>
      (scriptContainsPubkey (script_at p i) (kp_public key) \<longrightarrow> bytesToHex (kp_public key) \<in> dom (pr_signatures p' ! i)))"
proof -
  obtain p' where p': "signMultisigProposal (e_sha256 E) (e_sign E) p (Some (kp_private key)) (kp_public key) = Inr p'"
      "proposal_tx p' = proposal_tx p" "proposal_ok (e_sha256 E) verify p'"
      "\<forall>i < length (pr_inputs p).
        (if scriptContainsPubkey (script_at p i) (kp_public key)
         then \<exists>v. pr_signatures p' ! i = (pr_signatures p ! i)(bytesToHex (kp_public key) \<mapsto> v)
         else pr_signatures p' ! i = pr_signatures p ! i)"
    using sign_adds [OF assms(1,2,5)] unfolding assms(3) script_at_def by blast
  have "length (pr_signatures p) = length (pr_inputs p)" "length (pr_signatures p') = length (pr_inputs p)"
    using assms(5) p'(3) proposal_tx_same(1) [OF p'(2)] by (simp_all add: proposal_ok_def)
  then have "list_all2 (signs_one (bytesToHex (kp_public key))) (pr_signatures p) (pr_signatures p')"
    unfolding list_all2_conv_all_nth signs_one_def using p'(4) by metis
  from sign_text_carries [OF assms(4) p'(1,2) this] p' show ?thesis by (metis (no_types, lifting) dom_fun_upd insertI1 option.discI order_refl subset_insertI)
qed

lemma pass_around_signs:
  assumes "signer_ok privs pubkey (e_sign E) verify"
    "\<forall>key \<in> set ks. kp_private key \<in> privs \<and> kp_public key = pubkey (kp_private key)"
    "carries txt p" "proposal_ok (e_sha256 E) verify p"
  shows "\<exists>txt' p'. pass_around E ks txt = Inr txt' \<and> carries txt' p' \<and> proposal_ok (e_sha256 E) verify p' \<and>
    proposal_tx p' = proposal_tx p \<and> (\<forall>i < length (pr_inputs p). dom (pr_signatures p ! i) \<subseteq> dom (pr_signatures p' ! i) \<and>
      (\<forall>key \<in> set ks. scriptContainsPubkey (script_at p i) (kp_public key) \<longrightarrow>
        bytesToHex (kp_public key) \<in> dom (pr_signatures p' ! i)))"
  using assms(2-4)
proof (induction ks arbitrary: "txt" p)
  case (Cons key ks)
  from Cons.prems(1) have "kp_private key \<in> privs" "kp_public key = pubkey (kp_private key)" by simp_all
  from sign_text_step [OF assms(1) this Cons.prems(2,3)]
  obtain txt1 p1 where p1: "sign_text E key txt = Inr txt1" "carries txt1 p1" "proposal_ok (e_sha256 E) verify p1"
      "proposal_tx p1 = proposal_tx p" "\<And>i. i < length (pr_inputs p) \<Longrightarrow> dom (pr_signatures p ! i) \<subseteq> dom (pr_signatures p1 ! i)"
      "\<And>i. i < length (pr_inputs p) \<Longrightarrow> scriptContainsPubkey (script_at p i) (kp_public key) \<Longrightarrow>
        bytesToHex (kp_public key) \<in> dom (pr_signatures p1 ! i)" by blast
  have same: "pr_inputs p1 = pr_inputs p" "script_at p1 = script_at p"
    using proposal_tx_same(1) [OF p1(4)] by (simp_all add: script_at_def fun_eq_iff)
  from Cons.prems(1) have "\<forall>key \<in> set ks. kp_private key \<in> privs \<and> kp_public key = pubkey (kp_private key)" by simp
  from Cons.IH [OF this p1(2,3), unfolded same]
  obtain txt' p' where p': "pass_around E ks txt1 = Inr txt'" "carries txt' p'" "proposal_ok (e_sha256 E) verify p'"
      "proposal_tx p' = proposal_tx p1" "\<And>i. i < length (pr_inputs p) \<Longrightarrow> dom (pr_signatures p1 ! i) \<subseteq> dom (pr_signatures p' ! i)"
      "\<And>i key. i < length (pr_inputs p) \<Longrightarrow> key \<in> set ks \<Longrightarrow> scriptContainsPubkey (script_at p i) (kp_public key) \<Longrightarrow>
        bytesToHex (kp_public key) \<in> dom (pr_signatures p' ! i)" by blast
  have "dom (pr_signatures p ! i) \<subseteq> dom (pr_signatures p' ! i)" if "i < length (pr_inputs p)" for i
    using p1(5) p'(5) that by blast
  moreover have "bytesToHex (kp_public k) \<in> dom (pr_signatures p' ! i)"
    if "i < length (pr_inputs p)" "k \<in> set (key # ks)" "scriptContainsPubkey (script_at p i) (kp_public k)" for i k
    using that subsetD [OF p'(5) p1(6)] p'(6) by (cases "k = key") simp_all
  ultimately show ?case using p1(1,4) p'(1-4) by (intro exI [of _ txt'] exI [of _ p']) auto
qed auto

definition unsigned_ins :: "multisig_in list \<Rightarrow> tx_in list" where
  "unsigned_ins = map (\<lambda>i. \<lparr>prevTxid = mi_txid i, prevVout = mi_vout i, scriptSig = [], txSequence = None\<rparr>)"

lemma created_parts:
  "proposal_ins (createMultisigProposal inputs outputs 0) = unsigned_ins inputs"
  "proposal_outs (createMultisigProposal inputs outputs 0) = outputs"
  "length (pr_inputs (createMultisigProposal inputs outputs 0)) = length inputs"
  "i < length inputs \<Longrightarrow> script_at (createMultisigProposal inputs outputs 0) i = mi_redeem (inputs ! i)"
  by (simp_all add: proposal_ins_def proposal_outs_def createMultisigProposal_def script_at_def unsigned_ins_def comp_def map_idI)

lemma proposal_tx_parts:
  assumes "proposal_tx p = proposal_tx q"
  shows "proposal_ins p = proposal_ins q \<and> proposal_outs p = proposal_outs q \<and> pr_version p = pr_version q \<and>
    pr_locktime p = pr_locktime q \<and> pr_inputs p = pr_inputs q"
  using assms by (cases p; cases q) (simp add: proposal_tx_def proposal_ins_def proposal_outs_def)

lemma enough_after_signing:
  assumes "multisig_keys_ok m pks" "m \<le> int (length (filter (\<lambda>pk. pk \<in> kp_public ` set ks) pks))" "script_at p i = redeem m pks"
    "\<And>key. key \<in> set ks \<Longrightarrow> scriptContainsPubkey (redeem m pks) (kp_public key) \<Longrightarrow>
      bytesToHex (kp_public key) \<in> dom (pr_signatures p ! i)"
  shows "enough_sigs p i m pks"
proof -
  have "filter (\<lambda>pk. pk \<in> kp_public ` set ks) pks = filter (\<lambda>pk. pk \<in> kp_public ` set ks)
      (filter (\<lambda>pk. (pr_signatures p ! i) (bytesToHex pk) \<noteq> None) pks)"
    unfolding filter_filter using assms(4) scriptContainsPubkey_redeem [of _ pks m] by (intro filter_cong) auto
  then have "length (filter (\<lambda>pk. pk \<in> kp_public ` set ks) pks) \<le>
      length (filter (\<lambda>pk. (pr_signatures p ! i) (bytesToHex pk) \<noteq> None) pks)" by (metis length_filter_le)
  with assms show ?thesis by (simp add: enough_sigs_def script_at_def)
qed



end
