(* ===== verification/Wallet_Shell.thy ===== *)
theory Wallet_Shell
  imports Wallet_Multisig
begin

text \<open>
  The frame of the wallet page (\<open>app.js\<close>): switching screens, creating and
  restoring a wallet, locking and unlocking, the settings, and loading the page
  itself, with the elements' initial state from \<open>index.html\<close>.
\<close>

section \<open>Screens\<close>

definition SCREENS :: "string list" where
  "SCREENS = [''onboarding'', ''home'', ''send'', ''receive'', ''history'', ''staking'', ''multisig'', ''watch'', ''settings'']"

definition screen_id :: "string \<Rightarrow> string" where
  "screen_id name = ''screen-'' @ name"

text \<open>The tab bar's buttons have no id; they are named after the screen they show.\<close>

definition tab_id :: "string \<Rightarrow> string" where
  "tab_id name = ''tab-'' @ name"

definition hide_screens :: "unit wio" where
  "hide_screens = form SCREENS (\<lambda>n. set_active (screen_id n) False)"

definition refreshThemeButtons :: "unit wio" where
  "refreshThemeButtons =
     bindm (getItem ''fic_theme'') (\<lambda>v. let current = item_or v ''system'' in do_all [
       set_active ''btn-theme-system'' (current = ''system''),
       set_active ''btn-theme-dark'' (current = ''dark''),
       set_active ''btn-theme-light'' (current = ''light'')])"

definition refreshLockCardVisibility :: "unit wio" where
  "refreshLockCardVisibility =
     bindm isPinSet (\<lambda>pinSet. do_all [
       set_display ''lock-not-set'' (if pinSet then ''none'' else ''block''),
       set_display ''lock-is-set'' (if pinSet then ''block'' else ''none'')])"

text \<open>An option's text; assigning a value no option has leaves the list without a choice.\<close>

definition sign_option :: "int \<Rightarrow> string option \<Rightarrow> string \<times> string" where
  "sign_option idx a =
     (js_toString 10 idx,
      or_text (case a of None \<Rightarrow> [] | Some t \<Rightarrow> t) (''(address #'' @ js_toString 10 idx @ '')''))"

definition refreshMsgSignAddressList :: "unit wio" where
  "refreshMsgSignAddressList =
     bindm (getm (\<lambda>s. map (\<lambda>idx. sign_option idx (addresses s idx)) (addressIndices s))) (\<lambda>opts.
     bindm (getm activeIndex) (\<lambda>act. let v = js_toString 10 act in do_all [
       modui (\<lambda>u. u\<lparr>signOptions := opts\<rparr>),
       set_value ''msg-sign-address'' (if v \<in> fst ` set opts then v else [])]))"

definition loadSettings :: "unit wio" where
  "loadSettings = do_all [
     refreshLockCardVisibility,
     set_text ''lock-settings-error'' [],
     set_text ''lock-settings-success'' [],
     refreshThemeButtons,
     refreshMsgSignAddressList]"

text \<open>The wallet shows no fiat value beside the amount; what would load it is empty.\<close>

definition loadSendAmountFiat :: "unit wio" where
  [simp]: "loadSendAmountFiat = ret ()"

text \<open>
  The loaders of most screens are promises nobody awaits; the address book and
  the settings load at once, and an exception there leaves the polling as it was.
\<close>

definition load_screen :: "'e env_scheme \<Rightarrow> string \<Rightarrow> unit wio" where
  "load_screen E name = do_all [
     whenm (name = ''home'') (spawn (loadHome E)),
     whenm (name = ''send'') (do_all [loadAddressBook, loadSendAmountFiat, spawn (loadSendFeeRate E)]),
     whenm (name = ''receive'') (spawn (loadReceive E)),
     whenm (name = ''history'') (spawn (loadHistory E)),
     whenm (name = ''staking'') (spawn (loadStaking E)),
     whenm (name = ''multisig'') (spawn (loadMultisig E)),
     whenm (name = ''watch'') (spawn (loadWatch E)),
     whenm (name = ''settings'') loadSettings]"

definition showScreen :: "'e env_scheme \<Rightarrow> string \<Rightarrow> unit wio" where
  "showScreen E name = do_all [
     hide_screens,
     set_active (screen_id name) True,
     form (tl SCREENS) (\<lambda>t. set_active (tab_id t) (t = name)),
     load_screen E name,
     if name = ''home'' \<or> name = ''history'' then startTxPolling else stopTxPolling]"

definition on_new_tx_click :: "'e env_scheme \<Rightarrow> unit wio" where
  "on_new_tx_click E = thenm (set_display ''new-tx-banner'' ''none'') (showScreen E ''history'')"

section \<open>Onboarding\<close>

definition enterWallet :: "'e env_scheme \<Rightarrow> unit wio" where
  "enterWallet E = do_all [
     deriveAllKnownAddresses E,
     set_active (screen_id ''onboarding'') False,
     set_display ''lock-overlay'' ''none'',
     set_display ''tabbar'' ''flex'',
     showScreen E ''home'']"

definition on_create_wallet :: "'e env_scheme \<Rightarrow> unit wio" where
  "on_create_wallet E = (let phrase = generateMnemonic (e_bip E) in do_all [
     set_text ''new-mnemonic'' phrase,
     set_display ''new-mnemonic-card'' ''block'',
     set_display ''btn-create-wallet'' ''none'',
     set_display ''btn-show-restore'' ''none'',
     modm (\<lambda>s. s\<lparr>pendingMnemonic := Some phrase\<rparr>)])"

definition on_confirm_written :: "bool \<Rightarrow> unit wio" where
  "on_confirm_written checked = set_disabled ''btn-mnemonic-continue'' (\<not> checked)"

text \<open>
  \<open>Math.floor(Math.random() * words.length)\<close>; the page's calls of \<open>Math.random\<close>
  are numbered. The loop draws until it has three positions.
\<close>

definition draw :: "page_lib \<Rightarrow> nat \<Rightarrow> nat \<Rightarrow> nat" where
  "draw L len n =
     (case js_mul (Fin (pg_random L n)) (Fin (of_nat len)) of Fin x \<Rightarrow> nat \<lfloor>x\<rfloor> | _ \<Rightarrow> 0)"

partial_function (option) draw_quiz :: "page_lib \<Rightarrow> nat \<Rightarrow> nat list \<Rightarrow> nat \<Rightarrow> (nat list \<times> nat) option" where
  "draw_quiz L len ixs n =
     (if length ixs < 3
      then let i = draw L len n in draw_quiz L len (if i \<in> set ixs then ixs else ixs @ [i]) (n + 1)
      else Some (ixs, n))"

definition quiz_field_html :: "nat \<Rightarrow> string" where \<open>
  quiz_field_html i =
    ''<label class="field-label">Word #'' @ nat_text (i + 1) @ ''</label>'' @
    ''<input class="quiz-word-input" data-index="'' @ nat_text i @ ''" autocomplete="off" spellcheck="false">''\<close>

text \<open>A draw that never ends would leave the page as it is.\<close>

definition showMnemonicQuiz :: "'e env_scheme \<Rightarrow> string option \<Rightarrow> unit wio" where
  "showMnemonicQuiz E phrase = (case phrase of
     None \<Rightarrow> throwm TypeError
   | Some m \<Rightarrow>
       bindm (getui draws) (\<lambda>n. case draw_quiz (e_page E) (length (js_split (CHR '' '') m)) [] n of
         None \<Rightarrow> ret ()
       | Some (ixs, n') \<Rightarrow> do_all [
           modui (\<lambda>u. u\<lparr>draws := n', quiz := map (\<lambda>i. (i, [])) (sort ixs)\<rparr>),
           set_html ''mnemonic-quiz-fields'' (concat (map quiz_field_html (sort ixs))),
           set_text ''mnemonic-quiz-error'' [],
           set_display ''new-mnemonic-card'' ''none'',
           set_display ''mnemonic-quiz-card'' ''block'']))"

definition on_mnemonic_continue :: "'e env_scheme \<Rightarrow> unit wio" where
  "on_mnemonic_continue E = bindm (getm pendingMnemonic) (showMnemonicQuiz E)"

definition on_quiz_back :: "unit wio" where
  "on_quiz_back = do_all [
     set_display ''mnemonic-quiz-card'' ''none'',
     set_display ''new-mnemonic-card'' ''block'']"

definition quiz_ok :: "string list \<Rightarrow> (nat \<times> string) list \<Rightarrow> bool" where
  "quiz_ok words fs =
     list_all (\<lambda>(i, v). i < length words \<and> js_toLowerCase (js_trim v) = words ! i) fs"

text \<open>Both ways into a wallet store the phrase and start over with the first address.\<close>

definition new_wallet :: "'e env_scheme \<Rightarrow> string \<Rightarrow> unit wio" where
  "new_wallet E phrase = do_all [
     modm (\<lambda>s. s\<lparr>mnemonic := Some phrase\<rparr>),
     setItem E ''fic_mnemonic'' phrase,
     modm (\<lambda>s. s\<lparr>addressIndices := [0]\<rparr>),
     saveAddressIndices E]"

definition on_quiz_verify :: "'e env_scheme \<Rightarrow> unit wio" where
  "on_quiz_verify E =
     bindm (getm pendingMnemonic) (\<lambda>pending. case pending of
       None \<Rightarrow> throwm TypeError
     | Some phrase \<Rightarrow>
         bindm (getui quiz) (\<lambda>fs.
           if \<not> quiz_ok (js_split (CHR '' '') phrase) fs
           then set_text ''mnemonic-quiz-error''
             (''One or more words don'' @ [CHR 0x27] @ ''t match. Check your written-down phrase and try again.'')
           else do_all [
             set_text ''mnemonic-quiz-error'' [],
             new_wallet E phrase,
             set_display ''mnemonic-quiz-card'' ''none'',
             enterWallet E]))"

definition on_show_restore :: "unit wio" where
  "on_show_restore = set_display ''restore-card'' ''block''"

definition on_restore_confirm :: "'e env_scheme \<Rightarrow> unit wio" where
  "on_restore_confirm E =
     bindm (get_value ''restore-mnemonic'') (\<lambda>v. let phrase = js_trim v in
       if \<not> isValidMnemonic (e_bip E) phrase then set_text ''restore-error'' ''Invalid recovery phrase.''
       else do_all [
         set_text ''restore-error'' [],
         new_wallet E phrase,
         enterWallet E])"

section \<open>The lock\<close>

definition boot :: "'e env_scheme \<Rightarrow> unit wio" where
  "boot E =
     bindm isPinSet (\<lambda>pinSet.
       if pinSet then set_display ''lock-overlay'' ''flex''
       else bindm (getItem ''fic_mnemonic'') (\<lambda>v.
         let m = item_or v [] in
         if m = [] then modm (\<lambda>s. s\<lparr>mnemonic := None\<rparr>)
         else thenm (modm (\<lambda>s. s\<lparr>mnemonic := Some m\<rparr>)) (enterWallet E)))"

definition on_unlock :: "'e env_scheme \<Rightarrow> unit wio" where
  "on_unlock E =
     bindm (get_value ''lock-pin'') (\<lambda>pin. do_all [
       set_text ''lock-error'' [],
       catchm
         (bindm (stored_phrase (e_subtle E) pin) (\<lambda>phrase. do_all [
           modm (\<lambda>s. s\<lparr>mnemonic := Some phrase\<rparr>),
           set_value ''lock-pin'' [],
           enterWallet E]))
         (\<lambda>_. set_text ''lock-error'' ''Incorrect PIN.'')])"

definition on_lock_key :: "'e env_scheme \<Rightarrow> string \<Rightarrow> unit wio" where
  "on_lock_key E key = whenm (key = ''Enter'') (on_unlock E)"

definition on_lock_now :: "unit wio" where
  "on_lock_now = do_all [
     modm (\<lambda>s. s\<lparr>mnemonic := None\<rparr>),
     modm (\<lambda>s. s\<lparr>keys := Map.empty\<rparr>),
     modm (\<lambda>s. s\<lparr>addresses := Map.empty\<rparr>),
     set_display ''tabbar'' ''none'',
     hide_screens,
     set_display ''lock-overlay'' ''flex'']"

text \<open>A missing phrase becomes the text \<open>null\<close> where a string is expected.\<close>

definition phrase_text :: "string option \<Rightarrow> string" where
  "phrase_text m = (case m of None \<Rightarrow> ''null'' | Some t \<Rightarrow> t)"

definition on_set_pin :: "'e env_scheme \<Rightarrow> unit wio" where
  "on_set_pin E =
     thenm (set_text ''lock-settings-error'' []) (thenm (set_text ''lock-settings-success'' [])
     (bindm (get_value ''set-pin'') (\<lambda>pin. bindm (get_value ''set-pin-confirm'') (\<lambda>confirmPin.
       if length pin < 4 then set_text ''lock-settings-error'' ''PIN must be at least 4 characters.''
       else if pin \<noteq> confirmPin then set_text ''lock-settings-error'' (''PINs don'' @ [CHR 0x27] @ ''t match.'')
       else do_all [
         bindm (getm mnemonic) (\<lambda>m. setPin E (e_subtle E) (phrase_text m) pin),
         set_value ''set-pin'' [],
         set_value ''set-pin-confirm'' [],
         set_text ''lock-settings-success'' ''PIN set. Your recovery phrase is now encrypted at rest.'',
         refreshLockCardVisibility]))))"

definition on_remove_pin :: "'e env_scheme \<Rightarrow> unit wio" where
  "on_remove_pin E = do_all [
     bindm (getm mnemonic) (\<lambda>m. removePin E (phrase_text m)),
     set_text ''lock-settings-success'' ''PIN removed; recovery phrase is now stored in plain text.'',
     set_text ''lock-settings-error'' [],
     refreshLockCardVisibility]"

section \<open>Settings\<close>

definition applyTheme :: "'e env_scheme \<Rightarrow> string \<Rightarrow> unit wio" where
  "applyTheme E choice = do_all [
     if choice = ''dark'' \<or> choice = ''light''
     then thenm (setItem E ''fic_theme'' choice) (modui (\<lambda>u. u\<lparr>theme := Some choice\<rparr>))
     else thenm (removeItem ''fic_theme'') (modui (\<lambda>u. u\<lparr>theme := None\<rparr>)),
     refreshThemeButtons]"

definition switchNetwork :: "'e env_scheme \<Rightarrow> string \<Rightarrow> unit wio" where
  "switchNetwork E net = do_all [
     modm (\<lambda>s. s\<lparr>network_name := net\<rparr>),
     setItem E ''fic_network'' net,
     refreshGateway,
     modm (\<lambda>s. s\<lparr>keys := Map.empty\<rparr>),
     modm (\<lambda>s. s\<lparr>addresses := Map.empty\<rparr>),
     deriveAllKnownAddresses E,
     showScreen E ''home'']"

text \<open>The options' values are integers; the empty choice reads as zero.\<close>

definition option_index :: "string \<Rightarrow> int result" where
  "option_index v = index_of_value (JNum (js_StringToNumber v))"

definition on_msg_sign :: "'e env_scheme \<Rightarrow> unit wio" where
  "on_msg_sign E =
     thenm (set_text ''msg-sign-error'' []) (thenm (set_display ''msg-sign-result'' ''none'')
     (bindm (get_value ''msg-sign-address'') (\<lambda>v. bindm (get_value ''msg-sign-input'') (\<lambda>message.
       if message = [] then set_text ''msg-sign-error'' ''Enter a message to sign.''
       else catchm
         (bindm (liftr (option_index v)) (\<lambda>idx. bindm (ensureKey E idx) (\<lambda>key.
          bindm (liftr (signMessage (e_sha256 E) (e_msg E) (kp_private key) message)) (\<lambda>signature. do_all [
            set_value ''msg-sign-output'' signature,
            set_display ''msg-sign-result'' ''block'']))))
         (\<lambda>e. set_text ''msg-sign-error'' (or_text (err_message E e) ''Could not sign message.''))))))"

definition on_msg_verify :: "'e env_scheme \<Rightarrow> unit wio" where
  "on_msg_verify E =
     thenm (set_text ''msg-verify-error'' []) (thenm (set_text ''msg-verify-success'' [])
     (bindm (get_value ''msg-verify-address'') (\<lambda>a. bindm (get_value ''msg-verify-message'') (\<lambda>message.
      bindm (get_value ''msg-verify-signature'') (\<lambda>sg.
       let address = js_trim a; signature = js_trim sg in
       if address = [] \<or> signature = []
       then set_text ''msg-verify-error'' ''Enter an address and a signature to verify.''
       else catchm
         (bindm current_network (\<lambda>net.
          bindm (liftr (verifyMessage (e_sha256 E) (e_ripemd160 E) (e_msg E) address signature message net)) (\<lambda>valid.
            if valid then set_text ''msg-verify-success'' ''Valid signature -- this address signed this exact message.''
            else set_text ''msg-verify-error'' ''Invalid signature -- does not match this address/message.'')))
         (\<lambda>e. set_text ''msg-verify-error'' (or_text (err_message E e) ''Could not verify signature.'')))))))"

section \<open>Loading the page\<close>

text \<open>The elements \<open>index.html\<close> hides.\<close>

definition HIDDEN :: "string list" where
  "HIDDEN = [''new-tx-banner'', ''lock-overlay'', ''restore-card'', ''new-mnemonic-card'', ''mnemonic-quiz-card'',
     ''qr-scan-overlay'', ''qr-scan-canvas'', ''tx-detail-overlay'', ''btn-tx-detail-bump-fee'', ''staking-status-card'',
     ''push-card'', ''price-alerts-card'', ''staking-actions-card'', ''referral-card'', ''ms-create-result'', ''ms-qr-overlay'',
     ''my-xpub-output'', ''lock-is-set'', ''msg-sign-result'', ''tabbar'']"

text \<open>Of the initial texts and values, those the code reads back are given.\<close>

definition page_start :: "(string \<rightharpoonup> string) \<Rightarrow> (string \<rightharpoonup> string) \<Rightarrow> request list \<Rightarrow> wallet" where
  "page_start store session sent =
     \<lparr>localStore = store, sessionStore = session,
      textContent = (\<lambda>_. [])(''btn-referral-copy'' := ''Copy'', ''stat-referral-code'' := ''-''),
      innerHTML = \<lambda>_. [],
      inputValue = (\<lambda>_. [])(''ms-m'' := ''2'', ''watch-xpub-count'' := ''5'', ''stake-id-type'' := ''nic'',
        ''price-alert-direction'' := ''above''),
      display = \<lambda>i. if i \<in> set HIDDEN then ''none'' else [],
      disabled = \<lambda>i. i = ''btn-mnemonic-continue'',
      active = \<lambda>i. i = screen_id ''onboarding'',
      requests = sent, opened = [], clipboard = None,
      network_name = item_or (store ''fic_network'') ''mainnet'',
      mnemonic = None, pendingMnemonic = None, addressIndices = [], activeIndex = 0,
      keys = Map.empty, addresses = Map.empty, gatewayUrls = GATEWAY_URLS store, gateway = [],
      stakeToken = (if item_or (session ''fic_stake_token'') [] = [] then JNull
        else JStr (item_or (session ''fic_stake_token'') [])),
      sendFeeMinRate = None, sendFeeRateOverride = None, rows = [], recipientIdCounter = 0, activeRecipientId = None,
      seenTxids = None, lastHistory = None, txPollHandle = None, timers = [], nextTimer = 1,
      ui = blank_screens\<lparr>theme := (case store ''fic_theme'' of
        Some t \<Rightarrow> if t = ''dark'' \<or> t = ''light'' then Some t else None | None \<Rightarrow> None)\<rparr>\<rparr>"

text \<open>What the module runs when it is loaded.\<close>

definition start_page :: "'e env_scheme \<Rightarrow> unit wio" where
  "start_page E = do_all [refreshGateway, spawn (boot E), addRecipientRow]"

definition reload :: "'e env_scheme \<Rightarrow> unit wio" where
  "reload E = (\<lambda>s. start_page E (page_start (localStore s) (sessionStore s) (requests s)))"

definition on_wipe_wallet :: "'e env_scheme \<Rightarrow> bool \<Rightarrow> unit wio" where
  "on_wipe_wallet E confirmed = whenm confirmed (do_all [
     removeItem ''fic_mnemonic'',
     removeItem ''fic_mnemonic_encrypted'',
     removeItem ''fic_address_indices_mainnet'',
     removeItem ''fic_address_indices_testnet'',
     removeItem ''fic_address_book'',
     session_removeItem ''fic_stake_token'',
     reload E])"

section \<open>The quiz\<close>

text \<open>
  What \<open>Math.random\<close> documents: a double from zero to below one. That every position comes up
  again and again is what its approximately uniform distribution gives.
\<close>

definition random_ok :: "page_lib \<Rightarrow> bool" where
  "random_ok L = (\<forall>n. 0 \<le> pg_random L n \<and> pg_random L n \<le> 1 - pow2 (- 53))"

definition recurrent :: "page_lib \<Rightarrow> nat \<Rightarrow> bool" where
  "recurrent L len = (\<forall>i < len. \<forall>n. \<exists>k \<ge> n. draw L len k = i)"

lemma round_double_tiny:
  assumes "0 \<le> x" "x < pow2 (- 1022)"
  shows "\<exists>y. round_double x = Fin y \<and> y < 1"
proof (cases "x = 0")
  case False
  with assms have x: "0 < x" by simp
  have "pow2 (ilog2 x) < pow2 (- 1022)" using ilog2_bounds(1) [OF x] assms(2) by simp
  then have "ilog2 x < - 1022" by (simp add: pow2_less_iff)
  then have u: "max (ilog2 \<bar>x\<bar> - 52) (- 1074) = - 1074" using x by simp
  let ?r = "of_int (round_half_even (x / pow2 (- 1074))) * pow2 (- 1074)"
  have "of_int (round_half_even (x / pow2 (- 1074))) \<le> x / pow2 (- 1074) + 1 / 2"
    using round_half_even_error [of "x / pow2 (- 1074)"] by linarith
  then have "?r \<le> (x / pow2 (- 1074) + 1 / 2) * pow2 (- 1074)" by (intro mult_right_mono) simp_all
  also have "\<dots> = x + pow2 (- 1074) / 2" by (simp add: distrib_right)
  also have "\<dots> < 1" using assms(2) pow2_mono [of "- 1022" "- 1"] pow2_mono [of "- 1074" "- 1"] by (simp add: pow2_def)
  finally have r: "?r < 1" .
  then have "\<not> pow2 1024 \<le> ?r" using pow2_mono [of 0 1024] by (simp add: pow2_def)
  with x u r show ?thesis by (simp add: round_double_def Let_def)
qed (simp add: round_double_def)

lemma draw_bound:
  assumes "random_ok L" "0 < len" "len \<le> 2 ^ 53"
  shows "draw L len n < len"
proof -
  let ?x = "pg_random L n * of_nat len"
  have r: "0 \<le> pg_random L n" "pg_random L n \<le> 1 - pow2 (- 53)" using assms(1) by (simp_all add: random_ok_def)
  have x: "0 \<le> ?x" "?x \<le> (1 - pow2 (- 53)) * of_nat len" using r by (auto intro: mult_right_mono)
  have "\<exists>y. round_double ?x = Fin y \<and> y < of_nat len"
  proof (cases "?x < pow2 (- 1022)")
    case True
    then obtain y where "round_double ?x = Fin y" "y < 1" using round_double_tiny x(1) by blast
    moreover have "(1 :: rat) \<le> of_nat len" using assms(2) by simp
    ultimately show ?thesis by (intro exI [of _ y]) linarith
  next
    case False
    have len: "(of_nat len :: rat) \<le> 2 ^ 53" using assms(3) by (metis of_nat_le_iff of_nat_numeral of_nat_power)
    have "0 \<le> pow2 (- 53) * of_nat len" by simp
    then have "?x \<le> of_nat len" using x(2) unfolding left_diff_distrib by linarith
    then have "?x < pow2 1000" using len pow2_mono [of 54 1000] by (simp add: pow2_def)
    then obtain y where y: "round_double ?x = Fin y" "\<bar>y - ?x\<bar> \<le> ?x * pow2 (- 53)"
      using round_double_error [of ?x] False by (metis not_less)
    then have "y \<le> ?x * (1 + pow2 (- 53))" by (simp add: abs_le_iff distrib_left)
    also have "\<dots> \<le> (1 - pow2 (- 53)) * of_nat len * (1 + pow2 (- 53))" by (intro mult_right_mono x(2)) simp
    also have "\<dots> = of_nat len * (1 - pow2 (- 53) * pow2 (- 53))" by (simp add: algebra_simps)
    also have "\<dots> < of_nat len" using assms(2) by simp
    finally show ?thesis using y(1) by blast
  qed
  then obtain y where y: "round_double ?x = Fin y" "y < of_nat len" by blast
  then have "\<lfloor>y\<rfloor> < int len" by (simp add: floor_less_iff)
  with y(1) assms(2) show ?thesis by (simp add: draw_def)
qed

lemma draw_next:
  assumes "length ixs < 3" "n \<le> k" "draw L len k \<notin> set ixs"
  shows "\<exists>k'. draw L len k' \<notin> set ixs \<and> draw_quiz L len ixs n = draw_quiz L len (ixs @ [draw L len k']) (k' + 1)"
  using assms
proof (induction "k - n" arbitrary: n)
  case 0
  then show ?case by (intro exI [of _ k]) (simp add: draw_quiz.simps [of L len ixs n])
next
  case (Suc d)
  show ?case
  proof (cases "draw L len n \<in> set ixs")
    case True
    then have "draw_quiz L len ixs n = draw_quiz L len ixs (n + 1)"
      using Suc.prems by (subst draw_quiz.simps) simp
    moreover have "d = k - (n + 1)" "n + 1 \<le> k" using Suc.hyps(2) by arith+
    ultimately show ?thesis using Suc.hyps(1) [of "n + 1"] Suc.prems by simp
  next
    case False
    then show ?thesis using Suc.prems by (intro exI [of _ n]) (simp add: draw_quiz.simps [of L len ixs n])
  qed
qed

lemma draw_quiz_total:
  assumes "random_ok L" "recurrent L len" "3 \<le> len" "len \<le> 2 ^ 53" "distinct ixs" "set ixs \<subseteq> {..<len}" "length ixs \<le> 3"
  shows "\<exists>res n'. draw_quiz L len ixs n = Some (res, n') \<and> length res = 3 \<and> distinct res \<and> set res \<subseteq> {..<len}"
  using assms(5-7)
proof (induction "3 - length ixs" arbitrary: ixs n)
  case 0
  then show ?case by (intro exI [of _ ixs] exI [of _ n]) (simp add: draw_quiz.simps [of L len ixs n])
next
  case (Suc d)
  have "card (set ixs) < card {..<len}" using Suc.prems Suc.hyps(2) assms(3) distinct_card [of ixs] by simp
  then obtain i where "i < len" "i \<notin> set ixs" using Suc.prems(2)
    by (metis card_mono finite_set leD lessThan_iff subsetI)
  then obtain k where "n \<le> k" "draw L len k \<notin> set ixs" using assms(2) by (metis recurrent_def)
  moreover have "length ixs < 3" using Suc.hyps(2) by arith
  ultimately obtain k' where k': "draw L len k' \<notin> set ixs" "draw_quiz L len ixs n = draw_quiz L len (ixs @ [draw L len k']) (k' + 1)"
    using draw_next [of ixs n k L len] by blast
  have "draw L len k' < len" using draw_bound [OF assms(1)] assms(3,4) by simp
  with k' Suc.hyps(1) [of "ixs @ [draw L len k']" "k' + 1"] Suc.hyps(2) Suc.prems show ?case by simp
qed

lemma length3_cases: "length xs = 3 \<Longrightarrow> \<exists>a b c. xs = [a, b, c]"
  by (cases xs; cases "tl xs"; cases "tl (tl xs)") auto

text \<open>
  C37: Asking for words of the new phrase ends, given a random source that keeps reaching every
  position: the quiz asks for three different words of the phrase, in their order, its fields are
  empty, and typing the words it asks for passes.
\<close>

theorem showMnemonicQuiz_asks:
  assumes "random_ok (e_page E)" "recurrent (e_page E) (length (js_split (CHR '' '') m))"
    "3 \<le> length (js_split (CHR '' '') m)" "length (js_split (CHR '' '') m) \<le> 2 ^ 53"
  shows "\<exists>i j k t. showMnemonicQuiz E (Some m) s = (Inr (), t) \<and> quiz (ui t) = [(i, []), (j, []), (k, [])] \<and>
    i < j \<and> j < k \<and> k < length (js_split (CHR '' '') m) \<and>
    (\<forall>u v w. quiz_ok (js_split (CHR '' '') m) [(i, u), (j, v), (k, w)] \<longleftrightarrow>
      [js_toLowerCase (js_trim u), js_toLowerCase (js_trim v), js_toLowerCase (js_trim w)] =
      map ((!) (js_split (CHR '' '') m)) [i, j, k])"
proof -
  let ?len = "length (js_split (CHR '' '') m)"
  obtain ixs n' where d: "draw_quiz (e_page E) ?len [] (draws (ui s)) = Some (ixs, n')"
      "length ixs = 3" "distinct ixs" "set ixs \<subseteq> {..<?len}"
    using draw_quiz_total [OF assms, of "[]" "draws (ui s)"] by (metis distinct.simps(1) empty_set empty_subsetI le0 list.size(3))
  obtain i j k where ijk: "sort ixs = [i, j, k]"
    using d(2) by (metis length_sort length3_cases)
  have "sorted [i, j, k]" "distinct [i, j, k]" "set [i, j, k] \<subseteq> {..<?len}"
    using d(3,4) by (simp_all flip: ijk)
  then have lt: "i < j" "j < k" "k < ?len" by auto
  define t where "t = snd (showMnemonicQuiz E (Some m) s)"
  have "showMnemonicQuiz E (Some m) s = (Inr (), t) \<and> quiz (ui t) = [(i, []), (j, []), (k, [])]"
    by (simp add: t_def showMnemonicQuiz_def bindm_def thenm_def getui_def getm_def modui_def modm_def dom_defs ret_def d(1) ijk)
  with lt show ?thesis by (intro exI [of _ i] exI [of _ j] exI [of _ k] exI [of _ t]) (auto simp: quiz_ok_def)
qed

definition quarter_page :: page_lib where
  "quarter_page = sample_page\<lparr>pg_random := \<lambda>n. of_nat (n mod 4) / 4\<rparr>"

lemma quarter_draws: "draw quarter_page 4 n = n mod 4"
  using round_double_int [of "int (n mod 4)"] by (simp add: draw_def quarter_page_def)

lemma quarter_recurrent: "recurrent quarter_page 4"
  unfolding recurrent_def
proof (intro allI impI)
  fix i n :: nat
  assume "i < 4"
  then show "\<exists>k \<ge> n. draw quarter_page 4 k = i" by (intro exI [of _ "4 * n + i"]) (simp add: quarter_draws)
qed

lemma quarter_random: "random_ok quarter_page"
proof -
  have "(of_nat (n mod 4) :: rat) / 4 \<le> 1 - pow2 (- 53)" for n
  proof -
    have "n mod 4 \<le> 3" using mod_less_divisor [of 4 n] by linarith
    then have "(of_nat (n mod 4) :: rat) \<le> of_nat 3" by (rule of_nat_mono)
    moreover have "pow2 (- 53) \<le> 1 / 4" by (simp add: pow2_def)
    ultimately show ?thesis by simp
  qed
  then show ?thesis by (simp add: random_ok_def quarter_page_def)
qed

theorem showMnemonicQuiz_asks_witness:
  "\<exists>i j k t. showMnemonicQuiz (sample_env\<lparr>e_page := quarter_page\<rparr>) (Some ''able baby cake dish'') sample_wallet = (Inr (), t) \<and>
    quiz (ui t) = [(i, []), (j, []), (k, [])] \<and> i < j \<and> j < k \<and> k < 4"
proof -
  have n: "length (js_split (CHR '' '') ''able baby cake dish'') = 4" by code_simp
  show ?thesis
    using showMnemonicQuiz_asks [of "sample_env\<lparr>e_page := quarter_page\<rparr>" "''able baby cake dish''" sample_wallet]
      quarter_random quarter_recurrent unfolding n by auto
qed

end
