(* ===== verification/Wallet_Frame.thy ===== *)
theory Wallet_Frame
  imports Wallet_Shell
begin

text \<open>
  What the handlers of the single screens leave alone. The core of the page is its
  phrase, network, addresses, timers, visible screen, tab bar, banner and the stored
  items they come from; a property of the core that key lookups keep is kept by every
  handler except those that switch screens, poll, lock, unlock, or change the phrase,
  the PIN, the network or the addresses.
\<close>

section \<open>The core of the page\<close>

text \<open>
  The items the screens keep for themselves; whether the address book counts among
  them is left to the property.
\<close>

definition screen_items :: "string list" where
  "screen_items = [''fic_watch_list'', ''fic_sent_tx_log'', ''fic_theme'']"

record core =
  c_items :: "string \<rightharpoonup> string"
  c_network :: string
  c_phrase :: "string option"
  c_pending :: "string option"
  c_indices :: "int list"
  c_keys :: "int \<rightharpoonup> key_pair"
  c_addresses :: "int \<rightharpoonup> string"
  c_lock :: string
  c_tabs :: string
  c_banner :: string
  c_screens :: "string \<Rightarrow> bool"
  c_handle :: "nat option"
  c_timers :: "nat list"
  c_next :: nat

definition core_of :: "string set \<Rightarrow> wallet \<Rightarrow> core" where
  "core_of I s = \<lparr>c_items = localStore s |` (- I), c_network = network_name s,
     c_phrase = mnemonic s, c_pending = pendingMnemonic s, c_indices = addressIndices s, c_keys = keys s,
     c_addresses = addresses s, c_lock = display s ''lock-overlay'', c_tabs = display s ''tabbar'',
     c_banner = display s ''new-tx-banner'', c_screens = (\<lambda>n. active s (screen_id n)),
     c_handle = txPollHandle s, c_timers = timers s, c_next = nextTimer s\<rparr>"

lemma core_of_simps [simp]:
  "core_of I (s\<lparr>sessionStore := a\<rparr>) = core_of I s"
  "core_of I (s\<lparr>textContent := b\<rparr>) = core_of I s"
  "core_of I (s\<lparr>innerHTML := c\<rparr>) = core_of I s"
  "core_of I (s\<lparr>inputValue := d\<rparr>) = core_of I s"
  "core_of I (s\<lparr>disabled := e\<rparr>) = core_of I s"
  "core_of I (s\<lparr>requests := f\<rparr>) = core_of I s"
  "core_of I (s\<lparr>opened := g\<rparr>) = core_of I s"
  "core_of I (s\<lparr>clipboard := h\<rparr>) = core_of I s"
  "core_of I (s\<lparr>activeIndex := i\<rparr>) = core_of I s"
  "core_of I (s\<lparr>gateway := j\<rparr>) = core_of I s"
  "core_of I (s\<lparr>stakeToken := l\<rparr>) = core_of I s"
  "core_of I (s\<lparr>sendFeeMinRate := n\<rparr>) = core_of I s"
  "core_of I (s\<lparr>sendFeeRateOverride := p\<rparr>) = core_of I s"
  "core_of I (s\<lparr>rows := q\<rparr>) = core_of I s"
  "core_of I (s\<lparr>recipientIdCounter := r\<rparr>) = core_of I s"
  "core_of I (s\<lparr>activeRecipientId := t\<rparr>) = core_of I s"
  "core_of I (s\<lparr>seenTxids := u\<rparr>) = core_of I s"
  "core_of I (s\<lparr>lastHistory := v\<rparr>) = core_of I s"
  "core_of I (s\<lparr>ui := w\<rparr>) = core_of I s"
  by (simp_all add: core_of_def)

lemma core_of_display [simp]:
  "i \<notin> {''lock-overlay'', ''tabbar'', ''new-tx-banner''} \<Longrightarrow> core_of I (s\<lparr>display := (display s)(i := v)\<rparr>) = core_of I s"
  by (auto simp: core_of_def)

lemma core_of_active [simp]:
  "(\<And>n. i \<noteq> screen_id n) \<Longrightarrow> core_of I (s\<lparr>active := (active s)(i := v)\<rparr>) = core_of I s"
  by (auto simp: core_of_def fun_eq_iff)

lemma core_of_store [simp]:
  "k \<in> I \<Longrightarrow> core_of I (s\<lparr>localStore := (localStore s)(k := v)\<rparr>) = core_of I s"
  by (simp add: core_of_def fun_eq_iff restrict_map_def)

lemma not_screen_id [simp]: "take 7 i \<noteq> ''screen-'' \<Longrightarrow> i \<noteq> screen_id n"
  by (auto simp: screen_id_def)

section \<open>Handlers that keep it\<close>

locale page_frame =
  fixes E :: "'e env_scheme" and P :: "wallet \<Rightarrow> bool" and I :: "string set"
  assumes own_items: "set screen_items \<subseteq> I"
    and of_core: "P s \<Longrightarrow> core_of I t = core_of I s \<Longrightarrow> P t"
    and of_key: "pres P (ensureKey E idx)"
begin

lemma frame_modm [pres_intros]: "(\<And>s. core_of I (f s) = core_of I s) \<Longrightarrow> pres P (modm f)"
  by (rule pres_modm) (rule of_core)

lemma frame_modui [pres_intros]: "pres P (modui f)"
  by (simp add: modui_def frame_modm)

lemma frame_key [pres_intros]: "pres P (ensureKey E idx)"
  by (rule of_key)

lemma frame_dom [pres_intros]:
  "pres P (set_text i v)" "pres P (set_html i v)" "pres P (set_value i v)" "pres P (set_disabled i b)" "pres P (window_open v)"
  by (simp_all add: dom_defs frame_modm)

lemma frame_display [pres_intros]: "i \<notin> {''lock-overlay'', ''tabbar'', ''new-tx-banner''} \<Longrightarrow> pres P (set_display i v)"
  by (simp add: dom_defs frame_modm)

lemma frame_active [pres_intros]: "take 7 i \<noteq> ''screen-'' \<Longrightarrow> pres P (set_active i b)"
  by (simp add: dom_defs frame_modm)

lemma frame_request [simp]: "request_free P m"
  by (simp add: request_free_def) (metis core_of_simps(6) of_core)

lemma frame_store [pres_intros]:
  "k \<in> I \<Longrightarrow> pres P (setItem F k v)" "k \<in> I \<Longrightarrow> pres P (removeItem k)"
  using of_core core_of_store by (auto intro!: pres_setItem pres_removeItem)

lemma frame_items [simp]: "''fic_watch_list'' \<in> I" "''fic_sent_tx_log'' \<in> I" "''fic_theme'' \<in> I"
  using own_items by (simp_all add: screen_items_def)

lemma frame_session [pres_intros]: "pres P (session_setItem F k v)" "pres P (session_removeItem k)"
  using of_core core_of_simps(1) by (auto intro!: pres_session)

text \<open>Sending\<close>

lemma frame_fee [pres_intros]: "pres P updateSendFeeEstimate" "pres P updateSendAmountFiat" "pres P (setSendFeeRate r)"
  "pres P on_fee_decrease" "pres P on_fee_increase" "pres P on_fee_reset" "pres P on_fee_change" "pres P (loadSendFeeRate E)"
  by (simp_all add: updateSendFeeEstimate_def updateSendAmountFiat_def setSendFeeRate_def on_fee_decrease_def on_fee_increase_def
      on_fee_reset_def on_fee_change_def loadSendFeeRate_def fetch_min_rate_def effectiveSendFeeRate_def min_rate_or_zero_def
      gateway_defs pres_intros Let_def split: option.split jsnum.split)

lemma frame_rows [pres_intros]: "pres P (update_row i f)" "pres P updateRecipientRemoveButtons" "pres P (on_row_focus i)"
  "pres P (on_address_change i)" "pres P (on_row_scanned i t)" "pres P (on_row_remove i)" "pres P addRecipientRow"
  "pres P resetSendRecipients"
  by (simp_all add: update_row_def updateRecipientRemoveButtons_def on_row_focus_def on_address_change_def on_row_scanned_def
      on_row_remove_def addRecipientRow_def resetSendRecipients_def pres_intros)

lemma frame_send [pres_intros]: "pres P (on_send_confirm E)"
  by (simp add: on_send_confirm_def send_body_def send_chosen_def sign_and_broadcast_def recordSentTx_def loadSentTxLog_def
      saveSentTxLog_def gateway_defs pres_intros  Let_def)

lemma frame_bump [pres_intros]: "pres P (bumpFee E txid)"
  by (simp add: bumpFee_def recordSentTx_def loadSentTxLog_def saveSentTxLog_def fetch_min_rate_def gateway_defs pres_intros
      )

text \<open>QR codes, address book and watch list\<close>

lemma frame_qr [pres_intros]: "pres P (renderQr E c t)" "pres P (openQrScanner tg)" "pres P closeQrScan" "pres P (on_scan_frame code)"
  "pres P on_camera_granted" "pres P on_camera_refused"
  by (simp_all add: renderQr_def openQrScanner_def closeQrScan_def on_scan_frame_def scan_result_def on_camera_granted_def
      on_camera_refused_def pres_intros Let_def split: option.split prod.split scan_target.split)

lemma frame_book [pres_intros]: "pres P loadAddressBook" "pres P (on_book_use i)"
  by (simp_all add: loadAddressBook_def renderAddressBook_def loadAddressBookEntries_def on_book_use_def pres_intros Let_def)

lemma frame_book_change:
  assumes "''fic_address_book'' \<in> I"
  shows "pres P (on_book_remove E i)" "pres P (on_book_add E)"
  using assms
  by (simp_all add: renderAddressBook_def loadAddressBookEntries_def saveAddressBookEntries_def save_list_def
      on_book_remove_def on_book_add_def pres_intros Let_def)

lemma frame_watch [pres_intros]: "pres P (loadWatch E)" "pres P (on_watch_remove E i)" "pres P (on_watch_explorer i)"
  "pres P (on_watch_add E)" "pres P (on_watch_xpub_add E)" "pres P (on_show_xpub E)"
  by (simp_all add: loadWatch_def watch_balance_def loadWatchList_def saveWatchList_def save_list_def on_watch_remove_def
      on_watch_explorer_def on_watch_add_def on_watch_xpub_add_def watch_xpub_def on_show_xpub_def gateway_defs 
      pres_intros Let_def)

text \<open>Home, receive and history\<close>

lemma frame_home [pres_intros]: "pres P (loadHome E)" "pres P (refreshReceiveQr E)" "pres P (loadReceive E)"
  "pres P (on_address_select E i)" "pres P (on_copy_address E)" "pres P on_view_on_explorer" "pres P (write_clipboard E t)"
  by (simp_all add: loadHome_def active_text_def total_balance_def refreshReceiveQr_def loadReceive_def renderAddressList_def
      on_address_select_def on_copy_address_def on_view_on_explorer_def write_clipboard_def gateway_defs pres_intros)

lemma frame_history [pres_intros]: "pres P (fetchCombinedHistory E)" "pres P (mark_seen txs)" "pres P (loadHistory E)"
  "pres P (on_export_csv E)"
  by (simp_all add: fetchCombinedHistory_def address_history_def loadHistory_def mark_seen_def
      on_export_csv_def gateway_defs pres_intros Let_def)

text \<open>The banner is part of the core; what only changes it keeps what does not read it.\<close>

lemma frame_poll:
  assumes "\<And>s v. P s \<Longrightarrow> P (s\<lparr>display := (display s)(''new-tx-banner'' := v)\<rparr>)"
  shows "pres P (checkForNewTx E)" "pres P on_new_tx_dismiss"
  using assms
  by (simp_all add: checkForNewTx_def showNewTxBanner_def on_new_tx_dismiss_def set_display_def pres_modm pres_intros Let_def)

lemma frame_detail [pres_intros]: "pres P (openTxDetail E txid)" "pres P (on_bump_click E)" "pres P on_tx_explorer"
  "pres P on_tx_detail_close"
  by (simp_all add: openTxDetail_def on_bump_click_def on_tx_explorer_def on_tx_detail_close_def can_bump_def loadSentTxLog_def
      gateway_defs pres_intros Let_def)

text \<open>Staking\<close>

lemma frame_alerts [pres_intros]: "pres P (loadPriceAlerts E)" "pres P (on_alert_delete E i)" "pres P (on_price_alert_add E)"
  by (simp_all add: loadPriceAlerts_def load_price_def on_alert_delete_def on_price_alert_add_def gateway_defs pres_intros pres_fetch Let_def)

lemma frame_staking_front [pres_intros]: "pres P (staking_front E)" "pres P (load_referral E)" "pres P (load_referral_history E)"
  by (simp_all add: staking_front_def show_staking_cards_def load_status_def show_status_def load_referral_def
      load_referral_history_def stakingLoggedIn_def gateway_defs pres_intros Let_def)

lemma frame_staking_run: "staking_run E s = Some t \<Longrightarrow> P s \<Longrightarrow> P t"
proof -
  assume run: "staking_run E s = Some t" and s: "P s"
  have k: "P (snd (thenm (load_referral E) (load_referral_history E) u))" if "P u" for u
    using that frame_staking_front(2,3) by (metis pres_def pres_thenm)
  have front: "P u" if "staking_front E v = (r, u)" "P v" for r u v
    using that frame_staking_front(1) unfolding pres_def by (metis snd_conv)
  obtain r u where r: "staking_front E s = (r, u)" by fastforce
  show "P t"
  proof (cases "r = Inr Again")
    case True
    then have "\<not> js_truthy (stakeToken u)" using staking_front_again [of E s] r by (simp add: wp_Inr)
    then obtain v where v: "staking_front E u = (Inr Stop, v)" using staking_front_signed_out by blast
    then have "t = v" using run r True by (subst (asm) staking_run.simps) (simp add: staking_run.simps [of E u])
    then show ?thesis using front [OF v] front [OF r s] by simp
  next
    case False
    then show ?thesis using run r front [OF r s] k [of u]
      by (subst (asm) staking_run.simps) (auto split: sum.splits staking_next.splits)
  qed
qed

lemma frame_loadStaking [pres_intros]: "pres P (loadStaking E)"
  unfolding loadStaking_def by (rule pres_modm) (simp add: frame_staking_run split: option.split)

lemma frame_account [pres_intros]: "pres P (on_referral_copy E)" "pres P on_copy_timer" "pres P (stakeAuth E a)"
  "pres P (on_stake_deposit E)" "pres P (on_stake_withdraw E)" "pres P (on_referral_withdraw E)" "pres P (on_enable_push E)"
  by (simp_all add: on_referral_copy_def on_copy_timer_def stakeAuth_def kyc_fields_def on_stake_deposit_def on_stake_withdraw_def
      on_referral_withdraw_def on_enable_push_def push_subscription_def gateway_defs pres_intros Let_def split: list.split)

text \<open>Multisig\<close>

lemma frame_multisig [pres_intros]: "pres P (loadMultisig E)" "pres P (on_ms_create E)" "pres P (on_ms_propose E)"
  "pres P (on_ms_sign E)" "pres P (on_ms_broadcast E)" "pres P (on_ms_show_qr E)" "pres P on_ms_qr_close" "pres P on_ms_scan_qr"
  by (simp_all add: loadMultisig_def on_ms_create_def ms_create_def on_ms_propose_def ms_propose_def fetch_min_rate_def on_ms_sign_def
      on_ms_broadcast_def on_ms_show_qr_def on_ms_qr_close_def on_ms_scan_qr_def gateway_defs pres_intros Let_def)

text \<open>Onboarding and settings, as far as they keep the core\<close>

lemma frame_settings [pres_intros]: "pres P refreshThemeButtons" "pres P refreshLockCardVisibility" "pres P loadSettings"
  "pres P (applyTheme E t)" "pres P (on_msg_sign E)" "pres P (on_msg_verify E)"
  by (simp_all add: refreshThemeButtons_def refreshLockCardVisibility_def isPinSet_def loadSettings_def refreshMsgSignAddressList_def
      applyTheme_def on_msg_sign_def on_msg_verify_def  pres_intros Let_def)

lemma frame_onboarding [pres_intros]: "pres P (on_confirm_written b)" "pres P (showMnemonicQuiz E m)" "pres P (on_mnemonic_continue E)"
  "pres P on_quiz_back" "pres P on_show_restore"
  by (simp_all add: on_confirm_written_def showMnemonicQuiz_def on_mnemonic_continue_def on_quiz_back_def on_show_restore_def
      pres_intros split: option.split)

lemma frame_load_screen [pres_intros]: "pres P (load_screen E name)"
  by (simp add: load_screen_def pres_intros)

lemma frame_refreshGateway [pres_intros]: "pres P refreshGateway"
  by (simp add: refreshGateway_def pres_intros)

end

end
