(* ===== verification/Wallet_Events.thy ===== *)
theory Wallet_Events
  imports Wallet_Frame
begin

text \<open>
  The wallet page as a state machine: the events the page listens to, where on the
  page each can happen, and the runs they make from a first visit on.
\<close>

section \<open>Events\<close>

datatype page_event =
    Type string string | Tab string | NewTxDismiss | NewTxClick | Poll | Unlock | LockKey string
  | ScanFrame "string option" | CameraGranted | CameraRefused | ScanCancel | CopyTimer | Reload

datatype onboarding_event =
    CreateWallet | ConfirmWritten bool | MnemonicContinue | TypeQuiz nat string | QuizBack | QuizVerify
  | ShowRestore | RestoreConfirm

datatype send_event =
    AddRecipient | TypeAddress nat string | TypeAmount nat string | RowFocus nat | RowChange nat | RowScan nat
  | RowRemove nat | FeeDecrease | FeeIncrease | FeeReset | FeeChange | SendConfirm | BookUse nat | BookRemove nat
  | BookAdd

datatype receive_event =
    RequestAmount | ViewOnExplorer | AddressSelect int | NewAddress | CopyAddress

datatype history_event =
    ExportCsv | OpenTx string | BumpClick | TxExplorer | TxClose

datatype staking_event =
    StakeAuth bool | StakeDeposit | StakeWithdraw | ReferralWithdraw | ReferralCopy | EnablePush
  | AlertDelete string | AlertAdd

datatype multisig_event =
    MsCreate | MsPropose | MsSign | MsBroadcast | MsShowQr | MsQrClose | MsScanQr

datatype watch_event =
    WatchRemove nat | WatchExplorer nat | WatchAdd | ShowXpub | WatchXpubAdd

datatype settings_event =
    MsgSign | MsgVerify | Theme string | SwitchNetwork bool | SetPin | RemovePin | LockNow | Wipe bool

datatype event =
    Page page_event | Onboarding onboarding_event | Send send_event | Receive receive_event | History history_event
  | Staking staking_event | Multisig multisig_event | Watch watch_event | Settings settings_event

text \<open>Typing into a field of the page, a row of the send form, or the quiz.\<close>

definition type_quiz :: "nat \<Rightarrow> string \<Rightarrow> unit wio" where
  "type_quiz i v = modui (\<lambda>u. u\<lparr>quiz := map (\<lambda>(j, w). (j, if j = i then v else w)) (quiz u)\<rparr>)"

definition on_amount_input :: "nat \<Rightarrow> string \<Rightarrow> unit wio" where
  "on_amount_input i v = thenm (update_row i (\<lambda>r. r\<lparr>row_amount := v\<rparr>)) updateSendAmountFiat"

primrec handle_page :: "'e env_scheme \<Rightarrow> page_event \<Rightarrow> unit wio" where
  "handle_page E (Type i v) = set_value i v"
| "handle_page E (Tab name) = showScreen E name"
| "handle_page E NewTxDismiss = on_new_tx_dismiss"
| "handle_page E NewTxClick = on_new_tx_click E"
| "handle_page E Poll = checkForNewTx E"
| "handle_page E Unlock = on_unlock E"
| "handle_page E (LockKey k) = on_lock_key E k"
| "handle_page E (ScanFrame c) = on_scan_frame c"
| "handle_page E CameraGranted = on_camera_granted"
| "handle_page E CameraRefused = on_camera_refused"
| "handle_page E ScanCancel = closeQrScan"
| "handle_page E CopyTimer = on_copy_timer"
| "handle_page E Reload = reload E"

primrec handle_onboarding :: "'e env_scheme \<Rightarrow> onboarding_event \<Rightarrow> unit wio" where
  "handle_onboarding E CreateWallet = on_create_wallet E"
| "handle_onboarding E (ConfirmWritten b) = on_confirm_written b"
| "handle_onboarding E MnemonicContinue = on_mnemonic_continue E"
| "handle_onboarding E (TypeQuiz i v) = type_quiz i v"
| "handle_onboarding E QuizBack = on_quiz_back"
| "handle_onboarding E QuizVerify = on_quiz_verify E"
| "handle_onboarding E ShowRestore = on_show_restore"
| "handle_onboarding E RestoreConfirm = on_restore_confirm E"

primrec handle_send :: "'e env_scheme \<Rightarrow> send_event \<Rightarrow> unit wio" where
  "handle_send E AddRecipient = addRecipientRow"
| "handle_send E (TypeAddress i v) = update_row i (\<lambda>r. r\<lparr>row_address := v\<rparr>)"
| "handle_send E (TypeAmount i v) = on_amount_input i v"
| "handle_send E (RowFocus i) = on_row_focus i"
| "handle_send E (RowChange i) = on_address_change i"
| "handle_send E (RowScan i) = openQrScanner (ScanRow i)"
| "handle_send E (RowRemove i) = on_row_remove i"
| "handle_send E FeeDecrease = on_fee_decrease"
| "handle_send E FeeIncrease = on_fee_increase"
| "handle_send E FeeReset = on_fee_reset"
| "handle_send E FeeChange = on_fee_change"
| "handle_send E SendConfirm = on_send_confirm E"
| "handle_send E (BookUse i) = on_book_use i"
| "handle_send E (BookRemove i) = on_book_remove E i"
| "handle_send E BookAdd = on_book_add E"

primrec handle_receive :: "'e env_scheme \<Rightarrow> receive_event \<Rightarrow> unit wio" where
  "handle_receive E RequestAmount = refreshReceiveQr E"
| "handle_receive E ViewOnExplorer = on_view_on_explorer"
| "handle_receive E (AddressSelect i) = on_address_select E i"
| "handle_receive E NewAddress = on_new_address E"
| "handle_receive E CopyAddress = on_copy_address E"

primrec handle_history :: "'e env_scheme \<Rightarrow> history_event \<Rightarrow> unit wio" where
  "handle_history E ExportCsv = on_export_csv E"
| "handle_history E (OpenTx i) = openTxDetail E i"
| "handle_history E BumpClick = on_bump_click E"
| "handle_history E TxExplorer = on_tx_explorer"
| "handle_history E TxClose = on_tx_detail_close"

primrec handle_staking :: "'e env_scheme \<Rightarrow> staking_event \<Rightarrow> unit wio" where
  "handle_staking E (StakeAuth l) = stakeAuth E (if l then ''login'' else ''signup'')"
| "handle_staking E StakeDeposit = on_stake_deposit E"
| "handle_staking E StakeWithdraw = on_stake_withdraw E"
| "handle_staking E ReferralWithdraw = on_referral_withdraw E"
| "handle_staking E ReferralCopy = on_referral_copy E"
| "handle_staking E EnablePush = on_enable_push E"
| "handle_staking E (AlertDelete i) = on_alert_delete E i"
| "handle_staking E AlertAdd = on_price_alert_add E"

primrec handle_multisig :: "'e env_scheme \<Rightarrow> multisig_event \<Rightarrow> unit wio" where
  "handle_multisig E MsCreate = on_ms_create E"
| "handle_multisig E MsPropose = on_ms_propose E"
| "handle_multisig E MsSign = on_ms_sign E"
| "handle_multisig E MsBroadcast = on_ms_broadcast E"
| "handle_multisig E MsShowQr = on_ms_show_qr E"
| "handle_multisig E MsQrClose = on_ms_qr_close"
| "handle_multisig E MsScanQr = on_ms_scan_qr"

primrec handle_watch :: "'e env_scheme \<Rightarrow> watch_event \<Rightarrow> unit wio" where
  "handle_watch E (WatchRemove i) = on_watch_remove E i"
| "handle_watch E (WatchExplorer i) = on_watch_explorer i"
| "handle_watch E WatchAdd = on_watch_add E"
| "handle_watch E ShowXpub = on_show_xpub E"
| "handle_watch E WatchXpubAdd = on_watch_xpub_add E"

primrec handle_settings :: "'e env_scheme \<Rightarrow> settings_event \<Rightarrow> unit wio" where
  "handle_settings E MsgSign = on_msg_sign E"
| "handle_settings E MsgVerify = on_msg_verify E"
| "handle_settings E (Theme t) = applyTheme E t"
| "handle_settings E (SwitchNetwork tn) = switchNetwork E (if tn then ''testnet'' else ''mainnet'')"
| "handle_settings E SetPin = on_set_pin E"
| "handle_settings E RemovePin = on_remove_pin E"
| "handle_settings E LockNow = on_lock_now"
| "handle_settings E (Wipe confirmed) = on_wipe_wallet E confirmed"

primrec handle :: "'e env_scheme \<Rightarrow> event \<Rightarrow> unit wio" where
  "handle E (Page e) = handle_page E e"
| "handle E (Onboarding e) = handle_onboarding E e"
| "handle E (Send e) = handle_send E e"
| "handle E (Receive e) = handle_receive E e"
| "handle E (History e) = handle_history E e"
| "handle E (Staking e) = handle_staking E e"
| "handle E (Multisig e) = handle_multisig E e"
| "handle E (Watch e) = handle_watch E e"
| "handle E (Settings e) = handle_settings E e"

text \<open>
  Where the control of an event is: a card or button on a screen, an element of its own
  (tab bar, banner, dialog), the lock screen, or nowhere (timers, camera, the
  browser's own controls). The lock screen covers everything else.
\<close>

datatype location = OnScreen string string | Element string | LockScreen | Anywhere

primrec page_place :: "page_event \<Rightarrow> location" where
  "page_place (Type i v) = Anywhere"
| "page_place (Tab name) = Element ''tabbar''"
| "page_place NewTxDismiss = Element ''new-tx-banner''"
| "page_place NewTxClick = Element ''new-tx-banner''"
| "page_place Poll = Anywhere"
| "page_place Unlock = LockScreen"
| "page_place (LockKey k) = LockScreen"
| "page_place (ScanFrame c) = Anywhere"
| "page_place CameraGranted = Anywhere"
| "page_place CameraRefused = Anywhere"
| "page_place ScanCancel = Element ''qr-scan-overlay''"
| "page_place CopyTimer = Anywhere"
| "page_place Reload = Anywhere"

primrec onboarding_place :: "onboarding_event \<Rightarrow> location" where
  "onboarding_place CreateWallet = OnScreen ''onboarding'' ''btn-create-wallet''"
| "onboarding_place (ConfirmWritten b) = OnScreen ''onboarding'' ''new-mnemonic-card''"
| "onboarding_place MnemonicContinue = OnScreen ''onboarding'' ''new-mnemonic-card''"
| "onboarding_place (TypeQuiz i v) = OnScreen ''onboarding'' ''mnemonic-quiz-card''"
| "onboarding_place QuizBack = OnScreen ''onboarding'' ''mnemonic-quiz-card''"
| "onboarding_place QuizVerify = OnScreen ''onboarding'' ''mnemonic-quiz-card''"
| "onboarding_place ShowRestore = OnScreen ''onboarding'' ''btn-show-restore''"
| "onboarding_place RestoreConfirm = OnScreen ''onboarding'' ''restore-card''"

primrec history_place :: "history_event \<Rightarrow> location" where
  "history_place ExportCsv = OnScreen ''history'' (screen_id ''history'')"
| "history_place (OpenTx i) = OnScreen ''history'' (screen_id ''history'')"
| "history_place BumpClick = Element ''tx-detail-overlay''"
| "history_place TxExplorer = Element ''tx-detail-overlay''"
| "history_place TxClose = Element ''tx-detail-overlay''"

primrec staking_place :: "staking_event \<Rightarrow> location" where
  "staking_place (StakeAuth l) = OnScreen ''staking'' ''staking-auth-card''"
| "staking_place StakeDeposit = OnScreen ''staking'' ''staking-actions-card''"
| "staking_place StakeWithdraw = OnScreen ''staking'' ''staking-actions-card''"
| "staking_place ReferralWithdraw = OnScreen ''staking'' ''referral-card''"
| "staking_place ReferralCopy = OnScreen ''staking'' ''referral-card''"
| "staking_place EnablePush = OnScreen ''staking'' ''push-card''"
| "staking_place (AlertDelete i) = OnScreen ''staking'' ''price-alerts-card''"
| "staking_place AlertAdd = OnScreen ''staking'' ''price-alerts-card''"

primrec multisig_place :: "multisig_event \<Rightarrow> location" where
  "multisig_place MsCreate = OnScreen ''multisig'' (screen_id ''multisig'')"
| "multisig_place MsPropose = OnScreen ''multisig'' (screen_id ''multisig'')"
| "multisig_place MsSign = OnScreen ''multisig'' (screen_id ''multisig'')"
| "multisig_place MsBroadcast = OnScreen ''multisig'' (screen_id ''multisig'')"
| "multisig_place MsShowQr = OnScreen ''multisig'' (screen_id ''multisig'')"
| "multisig_place MsQrClose = Element ''ms-qr-overlay''"
| "multisig_place MsScanQr = OnScreen ''multisig'' (screen_id ''multisig'')"

primrec settings_place :: "settings_event \<Rightarrow> location" where
  "settings_place MsgSign = OnScreen ''settings'' (screen_id ''settings'')"
| "settings_place MsgVerify = OnScreen ''settings'' (screen_id ''settings'')"
| "settings_place (Theme t) = OnScreen ''settings'' (screen_id ''settings'')"
| "settings_place (SwitchNetwork tn) = OnScreen ''settings'' (screen_id ''settings'')"
| "settings_place SetPin = OnScreen ''settings'' ''lock-not-set''"
| "settings_place RemovePin = OnScreen ''settings'' ''lock-is-set''"
| "settings_place LockNow = OnScreen ''settings'' ''lock-is-set''"
| "settings_place (Wipe confirmed) = OnScreen ''settings'' (screen_id ''settings'')"

primrec place :: "event \<Rightarrow> location" where
  "place (Page e) = page_place e"
| "place (Onboarding e) = onboarding_place e"
| "place (Send e) = OnScreen ''send'' (screen_id ''send'')"
| "place (Receive e) = OnScreen ''receive'' (screen_id ''receive'')"
| "place (History e) = history_place e"
| "place (Staking e) = staking_place e"
| "place (Multisig e) = multisig_place e"
| "place (Watch e) = OnScreen ''watch'' (screen_id ''watch'')"
| "place (Settings e) = settings_place e"

definition locked :: "wallet \<Rightarrow> bool" where
  "locked s = (display s ''lock-overlay'' = ''flex'')"

definition shown :: "wallet \<Rightarrow> string \<Rightarrow> bool" where
  "shown s i = (display s i \<noteq> ''none'')"

definition enabled :: "event \<Rightarrow> wallet \<Rightarrow> bool" where
  "enabled e s =
     ((case place e of
         OnScreen name i \<Rightarrow> \<not> locked s \<and> active s (screen_id name) \<and> shown s i
       | Element i \<Rightarrow> \<not> locked s \<and> shown s i
       | LockScreen \<Rightarrow> locked s
       | Anywhere \<Rightarrow> True) \<and>
      (case e of
         Page (Tab name) \<Rightarrow> name \<in> set (tl SCREENS)
       | Onboarding MnemonicContinue \<Rightarrow> \<not> disabled s ''btn-mnemonic-continue''
       | Page Poll \<Rightarrow> timers s \<noteq> []
       | Page CopyTimer \<Rightarrow> copyTimers (ui s) \<noteq> []
       | _ \<Rightarrow> True))"

text \<open>The phrase the wallet was made with, the PIN last set, and how many addresses were added.\<close>

record owner =
  ow_phrase :: string
  ow_pin :: string
  ow_added :: nat

definition owner_after :: "'e env_scheme \<Rightarrow> event \<Rightarrow> wallet \<Rightarrow> owner option \<Rightarrow> owner option" where
  "owner_after E e s g =
     (let t = snd (handle E e s) in
      case e of
        Onboarding QuizVerify \<Rightarrow> map_option (\<lambda>m. \<lparr>ow_phrase = m, ow_pin = [], ow_added = 0\<rparr>) (mnemonic t)
      | Onboarding RestoreConfirm \<Rightarrow> map_option (\<lambda>m. \<lparr>ow_phrase = m, ow_pin = [], ow_added = 0\<rparr>) (mnemonic t)
      | Settings SetPin \<Rightarrow>
          if localStore t ''fic_mnemonic_encrypted'' = localStore s ''fic_mnemonic_encrypted'' then g
          else map_option (\<lambda>o'. o'\<lparr>ow_pin := inputValue s ''set-pin''\<rparr>) g
      | Receive NewAddress \<Rightarrow> map_option (\<lambda>o'. o'\<lparr>ow_added := ow_added o' + 1\<rparr>) g
      | Settings (Wipe confirmed) \<Rightarrow> if confirmed then None else g
      | _ \<Rightarrow> g)"

text \<open>BIP32 has 2147483648 addresses; nobody adds more than that.\<close>

definition within_bip32 :: "owner option \<Rightarrow> bool" where
  "within_bip32 g = (case g of None \<Rightarrow> True | Some o' \<Rightarrow> ow_added o' < 2 ^ 31)"

inductive run :: "env \<Rightarrow> owner option \<Rightarrow> wallet \<Rightarrow> bool" for E :: env where
  first_visit: "run E None (snd (start_page E (page_start Map.empty Map.empty [])))"
| event: "run E g s \<Longrightarrow> enabled e s \<Longrightarrow> within_bip32 (owner_after E e s g) \<Longrightarrow>
    run E (owner_after E e s g) (snd (handle E e s))"

section \<open>Events that keep the core\<close>

definition book_event :: "event \<Rightarrow> bool" where
  "book_event e = (case e of Send (BookRemove i) \<Rightarrow> True | Send BookAdd \<Rightarrow> True | _ \<Rightarrow> False)"

definition core_event :: "event \<Rightarrow> bool" where
  "core_event e =
     (case e of
        Page (Tab name) \<Rightarrow> True | Page NewTxClick \<Rightarrow> True | Page NewTxDismiss \<Rightarrow> True | Page Poll \<Rightarrow> True
      | Page Unlock \<Rightarrow> True | Page (LockKey k) \<Rightarrow> True | Page Reload \<Rightarrow> True
      | Onboarding CreateWallet \<Rightarrow> True | Onboarding QuizVerify \<Rightarrow> True | Onboarding RestoreConfirm \<Rightarrow> True
      | Receive NewAddress \<Rightarrow> True
      | Settings (SwitchNetwork tn) \<Rightarrow> True | Settings SetPin \<Rightarrow> True | Settings RemovePin \<Rightarrow> True | Settings LockNow \<Rightarrow> True
      | Settings (Wipe c) \<Rightarrow> True
      | _ \<Rightarrow> False)"

context page_frame
begin

lemma frame_typing [pres_intros]: "pres P (type_quiz i v)" "pres P (on_amount_input i v)"
  by (simp_all add: type_quiz_def on_amount_input_def pres_intros)

lemma frame_handle:
  assumes "\<not> core_event e" "book_event e \<Longrightarrow> ''fic_address_book'' \<in> I"
  shows "pres P (handle E e)"
proof (cases e)
  case (Page x)
  then show ?thesis using assms(1) by (cases x) (simp_all add: core_event_def pres_intros)
next
  case (Onboarding x)
  then show ?thesis using assms(1) by (cases x) (simp_all add: core_event_def pres_intros)
next
  case (Send x)
  then show ?thesis using assms(2) by (cases x) (simp_all add: book_event_def pres_intros frame_book_change)
next
  case (Receive x)
  then show ?thesis using assms(1) by (cases x) (simp_all add: core_event_def pres_intros)
next
  case (History x)
  then show ?thesis by (cases x) (simp_all add: pres_intros)
next
  case (Staking x)
  then show ?thesis by (cases x) (simp_all add: pres_intros)
next
  case (Multisig x)
  then show ?thesis by (cases x) (simp_all add: pres_intros)
next
  case (Watch x)
  then show ?thesis by (cases x) (simp_all add: pres_intros)
next
  case (Settings x)
  then show ?thesis using assms(1) by (cases x) (simp_all add: core_event_def pres_intros)
qed

end

end
