(* ===== verification/Wallet_Polling.thy ===== *)
theory Wallet_Polling
  imports Wallet_Events
begin

text \<open>
  At most one screen is visible and at most one polling timer runs, and only while the
  home or the history screen is visible. This holds in every run, whatever the
  gateway, the storage and the libraries do.
\<close>

section \<open>Screens and the polling timer\<close>

definition visible :: "wallet \<Rightarrow> string list" where
  "visible s = filter (\<lambda>n. active s (screen_id n)) SCREENS"

definition one_timer :: "wallet \<Rightarrow> bool" where
  "one_timer s = (timers s = (case txPollHandle s of None \<Rightarrow> [] | Some h \<Rightarrow> [h]))"

definition book_ok :: "wallet \<Rightarrow> bool" where
  "book_ok s =
     (case bindr (let raw = item_or (localStore s ''fic_address_book'') [] in if raw = [] then Inr (JArr []) else json_parse raw)
       js_array of Inl e \<Rightarrow> False | Inr vs \<Rightarrow> list_all entry_ok vs)"

definition polling_ok :: "wallet \<Rightarrow> bool" where
  "polling_ok s = (one_timer s \<and> length (visible s) \<le> 1 \<and>
     (txPollHandle s \<noteq> None \<longrightarrow> set (visible s) \<subseteq> {''home'', ''history''}))"

lemma screen_id_eq [simp]: "screen_id m = screen_id n \<longleftrightarrow> m = n"
  by (simp add: screen_id_def)

lemma of_core_polling:
  assumes "core_of I t = core_of I s"
  shows "visible t = visible s" "one_timer t = one_timer s" "txPollHandle t = txPollHandle s"
proof -
  have "active t (screen_id n) = active s (screen_id n)" for n
    using assms by (simp add: core_of_def fun_eq_iff)
  then show "visible t = visible s" by (simp add: visible_def)
  show "one_timer t = one_timer s" "txPollHandle t = txPollHandle s" using assms by (simp_all add: core_of_def one_timer_def)
qed

lemma of_core_book:
  assumes "core_of (set screen_items) t = core_of (set screen_items) s"
  shows "book_ok t = book_ok s"
proof -
  have "(localStore t |` (- set screen_items)) ''fic_address_book'' = (localStore s |` (- set screen_items)) ''fic_address_book''"
    using assms by (simp add: core_of_def)
  then have "localStore t ''fic_address_book'' = localStore s ''fic_address_book''" by (simp add: screen_items_def)
  then show ?thesis by (simp add: book_ok_def)
qed

lemma book_ok_kept: "book_ok s \<longleftrightarrow> kept ''fic_address_book'' s \<noteq> None"
  by (auto simp: book_ok_def kept_def load_list_def load_json_def getItem_def getm_def bindm_def ret_def liftr_def bindr_def Let_def
      split: sum.splits)

lemma polling_caches:
  "cache_free (\<lambda>s. Q (visible s) (one_timer s) (txPollHandle s) (book_ok s))"
  by (simp add: cache_free_def visible_def one_timer_def book_ok_def)

definition page_ok :: "wallet \<Rightarrow> bool" where
  "page_ok s = (polling_ok s \<and> book_ok s)"

text \<open>A screen being shown: the timer of the screen before may still run.\<close>

definition showing :: "string \<Rightarrow> wallet \<Rightarrow> bool" where
  "showing name s = (visible s = [name] \<and> one_timer s \<and> book_ok s)"

interpretation polling: page_frame E polling_ok "insert ''fic_address_book'' (set screen_items)" for E
proof
  show "polling_ok t" if "polling_ok s" "core_of (insert ''fic_address_book'' (set screen_items)) t =
      core_of (insert ''fic_address_book'' (set screen_items)) s" for s t
    using that(1) by (simp add: polling_ok_def of_core_polling [OF that(2)])
  show "pres polling_ok (ensureKey E idx)" for idx
    using polling_caches [of "\<lambda>v t h b. t \<and> length v \<le> 1 \<and> (h \<noteq> None \<longrightarrow> set v \<subseteq> {''home'', ''history''})"]
    by (intro pres_ensureKey_frame) (simp add: polling_ok_def [abs_def])
qed auto

interpretation page: page_frame E page_ok "set screen_items" for E
proof
  show "page_ok t" if "page_ok s" "core_of (set screen_items) t = core_of (set screen_items) s" for s t
    using that(1) by (simp add: page_ok_def polling_ok_def of_core_polling [OF that(2)] of_core_book [OF that(2)])
  show "pres page_ok (ensureKey E idx)" for idx
    using polling_caches [of "\<lambda>v t h b. (t \<and> length v \<le> 1 \<and> (h \<noteq> None \<longrightarrow> set v \<subseteq> {''home'', ''history''})) \<and> b"]
    by (intro pres_ensureKey_frame) (simp add: page_ok_def [abs_def] polling_ok_def [abs_def])
qed simp

interpretation showing: page_frame E "showing name" "set screen_items" for E name
proof
  show "showing name t" if "showing name s" "core_of (set screen_items) t = core_of (set screen_items) s" for s t
    using that(1) by (simp add: showing_def of_core_polling [OF that(2)] of_core_book [OF that(2)])
  show "pres (showing name) (ensureKey E idx)" for idx
    using polling_caches [of "\<lambda>v t h b. v = [name] \<and> t \<and> b"]
    by (intro pres_ensureKey_frame) (simp add: showing_def [abs_def])
qed simp

lemma wp_activate: "wp (form xs (\<lambda>n. set_active (f n) b)) Q F s = Q () (s\<lparr>active := \<lambda>i. if i \<in> f ` set xs then b else active s i\<rparr>)"
proof (induction xs arbitrary: s)
  case (Cons x xs)
  show ?case by (simp add: wp_simps Cons.IH, rule arg_cong [where f = "\<lambda>g. Q () (s\<lparr>active := g\<rparr>)"]) auto
qed (simp add: wp_simps)

lemma wp_hide_screens: "wp hide_screens Q F s = Q () (s\<lparr>active := \<lambda>i. i \<notin> screen_id ` set SCREENS \<and> active s i\<rparr>)"
  unfolding hide_screens_def wp_activate by (rule arg_cong [where f = "\<lambda>f. Q () (s\<lparr>active := f\<rparr>)"]) auto

lemma filter_single: "distinct xs \<Longrightarrow> x \<in> set xs \<Longrightarrow> filter (\<lambda>y. y = x) xs = [x]"
  by (induction xs) (auto simp: filter_empty_conv)

text \<open>Loading a screen does not throw once the address book is readable.\<close>

lemma load_screen_total:
  assumes "showing name s"
  shows "wp (load_screen E name) (\<lambda>_. showing name) (\<lambda>_ _. False) s"
proof -
  have keep: "wp (load_screen E name) (\<lambda>_. showing name) (\<lambda>_. showing name) s"
    using assms showing.frame_load_screen unfolding pres_wp by blast
  have "wp (load_screen E name) (\<lambda>_ _. True) (\<lambda>_ _. False) s"
  proof (cases "name = ''send''")
    case True
    obtain es where "kept ''fic_address_book'' s = Some es" using assms by (auto simp: showing_def book_ok_kept)
    then obtain vs where vs: "loadAddressBookEntries s = (Inr vs, s)" "list_all entry_ok vs"
      by (auto simp: kept_Some loadAddressBookEntries_def)
    have "wp renderAddressBook (\<lambda>_. wp (loadSendFeeRate E) (\<lambda>_ _. True) (\<lambda>_ _. True)) (\<lambda>_ _. False) s"
      by (rule wp_mono [OF book.show_total [OF vs]]) (simp_all add: wp_any)
    then show ?thesis unfolding True by (simp add: load_screen_def wp_simps loadAddressBook_def)
  next
    case False
    then show ?thesis
      by (auto simp: load_screen_def wp_simps loadSettings_def refreshLockCardVisibility_def isPinSet_def refreshThemeButtons_def
          refreshMsgSignAddressList_def Let_def intro!: wp_any)
  qed
  with keep show ?thesis by (simp add: wp_def split: prod.splits sum.splits)
qed

lemma polling_simps [simp]:
  "visible (s\<lparr>timers := a\<rparr>) = visible s" "visible (s\<lparr>nextTimer := b\<rparr>) = visible s" "visible (s\<lparr>txPollHandle := c\<rparr>) = visible s"
  "book_ok (s\<lparr>timers := a\<rparr>) = book_ok s" "book_ok (s\<lparr>nextTimer := b\<rparr>) = book_ok s" "book_ok (s\<lparr>txPollHandle := c\<rparr>) = book_ok s"
  by (simp_all add: visible_def book_ok_def)

lemma polling_started:
  assumes "showing name s"
  shows "wp (if name = ''home'' \<or> name = ''history'' then startTxPolling else stopTxPolling) (\<lambda>_. page_ok) (\<lambda>_. page_ok) s"
  using assms
  by (auto simp: startTxPolling_def stopTxPolling_def setInterval_def wp_simps showing_def page_ok_def polling_ok_def one_timer_def
      split: option.splits)

lemma showScreen_page_ok:
  assumes "name \<in> set SCREENS" "page_ok s"
  shows "wp (showScreen E name) (\<lambda>_. page_ok) (\<lambda>_. page_ok) s"
proof -
  define s1 where "s1 = s\<lparr>active := (\<lambda>i. i \<notin> screen_id ` set SCREENS \<and> active s i)(screen_id name := True)\<rparr>"
  have "visible s1 = filter (\<lambda>n. n = name) SCREENS"
    by (auto simp: visible_def s1_def intro!: filter_cong)
  also have "\<dots> = [name]" using assms(1) by (intro filter_single) (simp_all add: SCREENS_def)
  finally have s1: "showing name s1" using assms(2) by (simp add: showing_def page_ok_def polling_ok_def s1_def one_timer_def book_ok_def)
  let ?hidden = "s\<lparr>active := \<lambda>i. i \<notin> screen_id ` set SCREENS \<and> active s i\<rparr>"
  have steps: "?hidden\<lparr>active := (active ?hidden)(screen_id name := True)\<rparr> = s1" by (simp add: s1_def)
  let ?poll = "if name = ''home'' \<or> name = ''history'' then startTxPolling else stopTxPolling"
  have rest: "wp (thenm (load_screen E name) (thenm ?poll (ret ()))) (\<lambda>_. page_ok) (\<lambda>_. page_ok) t" if "showing name t" for t
    unfolding wp_thenm wp_basic by (rule wp_mono [OF load_screen_total [OF that]]) (rule polling_started, assumption, simp)
  have "wp (form (tl SCREENS) (\<lambda>t. set_active (tab_id t) (t = name))) (\<lambda>_. showing name) (\<lambda>_ _. False) s1"
    by (rule wp_form_total [where P = "showing name", OF _ s1])
       (simp add: wp_dom showing_def visible_def tab_id_def screen_id_def one_timer_def book_ok_def)
  then have "wp (thenm (form (tl SCREENS) (\<lambda>t. set_active (tab_id t) (t = name))) (thenm (load_screen E name) (thenm ?poll (ret ()))))
      (\<lambda>_. page_ok) (\<lambda>_. page_ok) s1"
    unfolding wp_thenm [of "form _ _"] by (rule wp_mono) (rule rest, assumption, simp)
  then show ?thesis
    unfolding showScreen_def do_all.simps wp_thenm [of hide_screens] wp_thenm [of "set_active _ _"] wp_hide_screens wp_dom
    by (simp only: steps)
qed

lemma page_ok_simps [simp]:
  "page_ok (s\<lparr>mnemonic := a\<rparr>) = page_ok s"
  "page_ok (s\<lparr>pendingMnemonic := b\<rparr>) = page_ok s"
  "page_ok (s\<lparr>addressIndices := c\<rparr>) = page_ok s"
  "page_ok (s\<lparr>activeIndex := d\<rparr>) = page_ok s"
  "page_ok (s\<lparr>keys := e\<rparr>) = page_ok s"
  "page_ok (s\<lparr>addresses := f\<rparr>) = page_ok s"
  "page_ok (s\<lparr>network_name := g\<rparr>) = page_ok s"
  "page_ok (s\<lparr>display := h\<rparr>) = page_ok s"
  "page_ok (s\<lparr>sessionStore := i\<rparr>) = page_ok s"
  by (simp_all add: page_ok_def polling_ok_def visible_def one_timer_def book_ok_def)

lemma page_ok_store: "k \<noteq> ''fic_address_book'' \<Longrightarrow> page_ok (s\<lparr>localStore := (localStore s)(k := v)\<rparr>) = page_ok s"
  by (simp add: page_ok_def polling_ok_def visible_def one_timer_def book_ok_def)

lemma page_ok_forget_book: "page_ok s \<Longrightarrow> page_ok (s\<lparr>localStore := (localStore s)(''fic_address_book'' := None)\<rparr>)"
  by (simp add: page_ok_def polling_ok_def visible_def one_timer_def book_ok_def item_or_def)

lemma page_ok_hide:
  assumes "page_ok s" "\<And>n. f (screen_id n) \<Longrightarrow> active s (screen_id n)"
  shows "page_ok (s\<lparr>active := f\<rparr>)"
proof -
  have "set (visible (s\<lparr>active := f\<rparr>)) \<subseteq> set (visible s)" using assms(2) by (auto simp: visible_def)
  moreover have "length (visible (s\<lparr>active := f\<rparr>)) \<le> length (visible s)"
    unfolding visible_def by (simp add: length_filter_conv_card) (auto intro!: card_mono assms(2))
  moreover have "visible s = [] \<Longrightarrow> visible (s\<lparr>active := f\<rparr>) = []" using calculation by simp
  ultimately show ?thesis using assms(1) by (auto simp: page_ok_def polling_ok_def one_timer_def book_ok_def)
qed

lemma page_pres [pres_intros]:
  "pres page_ok (set_display i v)" "k \<noteq> ''fic_address_book'' \<Longrightarrow> pres page_ok (setItem E k v)"
  by (simp_all add: pres_wp wp_simps page_ok_store)

lemma page_removeItem [pres_intros]: "pres page_ok (removeItem k)"
  by (cases "k = ''fic_address_book''") (simp_all add: pres_wp wp_simps page_ok_store page_ok_forget_book)

lemma page_hide_screens [pres_intros]: "pres page_ok hide_screens"
  unfolding pres_wp wp_hide_screens by (intro allI impI page_ok_hide) simp_all

lemma page_hide_screen [pres_intros]: "pres page_ok (set_active (screen_id n) False)"
  unfolding pres_wp wp_dom by (intro allI impI page_ok_hide) (simp_all split: if_splits)

lemma page_showScreen [pres_intros]: "name \<in> set SCREENS \<Longrightarrow> pres page_ok (showScreen E name)"
  by (simp add: pres_wp showScreen_page_ok)

lemma page_derive [pres_intros]: "pres page_ok (deriveAllKnownAddresses E)"
  by (simp add: deriveAllKnownAddresses_def pres_intros pres_modm)

lemma page_enterWallet [pres_intros]: "pres page_ok (enterWallet E)"
  by (simp add: enterWallet_def pres_intros SCREENS_def)

lemma page_saveAddressIndices [pres_intros]: "pres page_ok (saveAddressIndices E)"
  by (simp add: pres_wp saveAddressIndices_def addressIndicesStorageKey_def wp_simps page_ok_store)

lemma page_new_wallet [pres_intros]: "pres page_ok (new_wallet E phrase)"
  by (simp add: new_wallet_def pres_intros pres_modm)

lemma page_boot [pres_intros]: "pres page_ok (boot E)"
  by (simp add: boot_def isPinSet_def pres_intros pres_modm Let_def)

lemma page_reload: "pres page_ok (reload E)"
proof -
  have "page_ok (page_start (localStore s) (sessionStore s) (requests s))" if "page_ok s" for s
  proof -
    have "visible (page_start (localStore s) (sessionStore s) (requests s)) = [''onboarding'']"
      by (simp add: visible_def page_start_def SCREENS_def)
    with that show ?thesis by (simp add: page_ok_def polling_ok_def one_timer_def book_ok_def) (simp add: page_start_def)
  qed
  moreover have "pres page_ok (start_page E)" by (simp add: start_page_def pres_intros)
  ultimately show ?thesis by (simp add: pres_def reload_def)
qed

lemma book_ok_wp:
  assumes "book_ok s" "\<And>es. kept ''fic_address_book'' s = Some es \<Longrightarrow> wp m (\<lambda>_ t. kept ''fic_address_book'' t = Some (f es)) (\<lambda>_ t. t = s) s"
  shows "wp m (\<lambda>_. book_ok) (\<lambda>_. book_ok) s"
proof -
  obtain es where "kept ''fic_address_book'' s = Some es" using assms(1) by (auto simp: book_ok_kept)
  from assms(2) [OF this] show ?thesis by (rule wp_mono) (simp_all add: book_ok_kept assms(1) [unfolded book_ok_kept])
qed

lemma page_book [pres_intros]: "pres page_ok (on_book_add E)" "pres page_ok (on_book_remove E i)"
proof -
  have *: "pres page_ok m" if "pres polling_ok m" "\<And>s. book_ok s \<Longrightarrow> wp m (\<lambda>_. book_ok) (\<lambda>_. book_ok) s" for m :: "unit wio"
    using that by (simp add: pres_wp page_ok_def [abs_def] wp_conj)
  show "pres page_ok (on_book_add E)"
    unfolding on_book_add_def loadAddressBookEntries_def
    by (rule * [OF polling.frame_book_change(2) [unfolded on_book_add_def loadAddressBookEntries_def] book_ok_wp])
       (simp, assumption, rule add_refines [OF book_screen])
  show "pres page_ok (on_book_remove E i)"
    unfolding on_book_remove_def loadAddressBookEntries_def
    by (rule * [OF polling.frame_book_change(1) [unfolded on_book_remove_def loadAddressBookEntries_def] book_ok_wp])
       (simp, assumption, rule remove_refines [OF book_screen])
qed

lemma page_core_handlers [pres_intros]:
  "pres page_ok (on_new_tx_click E)" "pres page_ok (on_unlock E)" "pres page_ok (on_create_wallet E)" "pres page_ok (on_quiz_verify E)"
  "pres page_ok (on_restore_confirm E)" "pres page_ok (on_new_address E)" "pres page_ok (switchNetwork E n)"
  "pres page_ok (on_set_pin E)" "pres page_ok (on_remove_pin E)" "pres page_ok on_lock_now" "pres page_ok (on_wipe_wallet E c)"
  by (simp_all add: on_new_tx_click_def on_unlock_def stored_phrase_def loadEncryptedBlob_def on_create_wallet_def on_quiz_verify_def
      on_restore_confirm_def on_new_address_def switchNetwork_def on_set_pin_def setPin_def on_remove_pin_def removePin_def
      on_lock_now_def on_wipe_wallet_def pres_intros pres_modm page_reload SCREENS_def Let_def)

lemma page_poll [pres_intros]: "pres page_ok (checkForNewTx E)" "pres page_ok on_new_tx_dismiss"
  by (rule page.frame_poll; simp)+

lemma page_handle:
  assumes "enabled e s" "page_ok s"
  shows "page_ok (snd (handle E e s))"
proof (cases "core_event e")
  case False
  then have "pres page_ok (handle E e)"
  proof (cases "book_event e")
    case True
    then show ?thesis by (auto simp: book_event_def pres_intros split: event.splits send_event.splits)
  next
    case False
    then show ?thesis using \<open>\<not> core_event e\<close> by (intro page.frame_handle) simp_all
  qed
  then show ?thesis using assms(2) by (simp add: pres_def)
next
  case True
  have "pres page_ok (showScreen E name)" if "name \<in> set (tl SCREENS)" for name
    using that by (auto intro!: pres_intros simp: SCREENS_def)
  then have "pres page_ok (handle E e)"
    using True assms(1)
    by (auto simp: core_event_def enabled_def on_lock_key_def pres_intros page_reload
        split: event.splits page_event.splits onboarding_event.splits receive_event.splits settings_event.splits)
  then show ?thesis using assms(2) by (simp add: pres_def)
qed

lemma page_run: "run E g s \<Longrightarrow> page_ok s"
proof (induction rule: run.induct)
  case first_visit
  have "page_ok (page_start Map.empty Map.empty [])"
    by (simp add: page_ok_def polling_ok_def visible_def one_timer_def book_ok_def page_start_def SCREENS_def item_or_def)
  moreover have "pres page_ok (start_page E)" by (simp add: start_page_def pres_intros)
  ultimately show ?case by (simp add: pres_def)
next
  case (event g s e)
  then show ?case by (simp add: page_handle)
qed

text \<open>
  C10: In every run of the page, whatever the gateway answers, the storage refuses and the libraries
  throw: at most one screen is visible, at most one polling timer runs, and it runs only while no other
  screen than home or history is visible.
\<close>

theorem polling_confined:
  assumes "run E g s"
  shows "length (visible s) \<le> 1 \<and> length (timers s) \<le> 1 \<and>
    (timers s \<noteq> [] \<longrightarrow> timers s = [the (txPollHandle s)] \<and> set (visible s) \<subseteq> {''home'', ''history''})"
  using page_run [OF assms] by (auto simp: page_ok_def polling_ok_def one_timer_def split: option.splits)

theorem polling_confined_witness:
  "\<exists>s. run sample_env None s \<and> length (visible s) \<le> 1 \<and> length (timers s) \<le> 1"
  using polling_confined [OF run.first_visit [of sample_env]] run.first_visit [of sample_env] by blast

end
