(* ===== verification/Wallet_Phrase.thy ===== *)
theory Wallet_Phrase
  imports Wallet_Polling
begin

text \<open>
  The recovery phrase and the addresses over whole runs of the page. With libraries
  that do what they document, the phrase a wallet was made with stays recoverable
  until the wallet is deleted, and the keys and addresses in memory are
  always those of the phrase, on the network and at the indices that are stored.
\<close>

section \<open>What the libraries document\<close>

text \<open>
  AES-GCM authenticates: decrypting under another key fails, or else gives what was encrypted.
  A valid phrase is not empty and has a key at every index BIP32 allows without hardening,
  generated phrases are valid, and RIPEMD-160 gives 20 bytes. The storage has room.
\<close>

definition gcm_auth :: "subtle \<Rightarrow> bool" where
  "gcm_auth S = (\<forall>key key' iv m m' c. s_encrypt S key iv m = Inr c \<longrightarrow> s_decrypt S key' iv c = Inr m' \<longrightarrow> m' = m)"

definition healthy :: "env \<Rightarrow> bool" where
  "healthy E =
     ((\<forall>st. p_fits E st) \<and> gcm_ok (e_subtle E) \<and> gcm_auth (e_subtle E) \<and> (\<forall>x. length (e_ripemd160 E x) = 20) \<and>
      isValidMnemonic (e_bip E) (generateMnemonic (e_bip E)) \<and> \<not> isValidMnemonic (e_bip E) [] \<and>
      (\<forall>m net i. isValidMnemonic (e_bip E) m \<longrightarrow> 0 \<le> i \<longrightarrow> i < 2 ^ 31 \<longrightarrow>
        (\<exists>k. deriveKey (e_bip E) m net i [] False = Inr k)))"

lemma healthy_fits: "healthy E \<Longrightarrow> p_fits E st"
  and healthy_gcm: "healthy E \<Longrightarrow> gcm_ok (e_subtle E)" "healthy E \<Longrightarrow> gcm_auth (e_subtle E)"
  and healthy_generated: "healthy E \<Longrightarrow> isValidMnemonic (e_bip E) (generateMnemonic (e_bip E))"
  and healthy_nonempty: "healthy E \<Longrightarrow> \<not> isValidMnemonic (e_bip E) []"
  and healthy_key: "healthy E \<Longrightarrow> isValidMnemonic (e_bip E) m \<Longrightarrow> 0 \<le> i \<Longrightarrow> i < 2 ^ 31 \<Longrightarrow>
    \<exists>k. deriveKey (e_bip E) m net i [] False = Inr k"
  by (simp_all add: healthy_def)

lemma healthy_address: "healthy E \<Longrightarrow> \<exists>a. p2pkhAddress (e_sha256 E) (hash160 (e_sha256 E) (e_ripemd160 E) pk) net = Inr a"
  by (simp add: p2pkhAddress_20 hash160_def healthy_def)

lemma other_pin:
  assumes "gcm_auth S" "encryptMnemonic S m pin = Inr blob" "decryptMnemonic S blob pin' = Inr m'"
  shows "m' = m"
proof -
  let ?iv = "s_random S 12"
  obtain key c where c: "s_encrypt S key ?iv (text_encode (units m)) = Inr c"
      "blob = JObj [(''salt'', JStr (storage_bytesToHex (s_random S 16))), (''iv'', JStr (storage_bytesToHex ?iv)),
        (''ciphertext'', JStr (storage_bytesToHex c))]"
    using assms(2) by (auto simp: encryptMnemonic_def Let_def result_simps)
  then obtain key' p where "s_decrypt S key' ?iv c = Inr p" "m' = units_string (text_decode p)"
    using assms(3) by (auto simp: decryptMnemonic_def result_simps)
  moreover from this c have "p = text_encode (units m)" using assms(1) unfolding gcm_auth_def by blast
  ultimately show ?thesis by (simp add: text_decode_encode)
qed

section \<open>The invariant\<close>

text \<open>The phrase is stored either in plain text or encrypted, never both.\<close>

definition held :: "subtle \<Rightarrow> string \<Rightarrow> string \<Rightarrow> wallet \<Rightarrow> bool" where
  "held S pin m s =
     (localStore s ''fic_mnemonic'' = Some m \<and> localStore s ''fic_mnemonic_encrypted'' = None \<or>
      localStore s ''fic_mnemonic'' = None \<and>
      (\<exists>blob. encryptMnemonic S m pin = Inr blob \<and> localStore s ''fic_mnemonic_encrypted'' = Some (json_stringify blob)))"

definition net_ok :: "wallet \<Rightarrow> bool" where
  "net_ok s = (network_name s \<in> {''mainnet'', ''testnet''} \<and> item_or (localStore s ''fic_network'') ''mainnet'' = network_name s)"

text \<open>A stored list of indices; a missing one stands for the first address.\<close>

definition indices_item :: "string \<Rightarrow> string" where
  "indices_item net = ''fic_address_indices_'' @ net"

definition holds_list :: "string option \<Rightarrow> int list \<Rightarrow> bool" where
  "holds_list v ixs = (ixs \<noteq> [] \<and> (case v of None \<Rightarrow> ixs = [0] | Some raw \<Rightarrow> raw = json_stringify (JArr (map js_int ixs))))"

definition indices_ok :: "nat \<Rightarrow> wallet \<Rightarrow> bool" where
  "indices_ok n s = (\<forall>net \<in> {''mainnet'', ''testnet''}. \<exists>ixs. holds_list (localStore s (indices_item net)) ixs \<and> set ixs \<subseteq> {0..int n})"

definition caches_ok :: "env \<Rightarrow> wallet \<Rightarrow> bool" where
  "caches_ok E s = (coherent E s \<and> dom (addresses s) = dom (keys s))"

definition shut :: "wallet \<Rightarrow> bool" where
  "shut s = (mnemonic s = None \<and> keys s = Map.empty \<and> addresses s = Map.empty)"

definition ready :: "env \<Rightarrow> owner \<Rightarrow> wallet \<Rightarrow> bool" where
  "ready E ow s =
     (mnemonic s = Some (ow_phrase ow) \<and> \<not> active s (screen_id ''onboarding'') \<and> caches_ok E s \<and>
      holds_list (localStore s (indices_item (network_name s))) (addressIndices s) \<and>
      set (addressIndices s) \<subseteq> {0..int (ow_added ow)} \<and> set (addressIndices s) \<subseteq> dom (addresses s))"

definition stored_ok :: "env \<Rightarrow> owner \<Rightarrow> wallet \<Rightarrow> bool" where
  "stored_ok E ow s =
     (isValidMnemonic (e_bip E) (ow_phrase ow) \<and> ow_added ow < 2 ^ 31 \<and> held (e_subtle E) (ow_pin ow) (ow_phrase ow) s \<and>
      net_ok s \<and> indices_ok (ow_added ow) s)"

definition blank_store :: "wallet \<Rightarrow> bool" where
  "blank_store s = (\<forall>k \<in> {''fic_mnemonic'', ''fic_mnemonic_encrypted'', indices_item ''mainnet'', indices_item ''testnet''}.
     localStore s k = None)"

text \<open>Only the onboarding screen can be reached.\<close>

definition first_screen :: "wallet \<Rightarrow> bool" where
  "first_screen s = (display s ''tabbar'' = ''none'' \<and> display s ''new-tx-banner'' = ''none'' \<and>
     (\<forall>n. n \<noteq> ''onboarding'' \<longrightarrow> \<not> active s (screen_id n)))"

definition owned :: "env \<Rightarrow> owner option \<Rightarrow> wallet \<Rightarrow> bool" where
  "owned E g s =
     (case g of
        None \<Rightarrow> blank_store s \<and> net_ok s \<and> \<not> locked s \<and> shut s \<and> first_screen s \<and>
          (\<forall>m. pendingMnemonic s = Some m \<longrightarrow> isValidMnemonic (e_bip E) m)
      | Some ow \<Rightarrow> stored_ok E ow s \<and> (if locked s then shut s else ready E ow s))"

section \<open>Key lookups\<close>

lemma net_ok_network: "net_ok s \<Longrightarrow> \<exists>net. NETWORKS (network_name s) = Some net"
  by (auto simp: net_ok_def NETWORKS_def)

lemma ensureKey_shut:
  assumes "shut s" "net_ok s"
  shows "ensureKey E idx s = (Inl TypeError, s)"
  using assms net_ok_network [OF assms(2)]
  by (auto simp: shut_def ensureKey_def current_network_def bindm_def getm_def ret_def throwm_def)

text \<open>A lookup never leaves a key without its address, and adds at most one.\<close>

lemma ensureKey_caches:
  assumes "healthy E" "caches_ok E s"
  shows "wp (ensureKey E idx) (\<lambda>_ t. caches_ok E t \<and> dom (addresses s) \<subseteq> dom (addresses t) \<and> idx \<in> dom (addresses t))
    (\<lambda>_ t. t = s) s"
proof (cases "keys s idx")
  case (Some k)
  then show ?thesis using assms(2) by (auto simp: ensureKey_def wp_simps caches_ok_def)
next
  case None
  show ?thesis
  proof (cases "mnemonic s"; cases "NETWORKS (network_name s)")
    fix m net
    assume mn: "mnemonic s = Some m" "NETWORKS (network_name s) = Some net"
    show ?thesis
    proof (cases "deriveKey (e_bip E) m net idx [] False")
      case (Inl e)
      then show ?thesis using None mn by (simp add: ensureKey_def current_network_def wp_simps)
    next
      case (Inr k)
      obtain a where a: "p2pkhAddress (e_sha256 E) (hash160 (e_sha256 E) (e_ripemd160 E) (kp_public k)) net = Inr a"
        using healthy_address [OF assms(1)] by blast
      let ?t = "s\<lparr>keys := (keys s)(idx \<mapsto> k), addresses := (addresses s)(idx \<mapsto> a)\<rparr>"
      have "coherent E (s\<lparr>keys := (keys s)(idx \<mapsto> k)\<rparr>)"
        using assms(2) None mn Inr by (intro coherent_add_key) (simp_all add: caches_ok_def own_key_def)
      then have "coherent E ?t" using a mn coherent_add_address [of E "s\<lparr>keys := (keys s)(idx \<mapsto> k)\<rparr>" idx k a]
        by (simp add: own_address_def)
      with a None mn Inr assms(2) show ?thesis
        by (auto simp: ensureKey_def current_network_def wp_simps caches_ok_def)
    qed
  qed (simp_all add: ensureKey_def current_network_def wp_simps None)
qed

text \<open>What the invariant reads of the page.\<close>

lemma of_core_items:
  assumes "core_of (insert ''fic_address_book'' (set screen_items)) t = core_of (insert ''fic_address_book'' (set screen_items)) s"
  shows "localStore t ''fic_mnemonic'' = localStore s ''fic_mnemonic''"
    "localStore t ''fic_mnemonic_encrypted'' = localStore s ''fic_mnemonic_encrypted''"
    "localStore t ''fic_network'' = localStore s ''fic_network''"
    "localStore t (indices_item net) = localStore s (indices_item net)"
proof -
  let ?I = "insert ''fic_address_book'' (set screen_items)"
  have "localStore t k = localStore s k" if "k \<notin> ?I" for k
  proof -
    have "(localStore t |` (- ?I)) k = (localStore s |` (- ?I)) k" using assms by (simp add: core_of_def)
    with that show ?thesis by simp
  qed
  then show "localStore t ''fic_mnemonic'' = localStore s ''fic_mnemonic''"
    "localStore t ''fic_mnemonic_encrypted'' = localStore s ''fic_mnemonic_encrypted''"
    "localStore t ''fic_network'' = localStore s ''fic_network''"
    "localStore t (indices_item net) = localStore s (indices_item net)"
    by (simp_all add: screen_items_def indices_item_def)
qed

lemma of_core_rest:
  assumes "core_of I t = core_of I s"
  shows "network_name t = network_name s" "mnemonic t = mnemonic s" "pendingMnemonic t = pendingMnemonic s"
    "addressIndices t = addressIndices s" "keys t = keys s" "addresses t = addresses s" "locked t = locked s"
    "active t (screen_id n) = active s (screen_id n)" "display t ''tabbar'' = display s ''tabbar''"
    "display t ''new-tx-banner'' = display s ''new-tx-banner''"
  using assms by (simp_all add: core_of_def locked_def fun_eq_iff)

lemma owned_of_core:
  assumes "core_of (insert ''fic_address_book'' (set screen_items)) t = core_of (insert ''fic_address_book'' (set screen_items)) s"
  shows "owned E g t = owned E g s"
proof -
  note items = of_core_items [OF assms] and rest = of_core_rest [OF assms]
  have "coherent E t = coherent E s" by (simp add: coherent_def own_key_def own_address_def rest)
  then have "ready E ow t = ready E ow s" for ow by (simp add: ready_def caches_ok_def rest items)
  moreover have "stored_ok E ow t = stored_ok E ow s" for ow
    by (simp add: stored_ok_def held_def net_ok_def indices_ok_def rest items)
  moreover have "blank_store t = blank_store s" by (simp add: blank_store_def items)
  moreover have "net_ok t = net_ok s" by (simp add: net_ok_def rest items)
  ultimately show ?thesis by (simp add: owned_def shut_def first_screen_def rest split: option.split)
qed

lemma owned_net: "owned E g s \<Longrightarrow> net_ok s"
  by (auto simp: owned_def stored_ok_def split: option.splits)

text \<open>The part of the page a key lookup does not touch.\<close>

definition rest :: "wallet \<Rightarrow> (string \<rightharpoonup> string) \<times> string \<times> string option \<times> string option \<times> int list \<times> (string \<Rightarrow> string) \<times> (string \<Rightarrow> bool)" where
  "rest s = (localStore s, network_name s, mnemonic s, pendingMnemonic s, addressIndices s, display s, active s)"

lemma rest_eq: "rest t = rest s \<longleftrightarrow> localStore t = localStore s \<and> network_name t = network_name s \<and> mnemonic t = mnemonic s \<and>
    pendingMnemonic t = pendingMnemonic s \<and> addressIndices t = addressIndices s \<and> display t = display s \<and> active t = active s"
  by (simp add: rest_def)

lemma stored_ok_rest: "rest t = rest s \<Longrightarrow> stored_ok E ow t = stored_ok E ow s"
  by (simp add: rest_eq stored_ok_def held_def net_ok_def indices_ok_def)

lemma ready_grow:
  assumes "ready E ow s" "caches_ok E t" "dom (addresses s) \<subseteq> dom (addresses t)" "rest t = rest s"
  shows "ready E ow t"
  using assms unfolding ready_def rest_eq by simp blast

lemma ensureKey_grows:
  assumes "healthy E" "caches_ok E s"
  shows "wp (ensureKey E idx)
    (\<lambda>_ t. (caches_ok E t \<and> dom (addresses s) \<subseteq> dom (addresses t) \<and> idx \<in> dom (addresses t)) \<and> rest t = rest s)
    (\<lambda>_ t. t = s \<and> rest t = rest s) s"
proof -
  have "cache_free (\<lambda>t. rest t = rest s)" by (simp add: cache_free_def rest_eq)
  then have "wp (ensureKey E idx) (\<lambda>_ t. rest t = rest s) (\<lambda>_ t. rest t = rest s) s"
    using pres_ensureKey_frame [of "\<lambda>t. rest t = rest s" E idx] unfolding pres_wp by blast
  then show ?thesis unfolding wp_conj using ensureKey_caches [OF assms] by blast
qed

lemma ensureKey_total:
  assumes "healthy E" "caches_ok E s" "mnemonic s = Some m" "isValidMnemonic (e_bip E) m" "net_ok s" "0 \<le> idx" "idx < 2 ^ 31"
  shows "wp (ensureKey E idx) (\<lambda>_ t. caches_ok E t \<and> dom (addresses s) \<subseteq> dom (addresses t) \<and> idx \<in> dom (addresses t) \<and> rest t = rest s)
    (\<lambda>_ _. False) s"
proof -
  obtain net where net: "NETWORKS (network_name s) = Some net" using net_ok_network [OF assms(5)] by blast
  obtain k where k: "deriveKey (e_bip E) m net idx [] False = Inr k" using healthy_key [OF assms(1,4,6,7)] by blast
  obtain a where "p2pkhAddress (e_sha256 E) (hash160 (e_sha256 E) (e_ripemd160 E) (kp_public k)) net = Inr a"
    using healthy_address [OF assms(1)] by blast
  with net k assms(3) have "wp (ensureKey E idx) (\<lambda>_ _. True) (\<lambda>_ _. False) s"
    by (auto simp: ensureKey_def current_network_def wp_simps split: option.split)
  with ensureKey_grows [OF assms(1,2), of idx] show ?thesis by (simp add: wp_def split: prod.splits sum.splits)
qed

lemma ensureKey_owned:
  assumes "healthy E"
  shows "pres (owned E g) (ensureKey E idx)"
  unfolding pres_wp
proof (intro allI impI)
  fix s
  assume s: "owned E g s"
  show "wp (ensureKey E idx) (\<lambda>_. owned E g) (\<lambda>_. owned E g) s"
  proof (cases "shut s")
    case True
    show ?thesis by (simp add: wp_def ensureKey_shut [OF True owned_net [OF s]] s)
  next
    case False
    then obtain ow where ow: "g = Some ow" "\<not> locked s" "ready E ow s" "stored_ok E ow s"
      using s by (auto simp: owned_def split: option.splits if_splits)
    have "caches_ok E s" using ow(3) by (simp add: ready_def)
    from ensureKey_grows [OF assms this, of idx] show ?thesis
    proof (rule wp_mono)
      fix t
      assume a: "(caches_ok E t \<and> dom (addresses s) \<subseteq> dom (addresses t) \<and> idx \<in> dom (addresses t)) \<and> rest t = rest s"
      then have "ready E ow t" by (intro ready_grow [OF ow(3)]) simp_all
      moreover have "stored_ok E ow t" using a ow(4) stored_ok_rest [of t s] by simp
      moreover have "\<not> locked t" using a ow(2) by (simp add: locked_def rest_eq)
      ultimately show "owned E g t" by (simp add: owned_def ow(1))
    qed (use s in simp)
  qed
qed

text \<open>The invariant, with the libraries' part.\<close>

definition keeps :: "env \<Rightarrow> owner option \<Rightarrow> wallet \<Rightarrow> bool" where
  "keeps E g s = (healthy E \<and> owned E g s)"

interpretation phrase: page_frame E "keeps E g" "insert ''fic_address_book'' (set screen_items)" for E g
proof
  show "keeps E g t" if "keeps E g s" "core_of (insert ''fic_address_book'' (set screen_items)) t =
      core_of (insert ''fic_address_book'' (set screen_items)) s" for s t
    using that(1) by (simp add: keeps_def owned_of_core [OF that(2)])
  show "pres (keeps E g) (ensureKey E idx)" for idx
    using ensureKey_owned [of E g idx] by (simp add: pres_def keeps_def)
qed auto

section \<open>Opening the wallet\<close>

lemma load_indices:
  assumes "holds_list (localStore s (indices_item (network_name s))) ixs" "set ixs \<subseteq> {0..int n}" "n < 2 ^ 31"
  shows "loadAddressIndices s = (Inr ixs, s)"
proof -
  have "json_ok (JArr (map js_int ixs))" using assms(2,3) by (force simp: list_all_iff json_ok_int)
  moreover have "mapr index_of_value (map js_int ixs) = Inr ixs" by (rule mapr_map_id) (simp add: js_int_def)
  moreover have "ixs \<noteq> []" using assms(1) by (simp add: holds_list_def)
  ultimately show ?thesis using assms(1)
    by (cases "localStore s (indices_item (network_name s))")
       (simp_all add: holds_list_def loadAddressIndices_def addressIndicesStorageKey_def indices_item_def getItem_def getm_def bindm_def
         ret_def liftr_def item_or_def json_parse_stringify json_stringify_nonempty js_truthy_num_def)
qed

lemma ensureKeys_total:
  assumes "healthy E" "caches_ok E s" "mnemonic s = Some m" "isValidMnemonic (e_bip E) m" "net_ok s" "set ixs \<subseteq> {0..<2 ^ 31}"
  shows "wp (form ixs (\<lambda>idx. bindm (ensureKey E idx) (\<lambda>_. ret ())))
    (\<lambda>_ t. caches_ok E t \<and> dom (addresses s) \<union> set ixs \<subseteq> dom (addresses t) \<and> rest t = rest s) (\<lambda>_ _. False) s"
  using assms
proof (induction ixs arbitrary: s)
  case (Cons i ixs)
  show ?case unfolding wp_form wp_bindm wp_basic
  proof (rule wp_mono [OF ensureKey_total [OF Cons.prems(1-5), of i]])
    fix t
    assume t: "caches_ok E t \<and> dom (addresses s) \<subseteq> dom (addresses t) \<and> i \<in> dom (addresses t) \<and> rest t = rest s"
    then have "net_ok t" "mnemonic t = Some m" using Cons.prems by (simp_all add: rest_eq net_ok_def)
    with t Cons.prems have "wp (form ixs (\<lambda>idx. bindm (ensureKey E idx) (\<lambda>_. ret ())))
        (\<lambda>_ u. caches_ok E u \<and> dom (addresses t) \<union> set ixs \<subseteq> dom (addresses u) \<and> rest u = rest t) (\<lambda>_ _. False) t"
      by (intro Cons.IH) auto
    then show "wp (form ixs (\<lambda>idx. bindm (ensureKey E idx) (\<lambda>_. ret ())))
        (\<lambda>_ t. caches_ok E t \<and> dom (addresses s) \<union> set (i # ixs) \<subseteq> dom (addresses t) \<and> rest t = rest s) (\<lambda>_ _. False) t"
      by (rule wp_mono) (use t in \<open>simp, blast\<close>, simp)
  qed (use Cons.prems in auto)
qed (simp add: wp_simps)

text \<open>A page that has the phrase but not yet its addresses, and one that has both.\<close>

definition unlocking :: "env \<Rightarrow> owner \<Rightarrow> wallet \<Rightarrow> bool" where
  "unlocking E ow s = (healthy E \<and> stored_ok E ow s \<and> mnemonic s = Some (ow_phrase ow) \<and> caches_ok E s)"

definition opened_up :: "env \<Rightarrow> owner \<Rightarrow> wallet \<Rightarrow> bool" where
  "opened_up E ow s = (unlocking E ow s \<and> holds_list (localStore s (indices_item (network_name s))) (addressIndices s) \<and>
     set (addressIndices s) \<subseteq> {0..int (ow_added ow)} \<inter> dom (addresses s))"

lemma derive_total:
  assumes "unlocking E ow s"
  shows "wp (deriveAllKnownAddresses E) (\<lambda>_ t. opened_up E ow t \<and> display t = display s \<and> active t = active s) (\<lambda>_ _. False) s"
proof -
  have o: "healthy E" "stored_ok E ow s" "mnemonic s = Some (ow_phrase ow)" "caches_ok E s"
    "isValidMnemonic (e_bip E) (ow_phrase ow)" "net_ok s" "indices_ok (ow_added ow) s" "ow_added ow < 2 ^ 31"
    using assms by (simp_all add: unlocking_def stored_ok_def)
  then obtain ixs where ixs: "holds_list (localStore s (indices_item (network_name s))) ixs" "set ixs \<subseteq> {0..int (ow_added ow)}"
    by (auto simp: indices_ok_def net_ok_def)
  let ?s = "s\<lparr>addressIndices := ixs\<rparr>"
  have s: "caches_ok E ?s" "net_ok ?s" "mnemonic ?s = Some (ow_phrase ow)" "stored_ok E ow ?s" using o
    by (simp_all add: caches_ok_def net_ok_def stored_ok_def held_def indices_ok_def)
  have loop: "wp (form ixs (\<lambda>idx. bindm (ensureKey E idx) (\<lambda>_. ret ())))
      (\<lambda>_ t. caches_ok E t \<and> dom (addresses s) \<union> set ixs \<subseteq> dom (addresses t) \<and> rest t = rest ?s) (\<lambda>_ _. False) ?s"
    using ensureKeys_total [OF o(1) s(1,3) o(5) s(2), of ixs] ixs(2) o(8) by force
  have after: "opened_up E ow t \<and> opened_up E ow (t\<lparr>activeIndex := a\<rparr>) \<and> display t = display s \<and> active t = active s"
    if "caches_ok E t" "dom (addresses s) \<union> set ixs \<subseteq> dom (addresses t)" "rest t = rest ?s" for t a
  proof -
    have "opened_up E ow t" using that ixs o stored_ok_rest [OF that(3)] s(4)
      by (simp add: opened_up_def unlocking_def rest_eq)
    moreover have "opened_up E ow (t\<lparr>activeIndex := a\<rparr>) = opened_up E ow t"
      by (simp add: opened_up_def unlocking_def caches_ok_def stored_ok_def held_def net_ok_def indices_ok_def)
    ultimately show ?thesis using that(3) by (simp add: rest_eq)
  qed
  have "wp (form ixs (\<lambda>idx. bindm (ensureKey E idx) (\<lambda>_. ret ())))
      (\<lambda>_ t. \<forall>a. opened_up E ow t \<and> opened_up E ow (t\<lparr>activeIndex := a\<rparr>) \<and> display t = display s \<and> active t = active s)
      (\<lambda>_ _. False) ?s"
    by (rule wp_mono [OF loop]) (use after in blast)+
  then show ?thesis
    unfolding deriveAllKnownAddresses_def wp_bindm wp_Inr [where m = loadAddressIndices, OF load_indices [OF ixs o(8)]]
      wp_thenm wp_modm wp_basic wp_if
    by (rule wp_mono) auto
qed

lemma owned_opened:
  assumes "opened_up E ow s" "\<not> active s (screen_id ''onboarding'')" "\<not> locked s"
  shows "keeps E (Some ow) s"
  using assms by (auto simp: keeps_def owned_def opened_up_def unlocking_def ready_def)

lemma keeps_active:
  assumes "keeps E (Some ow) s" "f (screen_id ''onboarding'') \<Longrightarrow> active s (screen_id ''onboarding'')"
  shows "keeps E (Some ow) (s\<lparr>active := f\<rparr>)"
proof -
  have "coherent E (s\<lparr>active := f\<rparr>) = coherent E s" by (simp add: coherent_def own_key_def own_address_def)
  then have "ready E ow s \<Longrightarrow> ready E ow (s\<lparr>active := f\<rparr>)" using assms(2) by (simp add: ready_def caches_ok_def) blast
  moreover have "stored_ok E ow (s\<lparr>active := f\<rparr>) = stored_ok E ow s" "shut (s\<lparr>active := f\<rparr>) = shut s"
      "locked (s\<lparr>active := f\<rparr>) = locked s"
    by (simp_all add: stored_ok_def held_def net_ok_def indices_ok_def shut_def locked_def)
  ultimately show ?thesis using assms(1) by (simp add: keeps_def owned_def split: if_splits)
qed

lemma keeps_simps [simp]:
  "keeps E (Some ow) (s\<lparr>txPollHandle := a\<rparr>) = keeps E (Some ow) s"
  "keeps E (Some ow) (s\<lparr>timers := b\<rparr>) = keeps E (Some ow) s"
  "keeps E (Some ow) (s\<lparr>nextTimer := c\<rparr>) = keeps E (Some ow) s"
  "i \<noteq> ''lock-overlay'' \<Longrightarrow> keeps E (Some ow) (s\<lparr>display := (display s)(i := v)\<rparr>) = keeps E (Some ow) s"
  by (simp_all add: keeps_def owned_def stored_ok_def held_def net_ok_def indices_ok_def shut_def ready_def caches_ok_def
      locked_def coherent_def own_key_def own_address_def)

lemma keeps_showScreen:
  assumes "name \<noteq> ''onboarding''"
  shows "pres (keeps E (Some ow)) (showScreen E name)"
proof -
  have "pres (keeps E (Some ow)) hide_screens" "pres (keeps E (Some ow)) (set_active (screen_id name) True)"
    unfolding pres_wp wp_hide_screens wp_dom by (intro allI impI keeps_active; use assms in simp)+
  moreover have "pres (keeps E (Some ow)) startTxPolling" "pres (keeps E (Some ow)) stopTxPolling"
    by (simp_all add: startTxPolling_def stopTxPolling_def setInterval_def pres_intros pres_modm)
  ultimately show ?thesis by (simp add: showScreen_def pres_intros tab_id_def)
qed

lemma enterWallet_keeps:
  assumes "unlocking E ow s"
  shows "wp (enterWallet E) (\<lambda>_. keeps E (Some ow)) (\<lambda>_. keeps E (Some ow)) s"
proof -
  have home: "wp (showScreen E ''home'') (\<lambda>_. keeps E (Some ow)) (\<lambda>_. keeps E (Some ow)) t" if "keeps E (Some ow) t" for t
    using that keeps_showScreen [of "''home''" E ow] by (simp add: pres_wp)
  have derive: "wp (deriveAllKnownAddresses E) (\<lambda>_. opened_up E ow) (\<lambda>_ _. False) s"
    by (rule wp_mono [OF derive_total [OF assms]]) simp_all
  have "keeps E (Some ow) (t\<lparr>active := (active t)(screen_id ''onboarding'' := False),
      display := (display t)(''lock-overlay'' := ''none'', ''tabbar'' := ''flex'')\<rparr>)" if "opened_up E ow t" for t
  proof (rule owned_opened)
    let ?t = "t\<lparr>active := (active t)(screen_id ''onboarding'' := False),
      display := (display t)(''lock-overlay'' := ''none'', ''tabbar'' := ''flex'')\<rparr>"
    have "coherent E ?t = coherent E t" by (simp add: coherent_def own_key_def own_address_def)
    then have "opened_up E ow ?t = opened_up E ow t"
      by (simp add: opened_up_def unlocking_def caches_ok_def stored_ok_def held_def net_ok_def indices_ok_def)
    with that show "opened_up E ow ?t" by blast
  qed (simp_all add: locked_def)
  then show ?thesis
    unfolding enterWallet_def do_all.simps wp_thenm wp_dom wp_basic
    by (intro wp_mono [OF derive]) (auto intro!: home)
qed

section \<open>The other handlers\<close>

lemma held_unique:
  assumes "healthy E" "held (e_subtle E) pin m s" "stored_phrase (e_subtle E) pin' s = (Inr m', t)"
  shows "m' = m \<and> t = s"
proof -
  have "localStore s ''fic_mnemonic_encrypted'' \<noteq> None"
  proof
    assume "localStore s ''fic_mnemonic_encrypted'' = None"
    then have "stored_phrase (e_subtle E) pin' s = (Inl TypeError, s)"
      by (simp add: stored_phrase_def loadEncryptedBlob_def getItem_def getm_def bindm_def ret_def item_or_def liftr_def
          decryptMnemonic_def)
    with assms(3) show False by simp
  qed
  then obtain blob where blob: "encryptMnemonic (e_subtle E) m pin = Inr blob"
      "localStore s ''fic_mnemonic_encrypted'' = Some (json_stringify blob)"
    using assms(2) by (auto simp: held_def)
  then have "stored_phrase (e_subtle E) pin' s = (decryptMnemonic (e_subtle E) blob pin', s)"
    using encrypted_json_ok [OF blob(1)] json_stringify_nonempty [of blob]
    by (simp add: stored_phrase_def loadEncryptedBlob_def getItem_def getm_def bindm_def item_or_def liftr_def json_parse_stringify)
  then have "decryptMnemonic (e_subtle E) blob pin' = Inr m' \<and> t = s" using assms(3) by simp
  with other_pin [OF healthy_gcm(2) [OF assms(1)] blob(1)] show ?thesis by blast
qed

lemma unlock_keeps:
  assumes "keeps E (Some ow) s" "locked s"
  shows "wp (on_unlock E) (\<lambda>_. keeps E (Some ow)) (\<lambda>_. keeps E (Some ow)) s"
proof -
  have h: "healthy E" "stored_ok E ow s" "shut s" using assms by (simp_all add: keeps_def owned_def)
  let ?s = "s\<lparr>textContent := (textContent s)(''lock-error'' := [])\<rparr>"
  have note_text: "keeps E (Some ow) (s\<lparr>textContent := f\<rparr>)" for f
    using assms(1) phrase.of_core [of E "Some ow" s "s\<lparr>textContent := f\<rparr>"] by simp
  let ?pin = "inputValue s ''lock-pin''"
  have wrong: "pres (keeps E (Some ow)) (set_text i v)" for i v by (rule phrase.frame_dom)
  show ?thesis
  proof (cases "stored_phrase (e_subtle E) ?pin ?s")
    case (Pair r t)
    show ?thesis
    proof (cases r)
      case (Inl e)
      have "t = ?s" using Pair by (auto simp: stored_phrase_def loadEncryptedBlob_def getItem_def getm_def bindm_def liftr_def ret_def
          split: if_splits sum.splits)
      then show ?thesis using Pair Inl by (simp add: on_unlock_def wp_simps wp_Inl note_text)
    next
      case (Inr m)
      have m: "m = ow_phrase ow" "t = ?s"
        using held_unique [OF h(1), of "ow_pin ow" "ow_phrase ow" ?s ?pin m t] Pair Inr h(2) by (simp_all add: stored_ok_def held_def)
      let ?u = "?s\<lparr>mnemonic := Some m, inputValue := (inputValue s)(''lock-pin'' := [])\<rparr>"
      have "unlocking E ow ?u" using h m(1)
        by (simp add: unlocking_def stored_ok_def held_def net_ok_def indices_ok_def caches_ok_def coherent_def shut_def)
      from enterWallet_keeps [OF this] have "wp (enterWallet E) (\<lambda>_. keeps E (Some ow))
          (\<lambda>_. wp (set_text ''lock-error'' ''Incorrect PIN.'') (\<lambda>_. keeps E (Some ow)) (\<lambda>_. keeps E (Some ow))) ?u"
        by (rule wp_mono) (use wrong in \<open>auto simp: pres_wp\<close>)
      then show ?thesis using Pair Inr m(2) by (simp add: on_unlock_def wp_simps wp_Inr)
    qed
  qed
qed

lemma new_wallet_keeps:
  assumes "keeps E None s" "isValidMnemonic (e_bip E) m" "ow = \<lparr>ow_phrase = m, ow_pin = [], ow_added = 0\<rparr>"
  shows "wp (new_wallet E m) (\<lambda>_. unlocking E ow) (\<lambda>_ _. False) s"
proof -
  have h: "healthy E" "blank_store s" "net_ok s" "shut s" using assms(1) by (simp_all add: keeps_def owned_def)
  let ?raw = "json_stringify (JArr (map js_int [0]))"
  let ?t = "s\<lparr>mnemonic := Some m, addressIndices := [0],
    localStore := (localStore s)(''fic_mnemonic'' \<mapsto> m, indices_item (network_name s) \<mapsto> ?raw)\<rparr>"
  have "\<exists>ixs. holds_list (localStore ?t (indices_item net)) ixs \<and> set ixs \<subseteq> {0}" if "net \<in> {''mainnet'', ''testnet''}" for net
    using that h(2) by (intro exI [of _ "[0]"]) (auto simp: holds_list_def blank_store_def indices_item_def)
  moreover have "net_ok ?t" using h(3) by (simp add: net_ok_def indices_item_def)
  moreover have "held (e_subtle E) [] m ?t" using h(2) by (simp add: held_def blank_store_def indices_item_def)
  ultimately have "unlocking E ow ?t" using h(1,4) assms(2)
    by (simp add: unlocking_def stored_ok_def assms(3) indices_ok_def caches_ok_def coherent_def shut_def)
  then show ?thesis using healthy_fits [OF h(1)]
    by (simp add: new_wallet_def saveAddressIndices_def addressIndicesStorageKey_def indices_item_def wp_simps)
qed

definition remembers :: "string option \<Rightarrow> wallet \<Rightarrow> bool" where
  "remembers x s = (mnemonic s = x)"

interpretation memory: page_frame E "remembers x" UNIV for E x
proof
  show "remembers x t" if "remembers x s" "core_of UNIV t = core_of UNIV s" for s t using that by (simp add: core_of_def remembers_def)
  show "pres (remembers x) (ensureKey E idx)" for idx by (rule pres_ensureKey_frame) (simp add: cache_free_def remembers_def)
qed simp

lemma remembers_simps [simp]:
  "remembers x (s\<lparr>timers := a\<rparr>) = remembers x s" "remembers x (s\<lparr>nextTimer := b\<rparr>) = remembers x s"
  "remembers x (s\<lparr>txPollHandle := c\<rparr>) = remembers x s" "remembers x (s\<lparr>addressIndices := d\<rparr>) = remembers x s"
  by (simp_all add: remembers_def)

lemma enterWallet_memory: "pres (remembers x) (enterWallet E)"
proof -
  have dom: "pres (remembers x) hide_screens" "pres (remembers x) (set_active i b)" "pres (remembers x) (set_display i v)" for i b v
    by (simp_all add: pres_wp wp_hide_screens wp_dom remembers_def)
  have poll: "pres (remembers x) startTxPolling"
    by (simp add: startTxPolling_def stopTxPolling_def setInterval_def pres_intros pres_modm)
  have "pres (remembers x) (deriveAllKnownAddresses E)"
    unfolding deriveAllKnownAddresses_def by (simp add: pres_intros pres_modm)
  with dom poll show ?thesis by (simp add: enterWallet_def showScreen_def pres_intros)
qed

text \<open>The owner a phrase confirmed on the onboarding screen makes.\<close>

definition new_owner :: "string \<Rightarrow> owner" where
  "new_owner m = \<lparr>ow_phrase = m, ow_pin = [], ow_added = 0\<rparr>"

definition registered :: "env \<Rightarrow> wallet \<Rightarrow> bool" where
  "registered E s = keeps E (map_option new_owner (mnemonic s)) s"

lemma entered_registered:
  assumes "unlocking E (new_owner m) s"
  shows "wp (enterWallet E) (\<lambda>_. registered E) (\<lambda>_. registered E) s"
proof -
  have "mnemonic s = Some m" using assms by (simp add: unlocking_def new_owner_def)
  then have "wp (enterWallet E) (\<lambda>_ t. mnemonic t = Some m) (\<lambda>_ t. mnemonic t = Some m) s"
    using enterWallet_memory [of "Some m" E] unfolding pres_wp remembers_def by blast
  with enterWallet_keeps [OF assms] have "wp (enterWallet E) (\<lambda>_ t. keeps E (Some (new_owner m)) t \<and> mnemonic t = Some m)
      (\<lambda>_ t. keeps E (Some (new_owner m)) t \<and> mnemonic t = Some m) s"
    unfolding wp_conj by blast
  then show ?thesis by (rule wp_mono) (simp_all add: registered_def)
qed

lemma not_registered: "keeps E None s \<Longrightarrow> registered E s"
  by (simp add: registered_def) (simp add: keeps_def owned_def shut_def)

lemma unlocking_simps [simp]:
  "unlocking E ow (s\<lparr>textContent := a\<rparr>) = unlocking E ow s"
  "unlocking E ow (s\<lparr>display := b\<rparr>) = unlocking E ow s"
  by (simp_all add: unlocking_def stored_ok_def held_def net_ok_def indices_ok_def caches_ok_def coherent_def own_key_def own_address_def)

lemma keeps_text: "keeps E g s \<Longrightarrow> keeps E g (s\<lparr>textContent := f\<rparr>)"
  by (rule phrase.of_core) simp_all

lemma created_registered:
  assumes "keeps E None s" "isValidMnemonic (e_bip E) m"
  shows "wp (new_wallet E m) (\<lambda>_. wp (enterWallet E) (\<lambda>_. registered E) (\<lambda>_. registered E)) (\<lambda>_. registered E) s"
    "wp (new_wallet E m) (\<lambda>_. wp (set_display i v) (\<lambda>_. wp (enterWallet E) (\<lambda>_. registered E) (\<lambda>_. registered E)) F)
      (\<lambda>_. registered E) s"
  by (rule wp_mono [OF new_wallet_keeps [OF assms new_owner_def]]; simp add: wp_dom entered_registered)+

lemma quiz_registered:
  assumes "keeps E None s"
  shows "wp (on_quiz_verify E) (\<lambda>_. registered E) (\<lambda>_. registered E) s"
proof (cases "pendingMnemonic s")
  case None
  then show ?thesis using assms by (simp add: on_quiz_verify_def wp_simps not_registered)
next
  case (Some m)
  then have "isValidMnemonic (e_bip E) m" using assms by (simp add: keeps_def owned_def)
  with Some show ?thesis
    by (simp add: on_quiz_verify_def wp_simps not_registered keeps_text assms created_registered)
qed

lemma restore_registered:
  assumes "keeps E None s"
  shows "wp (on_restore_confirm E) (\<lambda>_. registered E) (\<lambda>_. registered E) s"
  by (simp add: on_restore_confirm_def wp_simps Let_def not_registered keeps_text assms created_registered)

section \<open>The settings\<close>

lemma keeps_ready:
  "keeps E (Some ow) s \<Longrightarrow> \<not> locked s \<Longrightarrow> healthy E \<and> stored_ok E ow s \<and> ready E ow s"
  by (simp add: keeps_def owned_def)

lemma keeps_lock_now: "keeps E (Some ow) s \<Longrightarrow> wp on_lock_now (\<lambda>_. keeps E (Some ow)) F s"
  by (simp add: on_lock_now_def wp_simps wp_hide_screens keeps_def owned_def stored_ok_def held_def net_ok_def indices_ok_def
      locked_def shut_def)

lemma switchNetwork_keeps:
  assumes "keeps E (Some ow) s" "\<not> locked s" "net \<in> {''mainnet'', ''testnet''}"
  shows "wp (switchNetwork E net) (\<lambda>_. keeps E (Some ow)) (\<lambda>_. keeps E (Some ow)) s"
proof -
  have h: "healthy E" "stored_ok E ow s" "ready E ow s" using keeps_ready [OF assms(1,2)] by simp_all
  let ?t = "\<lambda>g f. s\<lparr>network_name := net, localStore := (localStore s)(''fic_network'' \<mapsto> net), gateway := g, textContent := f,
    keys := Map.empty, addresses := Map.empty\<rparr>"
  have u: "unlocking E ow (?t g f)" for g f
    using h assms(3)
    by (auto simp: unlocking_def stored_ok_def held_def net_ok_def indices_ok_def indices_item_def ready_def caches_ok_def coherent_def
        item_or_def)
  have home: "wp (showScreen E ''home'') (\<lambda>_. keeps E (Some ow)) (\<lambda>_. keeps E (Some ow)) t"
    if "opened_up E ow t \<and> display t = display s \<and> active t = active s" for t
  proof -
    have "keeps E (Some ow) t" using that h(3) assms(2) by (intro owned_opened) (simp_all add: ready_def locked_def)
    then show ?thesis using keeps_showScreen [of "''home''" E ow] by (simp add: pres_wp)
  qed
  have "wp (deriveAllKnownAddresses E) (\<lambda>_. wp (showScreen E ''home'') (\<lambda>_. keeps E (Some ow)) (\<lambda>_. keeps E (Some ow)))
      (\<lambda>_. keeps E (Some ow)) (?t g f)" for g f
    by (rule wp_mono [OF derive_total [OF u]]) (simp_all add: home)
  then show ?thesis using healthy_fits [OF h(1)]
    by (simp add: switchNetwork_def refreshGateway_def wp_simps)
qed

text \<open>Changing how the phrase is stored.\<close>

lemma keeps_new_store:
  assumes "keeps E (Some ow) s" "\<not> locked s" "held (e_subtle E) pin (ow_phrase ow) (s\<lparr>localStore := store\<rparr>)"
    "\<And>k. k \<notin> {''fic_mnemonic'', ''fic_mnemonic_encrypted''} \<Longrightarrow> store k = localStore s k"
  shows "keeps E (Some (ow\<lparr>ow_pin := pin\<rparr>)) (s\<lparr>localStore := store\<rparr>)"
proof -
  have h: "healthy E" "stored_ok E ow s" "ready E ow s" using keeps_ready [OF assms(1,2)] by simp_all
  have same: "store ''fic_network'' = localStore s ''fic_network''" "store (indices_item n) = localStore s (indices_item n)" for n
    by (simp_all add: assms(4) indices_item_def)
  have "stored_ok E (ow\<lparr>ow_pin := pin\<rparr>) (s\<lparr>localStore := store\<rparr>)"
    using h(2) assms(3) by (simp add: stored_ok_def net_ok_def indices_ok_def same)
  moreover have "ready E (ow\<lparr>ow_pin := pin\<rparr>) (s\<lparr>localStore := store\<rparr>) = ready E ow s"
    by (simp add: ready_def caches_ok_def same)
  ultimately show ?thesis using h(1,3) assms(2) by (simp add: keeps_def owned_def locked_def)
qed

lemma set_pin_keeps:
  fixes s :: wallet
  defines "after \<equiv> \<lambda>ow t. if localStore t ''fic_mnemonic_encrypted'' = localStore s ''fic_mnemonic_encrypted'' then ow
    else ow\<lparr>ow_pin := inputValue s ''set-pin''\<rparr>"
  assumes "keeps E (Some ow) s" "\<not> locked s"
  shows "wp (on_set_pin E) (\<lambda>_ t. keeps E (Some (after ow t)) t) (\<lambda>_ t. keeps E (Some (after ow t)) t) s"
proof -
  have h: "healthy E" "stored_ok E ow s" "ready E ow s" using keeps_ready [OF assms(2,3)] by simp_all
  have m: "mnemonic s = Some (ow_phrase ow)" using h(3) by (simp add: ready_def)
  let ?pin = "inputValue s ''set-pin''"
  define view where "view t = (core_of (insert ''fic_address_book'' (set screen_items)) t, localStore t ''fic_mnemonic_encrypted'')" for t
  have frame: "keeps E (Some (after ow t)) t" if "keeps E (Some (after ow u)) u" "view t = view u" for t u
    using that phrase.of_core [of E "Some (after ow u)" u t] by (simp add: view_def after_def)
  have refused: "keeps E (Some (after ow t)) t" if "view t = view s" for t
    by (rule frame [OF _ that]) (simp add: after_def assms(2))
  show ?thesis
  proof (cases "encryptMnemonic (e_subtle E) (ow_phrase ow) ?pin")
    case (Inl e)
    then show ?thesis
      by (auto simp: on_set_pin_def setPin_def wp_simps m phrase_text_def view_def intro!: refused)
  next
    case (Inr blob)
    let ?store = "(localStore s)(''fic_mnemonic_encrypted'' \<mapsto> json_stringify blob, ''fic_mnemonic'' := None)"
    let ?u = "s\<lparr>localStore := ?store\<rparr>"
    have held: "held (e_subtle E) ?pin (ow_phrase ow) ?u" using Inr by (simp add: held_def)
    have "keeps E (Some (after ow ?u)) ?u"
    proof (cases "Some (json_stringify blob) = localStore s ''fic_mnemonic_encrypted''")
      case True
      then have "held (e_subtle E) (ow_pin ow) (ow_phrase ow) ?u" using h(2) by (auto simp: stored_ok_def held_def)
      from keeps_new_store [OF assms(2,3) this] True show ?thesis by (simp add: after_def)
    next
      case False
      with keeps_new_store [OF assms(2,3) held] show ?thesis by (simp add: after_def)
    qed
    then have accepted: "keeps E (Some (after ow t)) t" if "view t = view ?u" for t using frame [OF _ that] by simp
    show ?thesis
    proof (cases "length ?pin < 4 \<or> inputValue s ''set-pin-confirm'' \<noteq> ?pin")
      case True
      then show ?thesis by (auto simp: on_set_pin_def wp_simps view_def intro!: refused)
    next
      case False
      then show ?thesis
        by (simp add: on_set_pin_def setPin_def refreshLockCardVisibility_def isPinSet_def wp_simps m phrase_text_def Inr
            healthy_fits [OF h(1)]) (rule accepted, simp add: view_def core_of_def)
    qed
  qed
qed

lemma remove_pin_keeps:
  assumes "keeps E (Some ow) s" "\<not> locked s"
  shows "wp (on_remove_pin E) (\<lambda>_. keeps E (Some ow)) (\<lambda>_. keeps E (Some ow)) s"
proof -
  have h: "healthy E" "stored_ok E ow s" "ready E ow s" using keeps_ready [OF assms] by simp_all
  let ?store = "(localStore s)(''fic_mnemonic'' \<mapsto> ow_phrase ow, ''fic_mnemonic_encrypted'' := None)"
  have "held (e_subtle E) (ow_pin ow) (ow_phrase ow) (s\<lparr>localStore := ?store\<rparr>)" by (simp add: held_def)
  from keeps_new_store [OF assms this] have k: "keeps E (Some ow) (s\<lparr>localStore := ?store\<rparr>)" by simp
  have "mnemonic s = Some (ow_phrase ow)" using h(3) by (simp add: ready_def)
  then show ?thesis
    by (simp add: on_remove_pin_def removePin_def refreshLockCardVisibility_def isPinSet_def wp_simps phrase_text_def healthy_fits [OF h(1)])
       (rule phrase.of_core [OF k], simp add: core_of_def)
qed

lemma max_index_bound:
  assumes "ixs \<noteq> []" "set ixs \<subseteq> {0..int n}"
  shows "\<exists>m. max_index ixs = Inr m \<and> 0 \<le> m \<and> m \<le> int n"
proof -
  have "foldl max i js \<in> set (i # js)" for i :: int and js by (induction js arbitrary: i) (auto simp: max_def)
  then show ?thesis using assms by (cases ixs) (simp_all add: max_index_def subset_eq del: set_simps)
qed

lemma new_address_keeps:
  assumes "keeps E (Some ow) s" "\<not> locked s" "ow_added ow + 1 < 2 ^ 31"
  shows "wp (on_new_address E) (\<lambda>_. keeps E (Some (ow\<lparr>ow_added := ow_added ow + 1\<rparr>)))
    (\<lambda>_. keeps E (Some (ow\<lparr>ow_added := ow_added ow + 1\<rparr>))) s"
proof -
  have h: "healthy E" "stored_ok E ow s" "ready E ow s" using keeps_ready [OF assms(1,2)] by simp_all
  let ?ow = "ow\<lparr>ow_added := ow_added ow + 1\<rparr>"
  obtain m where m: "max_index (addressIndices s) = Inr m" "0 \<le> m" "m \<le> int (ow_added ow)"
    using max_index_bound [of "addressIndices s" "ow_added ow"] h(3) by (auto simp: ready_def holds_list_def)
  let ?ixs = "addressIndices s @ [m + 1]"
  let ?t = "s\<lparr>addressIndices := ?ixs,
    localStore := (localStore s)(indices_item (network_name s) \<mapsto> json_stringify (JArr (map js_int ?ixs)))\<rparr>"
  have ixs: "set ?ixs \<subseteq> {0..int (ow_added ow + 1)}" "holds_list (localStore ?t (indices_item (network_name s))) ?ixs"
    using h(3) m by (auto simp: ready_def holds_list_def)
  have lists: "\<exists>ixs. holds_list (localStore ?t (indices_item n)) ixs \<and> set ixs \<subseteq> {0..int (ow_added ow + 1)}"
    if "n \<in> {''mainnet'', ''testnet''}" for n
  proof (cases "n = network_name s")
    case False
    from that obtain js where "holds_list (localStore s (indices_item n)) js" "set js \<subseteq> {0..int (ow_added ow)}"
      using h(2) by (auto simp: stored_ok_def indices_ok_def)
    with False show ?thesis by (intro exI [of _ js]) (auto simp: indices_item_def)
  qed (use ixs in blast)
  have t: "stored_ok E ?ow ?t" "caches_ok E ?t" "mnemonic ?t = Some (ow_phrase ow)" "net_ok ?t"
    using h(2,3) lists assms(3)
    by (simp_all add: stored_ok_def held_def net_ok_def indices_ok_def indices_item_def ready_def caches_ok_def del: fun_upd_apply)
       (simp_all add: indices_item_def)
  have key: "wp (ensureKey E (m + 1)) (\<lambda>_ u. caches_ok E u \<and> dom (addresses s) \<subseteq> dom (addresses u) \<and> m + 1 \<in> dom (addresses u) \<and>
      rest u = rest ?t) (\<lambda>_ _. False) ?t"
    using ensureKey_total [OF h(1) t(2,3) _ t(4), of "m + 1"] m(2,3) assms(3) h(2) by (simp add: stored_ok_def)
  have show_it: "wp (loadReceive E) (\<lambda>_. keeps E (Some ?ow)) (\<lambda>_. keeps E (Some ?ow)) (u\<lparr>activeIndex := i\<rparr>)"
    if "caches_ok E u \<and> dom (addresses s) \<subseteq> dom (addresses u) \<and> m + 1 \<in> dom (addresses u) \<and> rest u = rest ?t" for u i
  proof -
    have "stored_ok E ?ow u" using stored_ok_rest [of u ?t] that t(1) by simp
    moreover have "set ?ixs \<subseteq> dom (addresses u)" using that h(3) by (simp add: ready_def) blast
    then have "ready E ?ow u" using that h(3) ixs by (simp add: ready_def rest_eq)
    ultimately have "keeps E (Some ?ow) u" using that h(1) assms(2) by (simp add: keeps_def owned_def locked_def rest_eq)
    then have "keeps E (Some ?ow) (u\<lparr>activeIndex := i\<rparr>)" by (rule phrase.of_core) (simp add: core_of_def)
    then show ?thesis using phrase.frame_home(3) unfolding pres_wp by blast
  qed
  have "wp (ensureKey E (m + 1)) (\<lambda>_ u. wp (loadReceive E) (\<lambda>_. keeps E (Some ?ow)) (\<lambda>_. keeps E (Some ?ow)) (u\<lparr>activeIndex := m + 1\<rparr>))
      (\<lambda>_. keeps E (Some ?ow)) ?t"
    by (rule wp_mono [OF key], erule show_it, simp)
  then show ?thesis using healthy_fits [OF h(1)] m(1)
    by (simp add: on_new_address_def saveAddressIndices_def addressIndicesStorageKey_def indices_item_def wp_simps Let_def)
qed

section \<open>Loading and deleting\<close>

definition loading :: "env \<Rightarrow> owner option \<Rightarrow> wallet \<Rightarrow> bool" where
  "loading E g s = (healthy E \<and> shut s \<and> first_screen s \<and> \<not> locked s \<and> pendingMnemonic s = None \<and>
     (case g of None \<Rightarrow> blank_store s \<and> net_ok s | Some ow \<Rightarrow> stored_ok E ow s))"

lemma boot_keeps:
  assumes "loading E g s"
  shows "wp (boot E) (\<lambda>_. keeps E g) (\<lambda>_. keeps E g) s"
proof (cases g)
  case None
  with assms have "localStore s ''fic_mnemonic'' = None" "localStore s ''fic_mnemonic_encrypted'' = None"
    by (simp_all add: loading_def blank_store_def)
  then show ?thesis using None assms
    by (simp add: boot_def isPinSet_def wp_simps Let_def item_or_def)
       (simp add: keeps_def owned_def loading_def blank_store_def net_ok_def locked_def shut_def first_screen_def)
next
  case (Some ow)
  with assms have o: "healthy E" "shut s" "stored_ok E ow s" by (simp_all add: loading_def)
  let ?m = "ow_phrase ow"
  have m: "?m \<noteq> []" using o(3) healthy_nonempty [OF o(1)] by (auto simp: stored_ok_def)
  have enter: "wp (enterWallet E) (\<lambda>_. keeps E g) (\<lambda>_. keeps E g) (s\<lparr>mnemonic := Some ?m\<rparr>)"
    unfolding Some using o
    by (intro enterWallet_keeps) (simp add: unlocking_def shut_def stored_ok_def held_def net_ok_def indices_ok_def caches_ok_def coherent_def)
  have lock: "keeps E g (s\<lparr>display := (display s)(''lock-overlay'' := ''flex'')\<rparr>)"
    using o by (simp add: Some keeps_def owned_def locked_def shut_def stored_ok_def held_def net_ok_def indices_ok_def)
  have "held (e_subtle E) (ow_pin ow) ?m s" using o(3) by (simp add: stored_ok_def)
  then consider "localStore s ''fic_mnemonic'' = Some ?m" "localStore s ''fic_mnemonic_encrypted'' = None"
    | raw where "localStore s ''fic_mnemonic_encrypted'' = Some raw"
    by (auto simp: held_def)
  then show ?thesis
    by cases (simp_all add: boot_def isPinSet_def wp_simps Let_def item_or_def m enter lock)
qed

lemma start_keeps:
  assumes "loading E g s"
  shows "wp (start_page E) (\<lambda>_. keeps E g) (\<lambda>_. keeps E g) s"
proof -
  have row: "wp addRecipientRow (\<lambda>_. keeps E g) (\<lambda>_. keeps E g) t" if "keeps E g t" for t
    using phrase.frame_rows(7) that unfolding pres_wp by blast
  have "loading E g (s\<lparr>gateway := u, textContent := f\<rparr>)" for u f using assms
    by (cases g) (simp_all add: loading_def shut_def first_screen_def locked_def blank_store_def net_ok_def stored_ok_def held_def indices_ok_def)
  from boot_keeps [OF this] have "wp (boot E) (\<lambda>_. wp addRecipientRow (\<lambda>_. keeps E g) (\<lambda>_. keeps E g))
      (\<lambda>_. wp addRecipientRow (\<lambda>_. keeps E g) (\<lambda>_. keeps E g)) (s\<lparr>gateway := u, textContent := f\<rparr>)" for u f
    by (rule wp_mono) (simp_all add: row)
  then show ?thesis by (simp add: start_page_def refreshGateway_def wp_simps)
qed

lemma page_start_loading:
  assumes "healthy E" "item_or (store ''fic_network'') ''mainnet'' \<in> {''mainnet'', ''testnet''}"
    "case g of None \<Rightarrow> blank_store (page_start store session sent) | Some ow \<Rightarrow> stored_ok E ow (page_start store session sent)"
  shows "loading E g (page_start store session sent)"
  using assms by (cases g) (auto simp: loading_def shut_def first_screen_def locked_def net_ok_def page_start_def HIDDEN_def screen_id_def)

lemma wp_reload: "wp (reload E) Q F s = wp (start_page E) Q F (page_start (localStore s) (sessionStore s) (requests s))"
  by (simp add: reload_def wp_def)

lemma reload_keeps:
  assumes "keeps E g s"
  shows "wp (reload E) (\<lambda>_. keeps E g) (\<lambda>_. keeps E g) s"
proof -
  have n: "net_ok s" using assms owned_net [of E g s] by (simp add: keeps_def)
  let ?t = "page_start (localStore s) (sessionStore s) (requests s)"
  have t: "localStore ?t = localStore s" "network_name ?t = network_name s" using n by (simp_all add: page_start_def net_ok_def)
  have "loading E g ?t"
  proof (rule page_start_loading)
    show "healthy E" using assms by (simp add: keeps_def)
    show "item_or (localStore s ''fic_network'') ''mainnet'' \<in> {''mainnet'', ''testnet''}" using n by (simp add: net_ok_def)
    show "case g of None \<Rightarrow> blank_store ?t | Some ow \<Rightarrow> stored_ok E ow ?t" using assms
      by (cases g) (simp_all add: keeps_def owned_def blank_store_def stored_ok_def held_def net_ok_def indices_ok_def t)
  qed
  from start_keeps [OF this] show ?thesis unfolding wp_reload .
qed

lemma wipe_keeps:
  assumes "healthy E" "net_ok s"
  shows "wp (on_wipe_wallet E True) (\<lambda>_. keeps E None) (\<lambda>_. keeps E None) s"
proof -
  let ?store = "(localStore s)(''fic_mnemonic'' := None, ''fic_mnemonic_encrypted'' := None, ''fic_address_indices_mainnet'' := None,
    ''fic_address_indices_testnet'' := None, ''fic_address_book'' := None)"
  have "loading E None (page_start ?store session sent)" for session sent
    using assms by (intro page_start_loading) (simp_all add: net_ok_def blank_store_def page_start_def indices_item_def)
  from start_keeps [OF this] show ?thesis by (simp add: on_wipe_wallet_def wp_simps wp_reload)
qed

lemma create_keeps: "keeps E None s \<Longrightarrow> wp (on_create_wallet E) (\<lambda>_. keeps E None) F s"
  by (simp add: on_create_wallet_def wp_simps Let_def keeps_def owned_def blank_store_def net_ok_def locked_def shut_def first_screen_def
      healthy_generated)

section \<open>Runs\<close>

lemma owner_same: "\<not> core_event e \<Longrightarrow> owner_after E e s g = g"
  by (auto simp: owner_after_def core_event_def Let_def
      split: event.splits page_event.splits onboarding_event.splits receive_event.splits settings_event.splits)

lemma first_visit_keeps: "healthy E \<Longrightarrow> keeps E None (snd (start_page E (page_start Map.empty Map.empty [])))"
  using start_keeps [OF page_start_loading [where E = E and g = None and store = Map.empty and session = Map.empty and sent = "[]"]]
  by (simp add: wp_snd blank_store_def page_start_def item_or_def)

lemma none_page:
  assumes "keeps E None s" "enabled (Page x) s" "core_event (Page x)"
  shows "keeps E None (snd (handle_page E x s))"
proof -
  have o: "\<not> locked s" "mnemonic s = None" "first_screen s" using assms(1) by (simp_all add: keeps_def owned_def shut_def)
  show ?thesis using assms o reload_keeps [OF assms(1)]
    by (cases x) (simp_all add: core_event_def enabled_def first_screen_def shown_def wp_snd checkForNewTx_def unlocked_def
      getm_def bindm_def ret_def)
qed

lemma some_page:
  assumes "keeps E (Some ow) s" "enabled (Page x) s" "core_event (Page x)"
  shows "keeps E (Some ow) (snd (handle_page E x s))"
proof -
  have tab: "pres (keeps E (Some ow)) (showScreen E name)" if "name \<in> set (tl SCREENS)" for name
    using that by (intro keeps_showScreen) (auto simp: SCREENS_def)
  have banner: "pres (keeps E (Some ow)) (checkForNewTx E)" "pres (keeps E (Some ow)) on_new_tx_dismiss"
    by (rule phrase.frame_poll; simp)+
  moreover have "pres (keeps E (Some ow)) (on_new_tx_click E)"
    by (simp add: on_new_tx_click_def pres_intros tab banner(2) [unfolded on_new_tx_dismiss_def] SCREENS_def)
  moreover have "keeps E (Some ow) (snd (on_unlock E s))" if "locked s" using unlock_keeps [OF assms(1) that] by (simp add: wp_snd)
  ultimately show ?thesis using assms tab reload_keeps [OF assms(1)]
    by (cases x) (auto simp: core_event_def enabled_def wp_snd pres_def on_lock_key_def whenm_def ret_def)
qed

lemma none_core:
  assumes "keeps E None s" "enabled e s" "core_event e"
  shows "keeps E (owner_after E e s None) (snd (handle E e s))"
proof -
  have off: "\<not> active s (screen_id n)" if "n \<noteq> ''onboarding''" for n
    using assms(1) that by (simp add: keeps_def owned_def first_screen_def)
  show ?thesis
  proof (cases e)
    case (Page x)
    then have "owner_after E e s None = None" by (simp add: owner_after_def)
    with Page none_page [OF assms(1), of x] assms(2,3) show ?thesis by simp
  next
    case (Onboarding x)
    then show ?thesis using assms(3) create_keeps [OF assms(1), of "\<lambda>_. keeps E None"] quiz_registered [OF assms(1)] restore_registered [OF assms(1)]
      by (cases x) (simp_all add: core_event_def owner_after_def Let_def wp_snd registered_def new_owner_def [abs_def])
  next
    case (Receive x)
    then show ?thesis using assms(2) off by (simp add: enabled_def)
  next
    case (Settings x)
    then show ?thesis using assms(2) off by (cases x) (simp_all add: enabled_def)
  qed (use assms(3) in \<open>simp_all add: core_event_def\<close>)
qed

lemma some_settings:
  assumes "keeps E (Some ow) s" "enabled (Settings x) s" "core_event (Settings x)"
  shows "keeps E (owner_after E (Settings x) s (Some ow)) (snd (handle_settings E x s))"
proof -
  have u: "\<not> locked s" using assms(2) by (cases x) (simp_all add: enabled_def)
  show ?thesis
  proof (cases x)
    case (SwitchNetwork tn)
    then show ?thesis using switchNetwork_keeps [OF assms(1) u, of "if tn then ''testnet'' else ''mainnet''"]
      by (simp add: owner_after_def wp_snd)
  next
    case SetPin
    then show ?thesis using set_pin_keeps [OF assms(1) u, unfolded wp_snd] by (simp add: owner_after_def Let_def split: if_splits)
  next
    case RemovePin
    then show ?thesis using remove_pin_keeps [OF assms(1) u] by (simp add: owner_after_def wp_snd)
  next
    case LockNow
    then show ?thesis using keeps_lock_now [OF assms(1), of "\<lambda>_. keeps E (Some ow)"] by (simp add: owner_after_def wp_snd)
  next
    case (Wipe c)
    have "healthy E" "net_ok s" using assms(1) owned_net [of E "Some ow" s] by (simp_all add: keeps_def)
    from wipe_keeps [OF this] show ?thesis using Wipe assms(1)
      by (cases c) (simp_all add: owner_after_def wp_snd on_wipe_wallet_def whenm_def ret_def)
  qed (use assms(3) in \<open>simp_all add: core_event_def\<close>)
qed

lemma some_core:
  assumes "keeps E (Some ow) s" "enabled e s" "core_event e" "within_bip32 (owner_after E e s (Some ow))"
  shows "keeps E (owner_after E e s (Some ow)) (snd (handle E e s))"
proof (cases e)
  case (Page x)
  then have "owner_after E e s (Some ow) = Some ow" by (simp add: owner_after_def)
  with Page some_page [OF assms(1), of x] assms(2,3) show ?thesis by simp
next
  case (Onboarding x)
  have "\<not> locked s \<Longrightarrow> \<not> active s (screen_id ''onboarding'')" using assms(1) by (simp add: keeps_def owned_def ready_def)
  then show ?thesis using assms(2) Onboarding by (cases x) (simp_all add: enabled_def)
next
  case (Receive x)
  then show ?thesis using assms(2-4) new_address_keeps [OF assms(1)]
    by (cases x) (simp_all add: core_event_def enabled_def owner_after_def within_bip32_def wp_snd)
next
  case (Settings x)
  then show ?thesis using some_settings [OF assms(1), of x] assms(2,3) by simp
qed (use assms(3) in \<open>simp_all add: core_event_def\<close>)

lemma keeps_run: "run E g s \<Longrightarrow> healthy E \<Longrightarrow> keeps E g s"
proof (induction rule: run.induct)
  case first_visit
  then show ?case by (rule first_visit_keeps)
next
  case (event g s e)
  then have k: "keeps E g s" by simp
  show ?case
  proof (cases "core_event e")
    case True
    then show ?thesis using event k none_core [of E s e] some_core [of E _ s e] by (cases g) simp_all
  next
    case False
    then have "pres (keeps E g) (handle E e)" by (intro phrase.frame_handle) simp_all
    then show ?thesis using k owner_same [where E = E and s = s and g = g, OF False] by (simp add: pres_def)
  qed
qed

section \<open>What a run guarantees\<close>

lemma held_has_phrase:
  assumes "healthy E" "held (e_subtle E) pin m s"
  shows "has_phrase (e_subtle E) pin m s"
  using assms encrypted_opens [OF healthy_gcm(1) [OF assms(1)], of m pin] by (auto simp: held_def has_phrase_def)



text \<open>A run that restores a wallet.\<close>

lemma sample_parts: "e_bip sample_env = sample_bip" "e_subtle sample_env = sample_subtle" "e_ripemd160 sample_env x = replicate 20 1"
  "p_fits sample_env st"
  by (simp_all add: sample_env_def platform.defs sample_platform_def)

lemma sample_auth: "gcm_auth sample_subtle"
  by (auto simp: gcm_auth_def sample_subtle_def split: if_splits)

lemma sample_healthy: "healthy sample_env"
  by (simp add: healthy_def sample_parts sample_gcm sample_auth)
     (simp add: isValidMnemonic_def generateMnemonic_def deriveKey_def sample_bip_def Let_def)

lemma first_page:
  assumes "s = snd (start_page sample_env (page_start Map.empty Map.empty []))"
  shows "active s (screen_id ''onboarding'')" "\<not> locked s" "shown s ''btn-show-restore''"
proof -
  have "wp (start_page sample_env) (\<lambda>_ t. active t (screen_id ''onboarding'') \<and> \<not> locked t \<and> shown t ''btn-show-restore'')
      (\<lambda>_ t. active t (screen_id ''onboarding'') \<and> \<not> locked t \<and> shown t ''btn-show-restore'') (page_start Map.empty Map.empty [])"
    by (simp add: start_page_def boot_def isPinSet_def refreshGateway_def addRecipientRow_def updateRecipientRemoveButtons_def
        wp_simps Let_def item_or_def page_start_def locked_def shown_def HIDDEN_def screen_id_def)
  then show "active s (screen_id ''onboarding'')" "\<not> locked s" "shown s ''btn-show-restore''" by (simp_all add: wp_snd assms)
qed

lemma restore_remembers:
  assumes "inputValue s ''restore-mnemonic'' = m" "js_trim m = m" "isValidMnemonic (e_bip E) m" "\<And>st. p_fits E st"
  shows "mnemonic (snd (on_restore_confirm E s)) = Some m"
proof -
  have "wp (enterWallet E) (\<lambda>_ t. mnemonic t = Some m) (\<lambda>_ t. mnemonic t = Some m) t" if "mnemonic t = Some m" for t
    using enterWallet_memory [of "Some m" E] that unfolding pres_wp remembers_def by blast
  then have "wp (on_restore_confirm E) (\<lambda>_ t. mnemonic t = Some m) (\<lambda>_ t. mnemonic t = Some m) s"
    using assms by (simp add: on_restore_confirm_def new_wallet_def saveAddressIndices_def addressIndicesStorageKey_def wp_simps Let_def)
  then show ?thesis by (simp add: wp_snd)
qed

lemma sample_run: "\<exists>s. run sample_env (Some (new_owner ''abandon'')) s"
proof -
  define s where "s = snd (start_page sample_env (page_start Map.empty Map.empty []))"
  define t where "t = s\<lparr>inputValue := (inputValue s)(''restore-mnemonic'' := ''abandon'')\<rparr>"
  define u where "u = t\<lparr>display := (display t)(''restore-card'' := ''block'')\<rparr>"
  have s: "run sample_env None s" unfolding s_def by (rule run.first_visit)
  note f = first_page [OF s_def]
  have "run sample_env None t"
    using run.event [OF s, of "Page (Type ''restore-mnemonic'' ''abandon'')"]
    by (simp add: enabled_def owner_after_def within_bip32_def t_def set_value_def modm_def)
  moreover have "enabled (Onboarding ShowRestore) t" using f by (simp add: enabled_def t_def locked_def shown_def)
  ultimately have u: "run sample_env None u" using run.event [of sample_env None t "Onboarding ShowRestore"]
    by (simp add: owner_after_def within_bip32_def on_show_restore_def set_display_def modm_def u_def)
  have "js_trim ''abandon'' = ''abandon''" by code_simp
  then have "mnemonic (snd (on_restore_confirm sample_env u)) = Some ''abandon''"
    by (intro restore_remembers)
       (simp_all add: u_def t_def sample_parts sample_bip_def isValidMnemonic_def)
  moreover have "enabled (Onboarding RestoreConfirm) u" using f by (simp add: enabled_def u_def t_def locked_def shown_def)
  ultimately show ?thesis using run.event [OF u, of "Onboarding RestoreConfirm"]
    by (auto simp: owner_after_def within_bip32_def Let_def new_owner_def)
qed



end
