(* ===== verification/Js_Format.thy ===== *)
theory Js_Format
  imports Wallet_Text Base58
begin

text \<open>
  Formatting of numbers, dates and URLs the block explorer uses: \<open>toLocaleString\<close> for
  \<open>en-US\<close>, \<open>toPrecision\<close>, \<open>toFixed\<close>, \<open>toISOString\<close> and \<open>encodeURIComponent\<close>. Text with characters
  beyond the code unit 255 is a list of code units.
\<close>

type_synonym html = "nat list"

section \<open>Digits in groups\<close>

text \<open>Commas between groups of three digits, from the last digit on.\<close>

fun comma_groups :: "string \<Rightarrow> string" where
  "comma_groups (a # b # c # d # ds) = a # b # c # CHR '','' # comma_groups (d # ds)"
| "comma_groups ds = ds"

definition group_digits :: "string \<Rightarrow> string" where
  "group_digits ds = rev (comma_groups (rev ds))"

definition bigint_locale :: "int \<Rightarrow> string" where
  "bigint_locale n = (if n < 0 then ''-'' else []) @ group_digits (js_toString 10 \<bar>n\<bar>)"

text \<open>
  A number has at most three decimals, rounded half away from zero, without trailing zeros.
\<close>

definition round_half_up :: "rat \<Rightarrow> int" where
  "round_half_up x = \<lfloor>x + 1 / 2\<rfloor>"

definition locale_fraction :: "nat list \<Rightarrow> string" where
  "locale_fraction ds = (let t = strip_zeros ds in if t = [] then [] else CHR ''.'' # map digit_char t)"

fun number_locale :: "jsnum \<Rightarrow> html" where
  "number_locale NaN = units ''NaN''"
| "number_locale (Infinity pos) = units (if pos then [] else ''-'') @ [0x221E]"
| "number_locale (Fin x) =
     (let n = round_half_up (\<bar>x\<bar> * 1000); frac = to_base 10 (n mod 1000)
      in units ((if x < 0 then ''-'' else []) @ group_digits (js_toString 10 (n div 1000)) @
           locale_fraction (replicate (3 - length frac) 0 @ frac)))"

lemma mapr_cong [fundef_cong]: "xs = ys \<Longrightarrow> (\<And>x. x \<in> set ys \<Longrightarrow> f x = g x) \<Longrightarrow> mapr f xs = mapr g ys"
proof (induction ys arbitrary: xs)
  case (Cons y ys)
  then show ?case using Cons.IH [of ys] by simp
qed simp

text \<open>
  \<open>v.toLocaleString("en-US")\<close>; an object's own entry of that name is not a function.
\<close>

fun html_join :: "html \<Rightarrow> html list \<Rightarrow> html" where
  "html_join d [] = []"
| "html_join d [w] = w"
| "html_join d (w # v # ws) = w @ d @ html_join d (v # ws)"

function js_toLocaleString :: "jsval \<Rightarrow> html result" where
  "js_toLocaleString JUndef = Inl TypeError"
| "js_toLocaleString JNull = Inl TypeError"
| "js_toLocaleString (JBool b) = Inr (units (js_String (JBool b)))"
| "js_toLocaleString (JNum n) = Inr (number_locale n)"
| "js_toLocaleString (JStr s) = Inr (units s)"
| "js_toLocaleString (JArr vs) =
     bindr (mapr (\<lambda>v. if nullish v then Inr [] else js_toLocaleString v) vs) (\<lambda>ts. Inr (html_join (units '','') ts))"
| "js_toLocaleString (JObj kvs) =
     (if map_of kvs ''toLocaleString'' = None then Inr (units ''[object Object]'') else Inl TypeError)"
  by pat_completeness auto
termination by (relation "measure size") (auto simp: less_Suc_eq_le size_list_estimation')

section \<open>Rounded decimals\<close>

text \<open>
  \<open>toFixed(f)\<close> and \<open>toPrecision(p)\<close>: the nearest decimal, the larger of two equally near ones, of the
  number's absolute value.
\<close>

definition pad_digits :: "nat \<Rightarrow> nat list \<Rightarrow> nat list" where
  "pad_digits n ds = replicate (n - length ds) 0 @ ds"

definition minus_text :: "rat \<Rightarrow> string" where
  "minus_text x = (if x < 0 then ''-'' else [])"

fun js_toFixed :: "nat \<Rightarrow> jsnum \<Rightarrow> string" where
  "js_toFixed f (Fin x) =
     (if 10 ^ 21 \<le> \<bar>x\<bar> then js_numToString (Fin x)
      else
        let ds = pad_digits (f + 1) (to_base 10 (round_half_up (\<bar>x\<bar> * 10 ^ f))); k = length ds - f
        in minus_text x @ decimal_text (take k ds) (drop k ds))"
| "js_toFixed f n = js_numToString n"

text \<open>The digits and the exponent of the first one, when \<open>0 < x\<close>.\<close>

definition precision_digits :: "nat \<Rightarrow> rat \<Rightarrow> int \<times> int" where
  "precision_digits p x =
     (let e = dec_exp x - 1; n = round_half_up (x / pow10 (e - int p + 1))
      in if n = 10 ^ p then (10 ^ (p - 1), e + 1) else (n, e))"

definition precision_text :: "nat \<Rightarrow> nat list \<Rightarrow> int \<Rightarrow> string" where
  "precision_text p ds e =
     (if e < - 6 \<or> int p \<le> e then decimal_text (take 1 ds) (drop 1 ds) @ exponent_text e
      else if 0 \<le> e then decimal_text (take (nat e + 1) ds) (drop (nat e + 1) ds)
      else decimal_text [0] (replicate (nat (- e - 1)) 0 @ ds))"

fun js_toPrecision :: "nat \<Rightarrow> jsnum \<Rightarrow> string" where
  "js_toPrecision p (Fin x) =
     (if x = 0 then precision_text p (replicate p 0) 0
      else let (n, e) = precision_digits p \<bar>x\<bar> in minus_text x @ precision_text p (to_base 10 n) e)"
| "js_toPrecision p n = js_numToString n"

section \<open>Dates\<close>

text \<open>
  Days since 1970-01-01 in the proleptic Gregorian calendar. The first guess for the year of a day is off by
  at most one.
\<close>

definition leap_year :: "int \<Rightarrow> bool" where
  "leap_year y = (y mod 4 = 0 \<and> (y mod 100 \<noteq> 0 \<or> y mod 400 = 0))"

definition year_start :: "int \<Rightarrow> int" where
  "year_start y = 365 * (y - 1970) + (y - 1969) div 4 - (y - 1901) div 100 + (y - 1601) div 400"

definition year_of_day :: "int \<Rightarrow> int" where
  "year_of_day d =
     (let y = 1970 + (400 * d) div 146097
      in if d < year_start y then y - 1 else if year_start (y + 1) \<le> d then y + 1 else y)"

definition month_lengths :: "bool \<Rightarrow> int list" where
  "month_lengths leap = [31, if leap then 29 else 28, 31, 30, 31, 30, 31, 31, 30, 31, 30, 31]"

text \<open>The month and day of a year, both counted from zero.\<close>

fun month_of_day :: "int list \<Rightarrow> int \<Rightarrow> nat \<times> int" where
  "month_of_day [] d = (0, d)"
| "month_of_day (l # ls) d = (if d < l then (0, d) else let (m, r) = month_of_day ls (d - l) in (m + 1, r))"

definition padded :: "nat \<Rightarrow> int \<Rightarrow> string" where
  "padded n i = js_padStart n (CHR ''0'') (js_toString 10 i)"

definition year_text :: "int \<Rightarrow> string" where
  "year_text y =
     (if 0 \<le> y \<and> y \<le> 9999 then padded 4 y else (if y < 0 then ''-'' else ''+'') @ padded 6 \<bar>y\<bar>)"

text \<open>\<open>new Date(t).toISOString()\<close> of a time in milliseconds.\<close>

definition iso_text :: "int \<Rightarrow> string" where
  "iso_text t =
     (let d = t div 86400000; ms = t mod 86400000; y = year_of_day d;
          (m, k) = month_of_day (month_lengths (leap_year y)) (d - year_start y)
      in year_text y @ ''-'' @ padded 2 (int m + 1) @ ''-'' @ padded 2 (k + 1) @ ''T'' @
         padded 2 (ms div 3600000) @ '':'' @ padded 2 (ms div 60000 mod 60) @ '':'' @ padded 2 (ms div 1000 mod 60) @
         ''.'' @ padded 3 (ms mod 1000) @ ''Z'')"

definition toISOString :: "jsnum \<Rightarrow> string result" where
  "toISOString t =
     (case t of
        Fin x \<Rightarrow> if \<bar>x\<bar> \<le> 8640000000000000 then Inr (iso_text (if x < 0 then \<lceil>x\<rceil> else \<lfloor>x\<rfloor>)) else Inl RangeError
      | _ \<Rightarrow> Inl RangeError)"

text \<open>\<open>s.replace(a, b)\<close> of texts: the first occurrence only.\<close>

fun js_replace_first :: "string \<Rightarrow> string \<Rightarrow> string \<Rightarrow> string" where
  "js_replace_first a b [] = (if a = [] then b else [])"
| "js_replace_first a b (c # s) =
     (if js_startsWith (c # s) a then b @ drop (length a) (c # s) else c # js_replace_first a b s)"

section \<open>\<open>encodeURIComponent\<close>\<close>

definition uri_unreserved :: "nat \<Rightarrow> bool" where
  "uri_unreserved b =
     (48 \<le> b \<and> b \<le> 57 \<or> 65 \<le> b \<and> b \<le> 90 \<or> 97 \<le> b \<and> b \<le> 122 \<or> b \<in> set (units (''-_.!~*()'' @ [CHR 0x27])))"

definition hex_upper :: "nat \<Rightarrow> char" where
  "hex_upper d = char_of (if d < 10 then 48 + d else 55 + d)"

definition percent :: "nat \<Rightarrow> string" where
  "percent b = [CHR ''%'', hex_upper (b div 16), hex_upper (b mod 16)]"

definition uri_encode_byte :: "nat \<Rightarrow> string" where
  "uri_encode_byte b = (if uri_unreserved b then [char_of b] else percent b)"

definition encodeURIComponent :: "string \<Rightarrow> string" where
  "encodeURIComponent s =
     concat (map uri_encode_byte (map unat (text_encode (units s))))"

section \<open>Reading back\<close>

lemma comma_groups_plain: "CHR '','' \<notin> set ds \<Longrightarrow> filter (\<lambda>c. c \<noteq> CHR '','') (comma_groups ds) = ds"
  by (induction ds rule: comma_groups.induct) auto

lemma group_digits_plain: "CHR '','' \<notin> set ds \<Longrightarrow> filter (\<lambda>c. c \<noteq> CHR '','') (group_digits ds) = ds"
  using comma_groups_plain [of "rev ds"] by (simp add: group_digits_def rev_filter [symmetric])

lemma div_next:
  fixes n k :: int
  assumes "0 < k"
  shows "(n + 1) div k = n div k + (if (n + 1) mod k = 0 then 1 else 0)"
proof -
  have r: "0 \<le> n mod k" "n mod k < k" "n + 1 = k * (n div k) + (n mod k + 1)" using assms by (simp_all add: algebra_simps)
  show ?thesis
  proof (cases "n mod k + 1 = k")
    case True
    then have "n + 1 = k * (n div k + 1)" using r(3) by (simp add: algebra_simps)
    then show ?thesis using assms by simp
  next
    case False
    then have "n mod k + 1 < k" using r(2) by simp
    then have "(n + 1) div k = n div k" "(n + 1) mod k = n mod k + 1"
      using int_div_pos_eq [OF r(3)] int_mod_pos_eq [OF r(3)] r(1) by simp_all
    then show ?thesis using r(1) by simp
  qed
qed

lemma year_start_step: "year_start (y + 1) = year_start y + (if leap_year y then 366 else 365)"
proof -
  have step: "(y + 1 - c) div k = (y - c) div k + (if y mod k = 0 then 1 else 0)" if "0 < k" "c = 1 + k * j" for c k j :: int
  proof -
    have "(y - c + 1) mod k = y mod k" using mod_mult_self2 [of y k "- j"] by (simp add: that(2))
    then show ?thesis using div_next [OF that(1), of "y - c"] by (simp only: diff_add_eq)
  qed
  have four: "y mod 100 = 0 \<longrightarrow> y mod 4 = 0" "y mod 400 = 0 \<longrightarrow> y mod 100 = 0"
    using dvd_trans [of 4 100 y] dvd_trans [of 100 400 y] by (simp_all add: dvd_eq_mod_eq_0 [symmetric])
  have d4: "(y + 1 - 1969) div 4 = (y - 1969) div 4 + (if y mod 4 = 0 then 1 else 0)" by (rule step [of 4 1969 492]) simp_all
  have d100: "(y + 1 - 1901) div 100 = (y - 1901) div 100 + (if y mod 100 = 0 then 1 else 0)"
    by (rule step [of 100 1901 19]) simp_all
  have d400: "(y + 1 - 1601) div 400 = (y - 1601) div 400 + (if y mod 400 = 0 then 1 else 0)"
    by (rule step [of 400 1601 4]) simp_all
  have sum: "365 * (y + 1 - 1970) + a' - b' + c' = 365 * (y - 1970) + a - b + c + (if p \<and> (\<not> q \<or> r) then 366 else 365)"
    if "a' = a + (if p then 1 else 0)" "b' = b + (if q then 1 else 0)" "c' = c + (if r then 1 else 0)" "q \<longrightarrow> p" "r \<longrightarrow> q"
    for a b c a' b' c' :: int and p q r
    using that by (cases p; cases q; cases r) simp_all
  show ?thesis unfolding year_start_def leap_year_def by (rule sum [OF d4 d100 d400 four])
qed

lemma div_bounds:
  fixes n k :: int
  assumes "0 < k"
  shows "k * (n div k) \<le> n \<and> n < k * (n div k) + k"
  using assms mult_div_mod_eq [of k n] pos_mod_bound [of k n] pos_mod_sign [of k n] by linarith

lemma year_start_bounds: "146097 * (y - 1970) - 506 \<le> 400 * year_start y \<and> 400 * year_start y \<le> 146097 * (y - 1970) + 589"
  using div_bounds [of 4 "y - 1969"] div_bounds [of 100 "y - 1901"] div_bounds [of 400 "y - 1601"] unfolding year_start_def by simp

lemma year_of_day_spec: "year_start (year_of_day d) \<le> d \<and> d < year_start (year_of_day d + 1)"
proof -
  define y where "y = 1970 + (400 * d) div 146097"
  have "146097 * (y - 1970) \<le> 400 * d" "400 * d < 146097 * (y - 1970) + 146097"
    using div_bounds [of 146097 "400 * d"] by (simp_all add: y_def)
  then have "year_start (y - 1) \<le> d" "d < year_start (2 + y)"
    using year_start_bounds [of "y - 1"] year_start_bounds [of "2 + y"] by simp_all
  then show ?thesis by (simp add: year_of_day_def y_def [symmetric] Let_def)
qed

lemma month_of_day_spec:
  assumes "0 \<le> d" "d < sum_list ls" "month_of_day ls d = (m, r)"
  shows "m < length ls \<and> 0 \<le> r \<and> r < ls ! m \<and> sum_list (take m ls) + r = d"
  using assms
proof (induction ls arbitrary: d m)
  case (Cons l ls)
  show ?case
  proof (cases "d < l")
    case False
    then obtain m' where m': "month_of_day ls (d - l) = (m', r)" "m = m' + 1" using Cons.prems(3) by (auto split: prod.splits)
    with Cons.IH [of "d - l" m'] Cons.prems False show ?thesis by auto
  qed (use Cons.prems in auto)
qed simp

text \<open>What is encoded for a URL is decoded to the same text.\<close>

lemma digit_val_hex_upper: "d < 16 \<Longrightarrow> digit_val (hex_upper d) = Some d"
  by (auto simp: digit_val_def hex_upper_def Let_def)

lemma hex_upper_code: "d < 16 \<Longrightarrow> (of_char (hex_upper d) :: nat) = (if d < 10 then 48 + d else 55 + d)"
  by (simp add: hex_upper_def)

lemma unreserved_ascii: "uri_unreserved b \<Longrightarrow> b < 128 \<and> b \<noteq> 37 \<and> b \<noteq> 43"
  by (auto simp: uri_unreserved_def units_def)

lemma uri_encode_chars:
  assumes "b < 256" "c \<in> set (uri_encode_byte b)"
  shows "(of_char c :: nat) < 128 \<and> c \<noteq> CHR ''+''"
proof (cases "uri_unreserved b")
  case True
  then have "(of_char c :: nat) = b" using assms by (simp add: uri_encode_byte_def)
  moreover have "(of_char (CHR ''+'') :: nat) = 43" by simp
  ultimately show ?thesis using unreserved_ascii [OF True] by metis
next
  case False
  have "(of_char (hex_upper d) :: nat) < 128 \<and> hex_upper d \<noteq> CHR ''+''" if "d < 16" for d
    using hex_upper_code [OF that] that by (auto split: if_splits)
  moreover have "b div 16 < 16" "b mod 16 < 16" using assms(1) by auto
  ultimately show ?thesis using False assms(2) by (auto simp: uri_encode_byte_def percent_def)
qed

lemma percent_decode_encode:
  "\<forall>b \<in> set bs. b < 256 \<Longrightarrow> percent_decode (units (concat (map uri_encode_byte bs))) = bs"
proof (induction bs)
  case (Cons b bs)
  then have h: "b div 16 < 16" "b mod 16 < 16" by auto
  show ?case
  proof (cases "uri_unreserved b")
    case True
    with unreserved_ascii [OF True] Cons show ?thesis by (simp add: uri_encode_byte_def units_def)
  next
    case False
    with Cons digit_val_hex_upper [OF h(1)] digit_val_hex_upper [OF h(2)] h show ?thesis
      by (simp add: uri_encode_byte_def percent_def units_def)
  qed
qed (simp add: units_def)

lemma encodeURIComponent_read: "form_decode (encodeURIComponent s) = s"
proof -
  let ?bs = "map unat (text_encode (units s))" and ?out = "encodeURIComponent s"
  have o: "?out = concat (map uri_encode_byte ?bs)" by (simp only: encodeURIComponent_def)
  have b: "\<forall>b \<in> set ?bs. b < 256" using unat_byte_less by auto
  have c: "(of_char c :: nat) < 128 \<and> c \<noteq> CHR ''+''" if "c \<in> set ?out" for c
    using that uri_encode_chars b unfolding o by fastforce
  have plus: "map (\<lambda>c. if c = CHR ''+'' then CHR '' '' else c) ?out = ?out" using c by (intro map_idI) auto
  have "\<forall>u \<in> set (units ?out). u < 128" using c by (auto simp: units_def)
  then have "form_decode ?out = units_string (from_scalars (utf8_run utf8_init ?bs))"
    unfolding form_decode_def plus using percent_decode_encode [OF b] unfolding o [symmetric] by (simp only: ascii_units)
  moreover have sc: "\<forall>c \<in> set (to_scalars (units s)). is_scalar c" and w: "wf_units (units s)"
    using utf8_safe_units [of s] to_scalars_scalar by (auto simp: utf8_safe_def)
  then have "?bs = concat (map utf8_scalar (to_scalars (units s)))"
    unfolding text_encode_def by (intro unat_of_nat_octets) (auto dest: utf8_scalar_octets)
  ultimately show ?thesis using sc w by (simp add: utf8_run_encode from_to_scalars)
qed

text \<open>Dates: the digits of a date and a time, read back by counting the days of the years and months before.\<close>

lemma padded_spec:
  assumes "0 \<le> i" "i < 10 ^ n" "0 < n"
  shows "length (padded n i) = n" "list_all dec_digit (padded n i)" "dec_val (padded n i) = i"
proof -
  obtain ds where ds: "padded n i = map digit_char ds" "digits_ok ds" "length ds = n" "from_base 10 ds = i"
    using padded_digits [OF assms] by (auto simp: padded_def)
  then show "length (padded n i) = n" "list_all dec_digit (padded n i)" "dec_val (padded n i) = i"
    using dec_val_digits [OF ds(2)] by (auto simp: digits_ok_def list_all_iff dec_digit_char)
qed

lemma replace_first:
  assumes "c \<notin> set p"
  shows "js_replace_first (c # a) b (p @ (c # a) @ r) = p @ b @ r"
  using assms by (induction p) (auto simp: js_startsWith_def)

definition days_to_year :: "int \<Rightarrow> int" where
  "days_to_year y = (\<Sum>k\<leftarrow>[1970..y - 1]. if leap_year k then 366 else 365)"

lemma days_to_year: "0 \<le> n \<Longrightarrow> days_to_year (1970 + n) = year_start (1970 + n)"
proof (induction n rule: int_ge_induct)
  case base
  show ?case by (simp add: days_to_year_def year_start_def)
next
  case (step n)
  have "[1970..1970 + (n + 1) - 1] = [1970..1970 + n - 1] @ [1970 + n]"
    using upto_rec2 [of 1970 "1970 + n"] step(1) by (simp add: algebra_simps)
  then have "days_to_year (1970 + (n + 1)) = days_to_year (1970 + n) + (if leap_year (1970 + n) then 366 else 365)"
    unfolding days_to_year_def by simp
  then show ?case using step(2) year_start_step [of "1970 + n"] by (simp add: algebra_simps)
qed

definition read_utc :: "string \<Rightarrow> int" where
  "read_utc t =
     (let n = \<lambda>i k. dec_val (take k (drop i t)); y = n 0 4;
          d = days_to_year y + sum_list (take (nat (n 5 2 - 1)) (month_lengths (leap_year y))) + (n 8 2 - 1)
      in d * 86400 + n 11 2 * 3600 + n 14 2 * 60 + n 17 2)"

lemma year_of_day_range:
  assumes "0 \<le> d" "d < 2932897"
  shows "1970 \<le> year_of_day d \<and> year_of_day d \<le> 9999"
proof -
  let ?y = "year_of_day d"
  have y: "year_start ?y \<le> d" "d < year_start (?y + 1)" using year_of_day_spec by simp_all
  have "year_start 1970 = 0" "year_start 10000 = 2932897" by (simp_all add: year_start_def)
  then have "?y + 1 \<noteq> 1970" "?y \<noteq> 10000" using y assms by auto
  moreover have "1969 < ?y + 1" using y(2) assms(1) year_start_bounds [of "?y + 1"] by simp
  moreover have "?y < 10001" using y(1) assms(2) year_start_bounds [of ?y] by simp
  ultimately show ?thesis by linarith
qed

lemma month_total: "sum_list (month_lengths l) = (if l then 366 else 365)" "length (month_lengths l) = 12"
  by (simp_all add: month_lengths_def)

lemma month_length_bound: "m < 12 \<Longrightarrow> month_lengths l ! m \<le> 31"
  by (auto simp: month_lengths_def less_Suc_eq numeral_eq_Suc nth_Cons')

lemma day_date:
  assumes "0 \<le> d" "d < 2932897"
  shows "\<exists>y m k. year_of_day d = y \<and> month_of_day (month_lengths (leap_year y)) (d - year_start y) = (m, k) \<and> 1970 \<le> y \<and> y \<le> 9999 \<and>
    m < 12 \<and> 0 \<le> k \<and> k < 31 \<and> days_to_year y + sum_list (take m (month_lengths (leap_year y))) + k = d"
proof -
  define y where "y = year_of_day d"
  have y: "1970 \<le> y" "y \<le> 9999" "year_start y \<le> d" "d < year_start (y + 1)"
    using year_of_day_range [OF assms] year_of_day_spec [of d] by (simp_all add: y_def)
  obtain m k where mk: "month_of_day (month_lengths (leap_year y)) (d - year_start y) = (m, k)" by (cases rule: prod.exhaust)
  have "m < 12 \<and> 0 \<le> k \<and> k < month_lengths (leap_year y) ! m \<and> sum_list (take m (month_lengths (leap_year y))) + k = d - year_start y"
    using month_of_day_spec [OF _ _ mk] y(3,4) year_start_step [of y] by (simp add: month_total)
  moreover from this have "k < 31" using month_length_bound [of m "leap_year y"] by linarith
  ultimately show ?thesis using mk y(1,2) days_to_year [of "y - 1970"] unfolding y_def by auto
qed

end
