(* ===== verification/Explorer.thy ===== *)
theory Explorer
  imports Js_Format Browser
begin

text \<open>
  The block explorer's page (\<open>firstislamiccoin-explorer/app.js\<close>). Every page is loaded by a
  function that shows a notice, asks the API and, when the answer arrives, replaces the page. The part before
  the answer and the part after it are separate steps, so that loads can overlap; the answer
  that will arrive is kept with the load.
\<close>

section \<open>Texts\<close>

text \<open>\<open>BigInt\<close> quotients truncate, whatever the divisor's sign.\<close>

definition big_quot :: "int \<Rightarrow> int \<Rightarrow> int" where
  "big_quot a b = sgn a * sgn b * (\<bar>a\<bar> div \<bar>b\<bar>)"

definition explorerFormatFic :: "int \<Rightarrow> string" where
  "explorerFormatFic s =
     (let neg = s < 0; a = (if neg then - s else s); whole = big_div a COIN;
          frac = js_padStart 8 (CHR ''0'') (js_toString 10 (big_mod a COIN))
      in (if neg then ''-'' else []) @ bigint_locale whole @ ''.'' @ frac)"

definition formatTime :: "jsval \<Rightarrow> string result" where
  "formatTime unixSeconds =
     (if \<not> js_truthy unixSeconds then Inr ''-''
      else bindr (toISOString (js_mul (js_toNumber unixSeconds) (Fin 1000))) (\<lambda>t.
        Inr (js_replace_first ''.000Z'' '' UTC'' (js_replace_first ''T'' '' '' t))))"

text \<open>Strings and arrays have a length and slices.\<close>

definition ellipsis :: html where
  "ellipsis = [0x2026]"

definition shorten :: "jsval \<Rightarrow> int \<Rightarrow> html result" where
  "shorten hash n =
     (if \<not> js_truthy hash then Inr (units ''-'')
      else bindr (js_get hash ''length'') (\<lambda>l.
        if js_less (Fin (of_int (n * 2))) (js_toNumber l) then
          (case hash of
             JStr s \<Rightarrow> Inr (units (js_slice 0 n s) @ ellipsis @ units (js_slice_from (- n) s))
           | JArr vs \<Rightarrow> Inr (units (js_String (JArr (js_slice 0 n vs))) @ ellipsis @ units (js_String (JArr (js_slice_from (- n) vs))))
           | _ \<Rightarrow> Inl TypeError)
        else Inr (units (js_String hash))))"

section \<open>Templates\<close>

text \<open>A template literal: lines of fixed texts and holes, evaluated in order.\<close>

definition lit :: "string \<Rightarrow> html result" where
  "lit s = Inr (units s)"

definition line :: "html result list \<Rightarrow> html result" where
  "line ps = bindr (mapr (\<lambda>p. p) ps) (\<lambda>ts. Inr (concat ts))"

definition html_lines :: "html result list \<Rightarrow> html result" where
  "html_lines ls = bindr (mapr (\<lambda>l. l) ls) (\<lambda>ts. Inr (html_join [10] ts))"

definition str :: "jsval \<Rightarrow> html result" where
  "str v = Inr (units (js_String v))"

definition field_str :: "jsval \<Rightarrow> string \<Rightarrow> html result" where
  "field_str v k = bindr (js_get v k) str"

definition fic :: "jsval \<Rightarrow> html result" where
  "fic v = bindr (js_toBigInt v) (\<lambda>n. lit (explorerFormatFic n))"

definition field_fic :: "jsval \<Rightarrow> string \<Rightarrow> html result" where
  "field_fic v k = bindr (js_get v k) fic"

definition field_short :: "jsval \<Rightarrow> string \<Rightarrow> int \<Rightarrow> html result" where
  "field_short v k n = bindr (js_get v k) (\<lambda>x. shorten x n)"

text \<open>\<open>list.map(row).join("")\<close>\<close>

definition rows_html :: "(nat \<Rightarrow> jsval \<Rightarrow> html result) \<Rightarrow> jsval \<Rightarrow> html result" where
  "rows_html row v =
     bindr (js_array v) (\<lambda>vs. bindr (mapr (\<lambda>(i, x). row i x) (zip [0..<length vs] vs)) (\<lambda>ts. Inr (concat ts)))"

definition detail_row :: "string \<Rightarrow> string \<Rightarrow> html result list \<Rightarrow> html result" where \<open>
  detail_row k cls ps =
    line ([lit (''        <div class="detail-row"><span class="k">'' @ k @ ''</span><span class="'' @ cls @ ''">'')] @ ps @
      [lit ''</span></div>''])\<close>

section \<open>The pages\<close>

text \<open>
  Only an array is drawn as a chart; anything else with fewer than two elements gives no chart and the rest
  ends in an exception.
\<close>

definition supply_point :: "jsval \<Rightarrow> int \<Rightarrow> int \<Rightarrow> jsval \<Rightarrow> html result" where
  "supply_point maxHeight minSupply spread p =
     bindr (js_get p ''height'') (\<lambda>ht. bindr (js_get p ''total_supply_fils'') (\<lambda>t. bindr (js_toBigInt t) (\<lambda>b.
       let x = js_add (Fin 8) (js_mul (js_div (js_toNumber ht) (js_toNumber maxHeight)) (Fin 584));
           frac = js_div (js_Number (big_quot ((b - minSupply) * 1000) spread)) (Fin 1000);
           y = js_sub (Fin 132) (js_mul frac (Fin 124))
       in lit (js_toFixed 1 x @ '','' @ js_toFixed 1 y))))"

definition supplyChartSvg :: "jsval \<Rightarrow> html result" where \<open>
  supplyChartSvg points =
    bindr (js_get points ''length'') (\<lambda>len.
      if js_less (js_toNumber len) (Fin 2) then Inr []
      else bindr (js_array points) (\<lambda>ps. let end_point = last ps in
        bindr (js_get end_point ''height'') (\<lambda>ht.
        bindr (js_get end_point ''total_supply_fils'') (\<lambda>t. bindr (js_toBigInt t) (\<lambda>top.
        bindr (js_get (hd ps) ''total_supply_fils'') (\<lambda>u. bindr (js_toBigInt u) (\<lambda>minSupply.
          let maxHeight = js_or ht (JNum (Fin 1)); maxSupply = (if top = 0 then 1 else top);
              spread = (if maxSupply - minSupply = 0 then 1 else maxSupply - minSupply)
          in bindr (mapr (supply_point maxHeight minSupply spread) ps) (\<lambda>coords. html_lines [
               lit [],
               lit ''    <svg viewBox="0 0 600 140" style="width:100%;height:140px;">'',
               line [lit ''      <polyline points="'', Inr (html_join (units '' '') coords),
                 lit ''" fill="none" stroke="#D4AF37" stroke-width="2" />''],
               lit ''    </svg>'']))))))))\<close>

definition stat_tile :: "string \<Rightarrow> html result list \<Rightarrow> html result" where \<open>
  stat_tile label ps =
    line ([lit (''        <div class="stat-tile"><div class="label">'' @ label @ ''</div><div class="value">'')] @ ps @
      [lit ''</div></div>''])\<close>

definition home_html :: "jsval \<Rightarrow> jsval \<Rightarrow> html result" where \<open>
  home_html stats supply = html_lines [
    lit [],
    lit ''      <div class="stats-grid">'',
    stat_tile ''Height'' [bindr (js_get stats ''height'') js_toLocaleString],
    stat_tile ''Difficulty'' [bindr (js_get stats ''difficulty'') (\<lambda>d. lit (js_toPrecision 4 (js_toNumber d)))],
    stat_tile ''Block reward'' [field_fic stats ''fixed_reward_fils'', lit '' + fees''],
    stat_tile ''Total supply'' [field_fic stats ''total_supply_fils'', lit '' FIC''],
    lit ''      </div>'',
    lit ''      <div class="card">'',
    detail_row ''Best block'' ''v mono'' [lit ''<a href="#/block/'', field_str stats ''best_block_hash'', lit ''">'',
      field_short stats ''best_block_hash'' 10, lit ''</a>''],
    detail_row ''Chain'' ''v'' [field_str stats ''chain''],
    detail_row ''Genesis premine'' ''v'' [field_fic stats ''premine_total_fils'', lit '' FIC''],
    detail_row ''Fixed reward per block'' ''v'' [field_fic stats ''fixed_reward_fils'', lit '' FIC + fees''],
    detail_row ''Annual emission (constant)'' ''v'' [field_fic stats ''annual_emission_fils'', lit '' FIC/yr''],
    lit ''      </div>'',
    lit ''      <div class="card">'',
    lit ''        <h3 style="margin-top:0">Total supply</h3>'',
    line [lit ''        '', bindr (js_get supply ''points'') supplyChartSvg],
    lit ''        <p class="notice">Exact at every height: premine + 10 FIC &times; blocks staked since genesis. See <a href="#/staking">staking stats</a> for emission detail.</p>'',
    lit ''      </div>'',
    lit ''      <div class="card">'',
    lit ''        <a href="#/richlist">View rich list &rarr;</a>'',
    lit ''      </div>'',
    lit ''      <div class="card">'',
    lit ''        <p class="notice">Enter a block height, block hash, transaction id, or address above to look it up.'',
    lit ''        This page auto-refreshes every 20s.</p>'',
    lit ''      </div>'',
    lit ''    '']\<close>

definition richlist_row :: "nat \<Rightarrow> jsval \<Rightarrow> html result" where \<open>
  richlist_row i a = html_lines [
    lit [],
    lit ''              <tr>'',
    lit (''                <td>'' @ js_toString 10 (int i + 1) @ ''</td>''),
    line [lit ''                <td class="mono"><a href="#/address/'', field_str a ''address'', lit ''">'',
      field_short a ''address'' 14, lit ''</a></td>''],
    line [lit ''                <td>'', field_fic a ''balance_fils'', lit '' FIC</td>''],
    lit ''              </tr>'']\<close>

definition richlist_html :: "jsval \<Rightarrow> html result" where \<open>
  richlist_html data = html_lines [
    lit [],
    lit ''      <div class="card">'',
    lit ''        <h2 style="margin-top:0">Rich list</h2>'',
    line [lit ''        <p class="notice">Computed from blocks '', field_str data ''scanned_from_height'', lit ''&ndash;'',
      field_str data ''scanned_to_height'',
      bindr (js_get data ''truncated'') (\<lambda>t. lit (if js_truthy t then '' (older history not included -- see API note)'' else [])),
      lit ''.</p>''],
    lit ''        <table>'',
    lit ''          <thead><tr><th>#</th><th>Address</th><th>Balance</th></tr></thead>'',
    lit ''          <tbody>'',
    line [lit ''            '', bindr (js_get data ''addresses'') (rows_html richlist_row)],
    lit ''          </tbody>'',
    lit ''        </table>'',
    lit ''      </div>'',
    lit ''    '']\<close>

definition staking_html :: "jsval \<Rightarrow> html result" where \<open>
  staking_html s = html_lines [
    lit [],
    lit ''      <div class="card">'',
    lit ''        <h2 style="margin-top:0">Staking statistics</h2>'',
    detail_row ''Current block reward'' ''v'' [field_str s ''current_block_reward_fic'', lit '' FIC + fees, fixed''],
    detail_row ''Annual emission'' ''v'' [bindr (js_get s ''annual_emission_fic'') js_toLocaleString, lit '' FIC/yr''],
    detail_row ''Blocks/day (measured)'' ''v''
      [bindr (js_get s ''blocks_per_day'') (\<lambda>b. str (js_coalesce b (JStr ''-''))), lit '' '',
       bindr (js_get s ''measured_over_blocks'') (\<lambda>m.
         lit (if js_truthy m then ''(last '' @ js_String m @ '' blocks)'' else []))],
    detail_row ''Blocks/day (target)'' ''v'' [field_str s ''target_blocks_per_day''],
    detail_row ''Active stake weight'' ''v'' [lit ''not available''],
    detail_row ''Delegated (P2CS/cold) staking'' ''v'' [lit ''not built yet''],
    lit ''      </div>'',
    lit ''      <div class="card">'',
    line [lit ''        <p class="notice">'', field_str s ''note'', lit ''</p>''],
    lit ''      </div>'',
    lit ''    '']\<close>

text \<open>A link to a block where the value is there, another text where it is not.\<close>

definition block_link :: "jsval \<Rightarrow> string \<Rightarrow> string \<Rightarrow> html result" where \<open>
  block_link b k other =
    bindr (js_get b k) (\<lambda>h.
      if js_truthy h then line [lit ''<a href="#/block/'', str h, lit ''">'', shorten h 10, lit ''</a>''] else lit other)\<close>

definition block_badge :: "jsval \<Rightarrow> html result" where \<open>
  block_badge b =
    bindr (js_get b ''is_genesis'') (\<lambda>g.
      if js_truthy g then lit ''<span class="badge genesis">genesis</span>''
      else bindr (js_get b ''is_proof_of_stake'') (\<lambda>p.
        lit (if js_truthy p then ''<span class="badge pos">PoS</span>'' else ''<span class="badge pow">PoW</span>'')))\<close>

definition tx_kind :: "jsval \<Rightarrow> jsval \<Rightarrow> html result" where \<open>
  tx_kind b t =
    bindr (js_get t ''is_coinbase'') (\<lambda>c.
      if js_truthy c then
        bindr (js_get b ''is_genesis'') (\<lambda>g. let k = (if js_truthy g then ''genesis'' else ''coinbase'')
          in lit (''<span class="badge '' @ k @ ''">'' @ k @ ''</span>''))
      else bindr (js_get t ''is_coinstake'') (\<lambda>p.
        lit (if js_truthy p then ''<span class="badge pos">coinstake</span>'' else ''transfer'')))\<close>

definition block_tx_row :: "jsval \<Rightarrow> nat \<Rightarrow> jsval \<Rightarrow> html result" where \<open>
  block_tx_row b i t = html_lines [
    lit [],
    lit ''              <tr>'',
    line [lit ''                <td class="mono"><a href="#/tx/'', field_str t ''txid'', lit ''">'', field_short t ''txid'' 10, lit ''</a></td>''],
    line [lit ''                <td>'', tx_kind b t, lit ''</td>''],
    line [lit ''                <td>'', field_fic t ''output_total_fils'', lit '' FIC</td>''],
    lit ''              </tr>'']\<close>

definition block_html :: "jsval \<Rightarrow> html result" where \<open>
  block_html b = bindr (block_badge b) (\<lambda>badge. html_lines [
    lit [],
    lit ''      <div class="card">'',
    line [lit ''        <h2 style="margin-top:0">Block '', field_str b ''height'', lit '' '', Inr badge, lit ''</h2>''],
    detail_row ''Hash'' ''v mono'' [field_str b ''hash''],
    detail_row ''Time'' ''v'' [bindr (js_get b ''time'') (\<lambda>t. bindr (formatTime t) lit)],
    detail_row ''Difficulty'' ''v'' [field_str b ''difficulty''],
    detail_row ''Bits'' ''v mono'' [field_str b ''bits''],
    detail_row ''Merkle root'' ''v mono'' [field_short b ''merkleroot'' 10],
    detail_row ''Previous block'' ''v mono'' [block_link b ''previousblockhash'' ''-''],
    detail_row ''Next block'' ''v mono'' [block_link b ''nextblockhash'' ''(tip)''],
    lit ''      </div>'',
    lit ''      <div class="card">'',
    line [lit ''        <h3 style="margin-top:0">Transactions ('', field_str b ''tx_count'', lit '')</h3>''],
    lit ''        <table>'',
    lit ''          <thead><tr><th>Txid</th><th>Type</th><th>Outputs</th></tr></thead>'',
    lit ''          <tbody>'',
    line [lit ''            '', bindr (js_get b ''transactions'') (rows_html (block_tx_row b))],
    lit ''          </tbody>'',
    lit ''        </table>'',
    lit ''      </div>'',
    lit ''    ''])\<close>

definition tx_badge :: "jsval \<Rightarrow> html result" where \<open>
  tx_badge t =
    bindr (js_get t ''is_coinbase'') (\<lambda>c.
      if js_truthy c then lit ''<span class="badge coinbase">coinbase</span>''
      else bindr (js_get t ''is_coinstake'') (\<lambda>p.
        lit (if js_truthy p then ''<span class="badge pos">coinstake</span>'' else ''transfer'')))\<close>

text \<open>A row that only appears where the amount is not \<open>null\<close>.\<close>

definition reward_row :: "jsval \<Rightarrow> string \<Rightarrow> string \<Rightarrow> html result" where \<open>
  reward_row t k label =
    line [lit ''        '', bindr (js_get t k) (\<lambda>r.
      if r = JNull then lit []
      else line [lit (''<div class="detail-row"><span class="k">'' @ label @ ''</span><span class="v">''), fic r,
        lit '' FIC</span></div>''])]\<close>

definition input_row :: "nat \<Rightarrow> jsval \<Rightarrow> html result" where \<open>
  input_row i vin =
    bindr (js_get vin ''coinbase'') (\<lambda>c.
      if js_truthy c then
        line [lit ''<div class="detail-row"><span class="k">Coinbase</span><span class="v mono">'', str c, lit ''</span></div>'']
      else
        line [lit ''<div class="detail-row"><span class="k mono">'', field_short vin ''txid'' 10, lit '':'', field_str vin ''vout'',
          lit ''</span><span class="v"></span></div>''])\<close>

definition vout_name :: "jsval \<Rightarrow> html result" where
  "vout_name vout =
     bindr (js_get vout ''scriptPubKey'') (\<lambda>k. bindr (js_get k ''address'') (\<lambda>a.
       if js_truthy a then str a
       else bindr (js_get k ''type'') (\<lambda>t. str (js_or t (JStr ''(no address)'')))))"

definition output_row :: "nat \<Rightarrow> jsval \<Rightarrow> html result" where \<open>
  output_row i vout = html_lines [
    lit [],
    lit ''          <div class="detail-row">'',
    line [lit ''            <span class="k mono">'', vout_name vout, lit ''</span>''],
    line [lit ''            <span class="v">'',
      bindr (js_get vout ''value'') (\<lambda>v. fic (JNum (math_round (js_mul (js_toNumber v) (js_Number COIN))))), lit '' FIC</span>''],
    lit ''          </div>'']\<close>

definition field_length :: "jsval \<Rightarrow> string \<Rightarrow> html result" where
  "field_length v k = bindr (js_get v k) (\<lambda>x. field_str x ''length'')"

definition tx_html :: "jsval \<Rightarrow> html result" where \<open>
  tx_html t = bindr (tx_badge t) (\<lambda>badge. html_lines [
    lit [],
    lit ''      <div class="card">'',
    line [lit ''        <h2 style="margin-top:0">Transaction '', Inr badge, lit ''</h2>''],
    detail_row ''Txid'' ''v mono'' [field_str t ''txid''],
    detail_row ''Block'' ''v'' [bindr (js_get t ''height'') (\<lambda>h.
      if h = JNull then lit ''unconfirmed''
      else line [lit ''<a href="#/block/'', field_str t ''blockhash'', lit ''">'', str h, lit ''</a>''])],
    detail_row ''Confirmations'' ''v'' [field_str t ''confirmations''],
    detail_row ''Time'' ''v'' [bindr (js_get t ''time'') (\<lambda>u. bindr (formatTime u) lit)],
    reward_row t ''reward_fils'' ''Staking reward (fixed + fees)'',
    reward_row t ''reward_fees_fils'' ''&nbsp;&nbsp;of which fees'',
    lit ''      </div>'',
    lit ''      <div class="card">'',
    line [lit ''        <h3 style="margin-top:0">Inputs ('', field_length t ''vin'', lit '')</h3>''],
    line [lit ''        '', bindr (js_get t ''vin'') (rows_html input_row)],
    lit ''      </div>'',
    lit ''      <div class="card">'',
    line [lit ''        <h3 style="margin-top:0">Outputs ('', field_length t ''vout'', lit '')</h3>''],
    line [lit ''        '', bindr (js_get t ''vout'') (rows_html output_row)],
    lit ''      </div>'',
    lit ''    ''])\<close>

definition utxo_row :: "nat \<Rightarrow> jsval \<Rightarrow> html result" where \<open>
  utxo_row i u = html_lines [
    lit [],
    lit ''              <tr>'',
    line [lit ''                <td class="mono"><a href="#/tx/'', field_str u ''txid'', lit ''">'', field_short u ''txid'' 10, lit ''</a>:'',
      field_str u ''vout'', lit ''</td>''],
    line [lit ''                <td>'', bindr (js_get u ''height'') (\<lambda>h.
      if h = JNull then lit ''-'' else line [lit ''<a href="#/block/'', str h, lit ''">'', str h, lit ''</a>'']), lit ''</td>''],
    line [lit ''                <td>'', field_fic u ''value_fils'', lit '' FIC '', bindr (js_get u ''is_coinbase_or_coinstake'') (\<lambda>c.
      lit (if js_truthy c then ''<span class="badge coinbase">coinbase/stake</span>'' else [])), lit ''</td>''],
    lit ''              </tr>'']\<close>

definition address_html :: "jsval \<Rightarrow> html result" where \<open>
  address_html a = html_lines [
    lit [],
    lit ''      <div class="card">'',
    lit ''        <h2 style="margin-top:0">Address</h2>'',
    detail_row ''Address'' ''v mono'' [field_str a ''address''],
    detail_row ''Balance'' ''v'' [field_fic a ''balance_fils'', lit '' FIC''],
    detail_row ''UTXOs'' ''v'' [field_str a ''utxo_count''],
    lit ''      </div>'',
    lit ''      <div class="card">'',
    line [lit ''        <p class="notice">'', field_str a ''note'', lit ''</p>''],
    lit ''      </div>'',
    lit ''      <div class="card">'',
    lit ''        <h3 style="margin-top:0">Unspent outputs</h3>'',
    lit ''        <table>'',
    lit ''          <thead><tr><th>Txid</th><th>Height</th><th>Value</th></tr></thead>'',
    lit ''          <tbody>'',
    line [lit ''            '', bindr (js_get a ''utxos'') (rows_html utxo_row)],
    lit ''          </tbody>'',
    lit ''        </table>'',
    lit ''      </div>'',
    lit ''    '']\<close>

section \<open>Times and amounts read back\<close>

lemma seconds_split:
  fixes r :: int
  assumes "0 \<le> r" "r < 86400"
  shows "r div 3600 * 3600 + r div 60 mod 60 * 60 + r mod 60 = r" "0 \<le> r div 3600" "r div 3600 < 24"
proof -
  have "r div 3600 = r div 60 div 60" using zdiv_zmult2_eq [of 60 r 60] by simp
  then show "r div 3600 * 3600 + r div 60 mod 60 * 60 + r mod 60 = r"
    using mult_div_mod_eq [of 60 r] mult_div_mod_eq [of 60 "r div 60"] by linarith
  show "0 \<le> r div 3600" "r div 3600 < 24" using assms div_bounds [of 3600 r] by simp_all
qed

lemma iso_seconds:
  assumes "t div 86400 = d" "t mod 86400 = r" "year_of_day d = y" "month_of_day (month_lengths (leap_year y)) (d - year_start y) = (m, k)"
    "0 \<le> y" "y \<le> 9999"
  shows "iso_text (t * 1000) = padded 4 y @ ''-'' @ padded 2 (int m + 1) @ ''-'' @ padded 2 (k + 1) @ ''T'' @
    padded 2 (r div 3600) @ '':'' @ padded 2 (r div 60 mod 60) @ '':'' @ padded 2 (r mod 60) @ ''.000Z''"
proof -
  have ms: "t * 1000 div 86400000 = d" "t * 1000 mod 86400000 = r * 1000"
    using div_mult_mult2 [of 1000 t 86400] mult_mod_left [of t 86400 1000] assms by simp_all
  have parts: "r * 1000 div 3600000 = r div 3600" "r * 1000 div 60000 = r div 60"
    using div_mult_mult2 [of 1000 r 3600] div_mult_mult2 [of 1000 r 60] by simp_all
  have z: "padded 3 0 = ''000''" by code_simp
  show ?thesis unfolding iso_text_def Let_def ms assms(3,4) year_text_def parts using assms(5,6) by (simp add: z)
qed

text \<open>The six numbers of a date and time.\<close>

definition clock_ok :: "string list \<Rightarrow> int \<Rightarrow> bool" where
  "clock_ok ps t =
     (case map dec_val ps of
        [y, mo, da, h, mi, se] \<Rightarrow>
          map length ps = [4, 2, 2, 2, 2, 2] \<and> list_all (list_all dec_digit) ps \<and>
          (days_to_year y + sum_list (take (nat (mo - 1)) (month_lengths (leap_year y))) + (da - 1)) * 86400 + h * 3600 + mi * 60 + se = t
      | _ \<Rightarrow> False)"

lemma clock_okI:
  assumes "(days_to_year y + sum_list (take m (month_lengths (leap_year y))) + k) * 86400 + h * 3600 + mi * 60 + se = t"
    "0 \<le> y" "y \<le> 9999" "m < 12" "0 \<le> k" "k < 31" "0 \<le> h" "h < 24" "0 \<le> mi" "mi < 60" "0 \<le> se" "se < 60"
  shows "clock_ok [padded 4 y, padded 2 (int m + 1), padded 2 (k + 1), padded 2 h, padded 2 mi, padded 2 se] t"
proof -
  have p: "length (padded 2 i) = 2 \<and> list_all dec_digit (padded 2 i) \<and> dec_val (padded 2 i) = i" if "0 \<le> i" "i < 100" for i
    using padded_spec [of i 2] that by simp
  have "length (padded 4 y) = 4 \<and> list_all dec_digit (padded 4 y) \<and> dec_val (padded 4 y) = y"
    using padded_spec [of y 4] assms(2,3) by simp
  moreover have "nat (int m + 1 - 1) = m" "k + 1 - 1 = k" by simp_all
  ultimately show ?thesis
    using assms p [of "int m + 1"] p [of "k + 1"] p [of h] p [of mi] p [of se] by (simp add: clock_ok_def)
qed

lemma clock_text:
  assumes "0 \<le> t" "t < 253402300800"
  shows "\<exists>y mo da h mi se. iso_text (t * 1000) = y @ ''-'' @ mo @ ''-'' @ da @ ''T'' @ h @ '':'' @ mi @ '':'' @ se @ ''.000Z'' \<and>
    clock_ok [y, mo, da, h, mi, se] t"
proof -
  define d r where "d = t div 86400" and "r = t mod 86400"
  have d: "0 \<le> d" "d < 2932897" and r: "0 \<le> r" "r < 86400" and t: "d * 86400 + r = t"
    using assms div_bounds [of 86400 t] by (simp_all add: d_def r_def pos_imp_zdiv_nonneg_iff)
  obtain y m k where ymk: "year_of_day d = y" "month_of_day (month_lengths (leap_year y)) (d - year_start y) = (m, k)"
      "1970 \<le> y" "y \<le> 9999" "m < 12" "0 \<le> k" "k < 31" "days_to_year y + sum_list (take m (month_lengths (leap_year y))) + k = d"
    using day_date [OF d] by blast
  have "clock_ok [padded 4 y, padded 2 (int m + 1), padded 2 (k + 1), padded 2 (r div 3600), padded 2 (r div 60 mod 60), padded 2 (r mod 60)] t"
  proof (rule clock_okI)
    show "(days_to_year y + sum_list (take m (month_lengths (leap_year y))) + k) * 86400 + r div 3600 * 3600 + r div 60 mod 60 * 60 + r mod 60 = t"
      unfolding ymk(8) using seconds_split(1) [OF r] t by linarith
  qed (use seconds_split(2,3) [OF r] ymk(3-7) in simp_all)
  then show ?thesis using iso_seconds [OF d_def [symmetric] r_def [symmetric] ymk(1,2)] ymk(3,4) by fastforce
qed

text \<open>
  C40: A block's or transaction's time, in seconds, is shown as its date and time in UTC: four digits of the year, two
  each of month, day, hour, minute and second, which read back to the same second (counting the days of
  the years since 1970 and of the months), up to the end of the year 9999.
\<close>

theorem formatTime_reads_back:
  assumes "0 < t" "t < 253402300800"
  shows "\<exists>text. formatTime (js_int t) = Inr text \<and> length text = 23 \<and> drop 19 text = '' UTC'' \<and> read_utc text = t"
proof -
  obtain y mo da h mi se where iso: "iso_text (t * 1000) = y @ ''-'' @ mo @ ''-'' @ da @ ''T'' @ h @ '':'' @ mi @ '':'' @ se @ ''.000Z''"
    and ok: "clock_ok [y, mo, da, h, mi, se] t"
    using clock_text [of t] assms by auto
  have len: "length y = 4" "length mo = 2" "length da = 2" "length h = 2" "length mi = 2" "length se = 2"
    and dig: "\<forall>c \<in> set (y @ mo @ da @ h @ mi @ se). dec_digit c" using ok by (auto simp: clock_ok_def list_all_iff)
  have "\<not> dec_digit (CHR ''T'')" "\<not> dec_digit (CHR ''.'')" by code_simp+
  then have no: "CHR ''T'' \<notin> set (y @ mo @ da @ h @ mi @ se)" "CHR ''.'' \<notin> set (y @ mo @ da @ h @ mi @ se)" using dig by metis+
  let ?text = "y @ ''-'' @ mo @ ''-'' @ da @ '' '' @ h @ '':'' @ mi @ '':'' @ se @ '' UTC''"
  have "js_replace_first ''T'' '' '' (iso_text (t * 1000)) = y @ ''-'' @ mo @ ''-'' @ da @ '' '' @ h @ '':'' @ mi @ '':'' @ se @ ''.000Z''"
    unfolding iso using replace_first [of "CHR ''T''" "y @ ''-'' @ mo @ ''-'' @ da" "[]" "'' ''"] no(1) by simp
  moreover have "js_replace_first ''.000Z'' '' UTC'' (y @ ''-'' @ mo @ ''-'' @ da @ '' '' @ h @ '':'' @ mi @ '':'' @ se @ ''.000Z'') = ?text"
    using replace_first [of "CHR ''.''" "y @ ''-'' @ mo @ ''-'' @ da @ '' '' @ h @ '':'' @ mi @ '':'' @ se" "''000Z''" "'' UTC''" "[]"] no(2) by simp
  moreover have "\<lfloor>rat_of_int t * 1000\<rfloor> = t * 1000" using floor_of_int [of "t * 1000", where 'a = rat] by simp
  then have "toISOString (js_mul (Fin (of_int t)) (Fin 1000)) = Inr (iso_text (t * 1000))"
    using round_double_int [of "t * 1000"] assms by (simp add: toISOString_def)
  ultimately have "formatTime (js_int t) = Inr ?text" using assms by (simp add: formatTime_def js_int_def js_truthy_num_def)
  moreover have "read_utc ?text = t" using ok len by (simp add: read_utc_def clock_ok_def Let_def)
  ultimately show ?thesis using len by (intro exI [of _ ?text]) simp
qed

theorem formatTime_reads_back_witness:
  "\<exists>text. formatTime (js_int 1700000000) = Inr text \<and> read_utc text = 1700000000"
  using formatTime_reads_back [of 1700000000] by auto

text \<open>An amount of either sign, its digits in groups, reads back to the same number of fils.\<close>

lemma explorerFormatFic_reads:
  "\<exists>w f. explorerFormatFic n = (if n < 0 then ''-'' else []) @ w @ ''.'' @ f \<and> length f = 8 \<and>
    dec_val (filter (\<lambda>c. c \<noteq> CHR '','') w) * COIN + dec_val f = \<bar>n\<bar>"
proof -
  let ?w = "\<bar>n\<bar> div COIN"
  have q: "big_div \<bar>n\<bar> COIN = ?w" "big_mod \<bar>n\<bar> COIN = \<bar>n\<bar> mod COIN" "0 \<le> ?w"
    using big_div_nonneg [of "\<bar>n\<bar>" COIN] by (simp_all add: COIN_def)
  obtain ds where ds: "js_toString 10 ?w = map digit_char ds" "digits_ok ds" "from_base 10 ds = ?w" using int_digits [OF q(3)] by blast
  have "\<not> dec_digit (CHR '','')" by code_simp
  then have "CHR '','' \<notin> set (js_toString 10 ?w)" using ds by (auto simp: digits_ok_def list_all_iff dec_digit_char)
  then have "dec_val (filter (\<lambda>c. c \<noteq> CHR '','') (bigint_locale ?w)) = ?w"
    using group_digits_plain [of "js_toString 10 ?w"] dec_val_digits [OF ds(2)] ds(1,3) q(3) by (simp add: bigint_locale_def)
  moreover have f: "length (padded 8 (\<bar>n\<bar> mod COIN)) = 8" "dec_val (padded 8 (\<bar>n\<bar> mod COIN)) = \<bar>n\<bar> mod COIN"
    using padded_spec [of "\<bar>n\<bar> mod COIN" 8] by (simp_all add: COIN_def)
  moreover have "explorerFormatFic n = (if n < 0 then ''-'' else []) @ bigint_locale ?w @ ''.'' @ padded 8 (\<bar>n\<bar> mod COIN)"
    using q by (auto simp: explorerFormatFic_def padded_def Let_def abs_if split: if_splits)
  ultimately show ?thesis by (intro exI [of _ "bigint_locale ?w"] exI [of _ "padded 8 (\<bar>n\<bar> mod COIN)"]) simp
qed

end
