(* ===== verification/Explorer_Runs.thy ===== *)
theory Explorer_Runs
  imports Explorer Vault
begin

text \<open>
  The explorer at work: asking the API, the router, the search box and the timer
  that refreshes the start page, as a step relation in which loads overlap and
  finish in any order.
\<close>

section \<open>State\<close>

datatype page = BlockPage string | TxPage string | AddressPage string | RichlistPage | StakingPage

datatype load = LoadHome "jsval result" "jsval result" | LoadPage page "jsval result" | LoadSearch "jsval result"

record explorer = browser +
  app_html :: html
  location_hash :: string
  apiBase :: string
  homeRefreshTimer :: "nat option"
  intervals :: "nat list"
  nextInterval :: nat
  loads :: "load list"
  hashchanges :: nat

type_synonym 'a eio = "(explorer, 'a) io"

section \<open>The API\<close>

definition api_decode :: "response \<Rightarrow> jsval result" where
  "api_decode resp =
     bindr (json_parse (rs_body resp)) (\<lambda>data.
       if rs_ok resp then Inr data
       else bindr (js_get data ''error'') (\<lambda>e.
         Inl (Error (js_String (js_or e (JStr (''Request failed ('' @ js_toString 10 (rs_status resp) @ '')'')))))))"

definition api_request :: "string \<Rightarrow> string \<Rightarrow> request" where
  "api_request base path = \<lparr>rq_method = ''GET'', rq_url = base @ path, rq_headers = [], rq_body = None\<rparr>"

definition api :: "'p platform_scheme \<Rightarrow> string \<Rightarrow> jsval eio" where
  "api P path = bindm (getm apiBase) (\<lambda>b. bindm (fetch P (api_request b path)) (\<lambda>resp. liftr (api_decode resp)))"

text \<open>A promise somebody awaits later: its outcome as a value.\<close>

definition attempt :: "('s, 'a) io \<Rightarrow> ('s, 'a result) io" where
  "attempt m = (\<lambda>s. (Inr (fst (m s)), snd (m s)))"

definition begin_load :: "load \<Rightarrow> unit eio" where
  "begin_load l = modm (\<lambda>s. s\<lparr>loads := loads s @ [l]\<rparr>)"

section \<open>Rendering\<close>

definition render :: "html \<Rightarrow> unit eio" where
  "render h = modm (\<lambda>s. s\<lparr>app_html := h\<rparr>)"

definition renderError :: "string \<Rightarrow> unit eio" where \<open>
  renderError message = render (units (''<div class="card error">'' @ message @ ''</div>''))\<close>

definition loading_notice :: html where \<open>
  loading_notice = units ''<div class="notice">Loading'' @ ellipsis @ units ''</div>''\<close>

definition richlist_notice :: html where \<open>
  richlist_notice = units ''<div class="notice">Loading (this scans recent blocks, may take a moment)'' @ ellipsis @ units ''</div>''\<close>

definition stop_refresh :: "unit eio" where
  "stop_refresh =
     bindm (getm homeRefreshTimer) (\<lambda>h. case h of None \<Rightarrow> ret ()
       | Some i \<Rightarrow> modm (\<lambda>s. s\<lparr>intervals := remove1 i (intervals s), homeRefreshTimer := None\<rparr>))"

definition start_refresh :: "unit eio" where
  "start_refresh = modm (\<lambda>s. s\<lparr>homeRefreshTimer := Some (nextInterval s), intervals := intervals s @ [nextInterval s],
     nextInterval := nextInterval s + 1\<rparr>)"

definition renderHome :: "'p platform_scheme \<Rightarrow> unit eio" where
  "renderHome P = do_all [
     stop_refresh,
     render loading_notice,
     bindm (attempt (api P ''/api/stats'')) (\<lambda>stats. bindm (attempt (api P ''/api/supply-series'')) (\<lambda>supply.
       begin_load (LoadHome stats supply)))]"

text \<open>\<open>Promise.all\<close> of two; when both fail, the one that failed first decides.\<close>

definition promise_all :: "bool \<Rightarrow> 'a result \<Rightarrow> 'b result \<Rightarrow> ('a \<times> 'b) result" where
  "promise_all second_first a b =
     (case (a, b) of
        (Inr x, Inr y) \<Rightarrow> Inr (x, y)
      | (Inl e, Inr _) \<Rightarrow> Inl e
      | (Inr _, Inl e) \<Rightarrow> Inl e
      | (Inl e, Inl e') \<Rightarrow> Inl (if second_first then e' else e))"

definition home_done :: "'p platform_scheme \<Rightarrow> bool \<Rightarrow> jsval result \<Rightarrow> jsval result \<Rightarrow> unit eio" where
  "home_done P second_first a b =
     catchm
       (bindm (liftr (promise_all second_first a b)) (\<lambda>(stats, supply).
        bindm (liftr (js_get stats ''chain'')) (\<lambda>chain. do_all [
          set_text ''chain-badge'' (if nullish chain then [] else js_String chain),
          bindm (liftr (home_html stats supply)) render,
          start_refresh])))
       (\<lambda>e. renderError (err_message P e))"

definition load_page :: "'p platform_scheme \<Rightarrow> page \<Rightarrow> html \<Rightarrow> string \<Rightarrow> unit eio" where
  "load_page P p notice path =
     thenm (render notice) (bindm (attempt (api P path)) (\<lambda>r. begin_load (LoadPage p r)))"

definition renderRichlist :: "'p platform_scheme \<Rightarrow> unit eio" where
  "renderRichlist P = load_page P RichlistPage richlist_notice ''/api/richlist?limit=25''"

definition renderStaking :: "'p platform_scheme \<Rightarrow> unit eio" where
  "renderStaking P = load_page P StakingPage loading_notice ''/api/staking-stats''"

definition renderBlock :: "'p platform_scheme \<Rightarrow> string \<Rightarrow> unit eio" where
  "renderBlock P ident = load_page P (BlockPage ident) loading_notice (''/api/block/'' @ ident)"

definition renderTx :: "'p platform_scheme \<Rightarrow> string \<Rightarrow> unit eio" where
  "renderTx P txid = load_page P (TxPage txid) loading_notice (''/api/tx/'' @ txid)"

definition renderAddress :: "'p platform_scheme \<Rightarrow> string \<Rightarrow> unit eio" where
  "renderAddress P address = load_page P (AddressPage address) loading_notice (''/api/address/'' @ address)"

fun page_html :: "page \<Rightarrow> jsval \<Rightarrow> html result" where
  "page_html (BlockPage _) b = block_html b"
| "page_html (TxPage _) t = tx_html t"
| "page_html (AddressPage _) a = address_html a"
| "page_html RichlistPage data = richlist_html data"
| "page_html StakingPage s = staking_html s"

definition page_done :: "'p platform_scheme \<Rightarrow> page \<Rightarrow> jsval result \<Rightarrow> unit eio" where
  "page_done P p r =
     catchm (bindm (liftr (bindr r (page_html p))) render) (\<lambda>e. renderError (err_message P e))"

section \<open>Router and search\<close>

text \<open>\<open>hash.replace(/^#\/?/, "")\<close>\<close>

definition strip_hash :: "string \<Rightarrow> string" where
  "strip_hash h =
     (if js_startsWith h ''#'' then (if js_startsWith (drop 1 h) ''/'' then drop 2 h else drop 1 h) else h)"

definition route_parts :: "string \<Rightarrow> string \<times> string" where
  "route_parts hash = (let parts = js_split (CHR ''/'') (strip_hash hash) in (hd parts, js_join ''/'' (tl parts)))"

definition route :: "'p platform_scheme \<Rightarrow> unit eio" where
  "route P =
     bindm (getm location_hash) (\<lambda>hash. let (kind, ident) = route_parts hash in
       thenm (whenm (kind \<noteq> []) stop_refresh)
         (if kind = [] then renderHome P
          else if kind = ''block'' then renderBlock P ident
          else if kind = ''tx'' then renderTx P ident
          else if kind = ''address'' then renderAddress P ident
          else if kind = ''richlist'' then renderRichlist P
          else if kind = ''staking'' then renderStaking P
          else renderError ''Unknown page''))"

text \<open>
  Assigning \<open>location.hash\<close>: tabs and line ends are dropped, controls, spaces, quotes, angle brackets, the
  grave accent and what is not ASCII are percent-encoded. A change queues a \<open>hashchange\<close> event.
\<close>

definition fragment_char :: "char \<Rightarrow> string" where
  "fragment_char c =
     (let n = (of_char c :: nat) in
      if n \<in> {9, 10, 13} then []
      else if n \<le> 32 \<or> 126 < n \<or> n \<in> {34, 60, 62, 96} then concat (map percent (map unat (text_encode [n])))
      else [c])"

definition fragment :: "string \<Rightarrow> string" where
  "fragment v = (let f = concat (map fragment_char (if js_startsWith v ''#'' then drop 1 v else v)) in if f = [] then [] else ''#'' @ f)"

definition set_hash :: "string \<Rightarrow> unit eio" where
  "set_hash v = modm (\<lambda>s. s\<lparr>location_hash := fragment v,
     hashchanges := (if fragment v = location_hash s then hashchanges s else hashchanges s + 1)\<rparr>)"

definition doSearch :: "'p platform_scheme \<Rightarrow> unit eio" where
  "doSearch P =
     bindm (get_value ''search-input'') (\<lambda>v. let q = js_trim v in
       whenm (q \<noteq> []) (bindm (attempt (api P (''/api/search?q='' @ encodeURIComponent q))) (\<lambda>r. begin_load (LoadSearch r))))"

definition search_target :: "jsval \<Rightarrow> string result" where
  "search_target result =
     bindr (js_get result ''type'') (\<lambda>t. bindr (js_get result ''id'') (\<lambda>i. Inr (''#/'' @ js_String t @ ''/'' @ js_String i)))"

definition search_done :: "'p platform_scheme \<Rightarrow> jsval result \<Rightarrow> unit eio" where
  "search_done P r =
     catchm (bindm (liftr (bindr r search_target)) set_hash) (\<lambda>e. renderError (err_message P e))"

definition on_search_key :: "'p platform_scheme \<Rightarrow> string \<Rightarrow> unit eio" where
  "on_search_key P key = whenm (key = ''Enter'') (doSearch P)"

section \<open>Steps\<close>

definition on_refresh :: "'p platform_scheme \<Rightarrow> unit eio" where
  "on_refresh P = bindm (getm location_hash) (\<lambda>h. whenm (h = [] \<or> h = ''#/'') (renderHome P))"

fun load_done :: "'p platform_scheme \<Rightarrow> bool \<Rightarrow> load \<Rightarrow> unit eio" where
  "load_done P second_first (LoadHome a b) = home_done P second_first a b"
| "load_done P _ (LoadPage p r) = page_done P p r"
| "load_done P _ (LoadSearch r) = search_done P r"

definition explorer_page :: "(string \<rightharpoonup> string) \<Rightarrow> string \<Rightarrow> explorer" where
  "explorer_page store hash =
     \<lparr>localStore = store, sessionStore = Map.empty, textContent = \<lambda>_. [], innerHTML = \<lambda>_. [], inputValue = \<lambda>_. [],
      display = \<lambda>_. [], disabled = \<lambda>_. False, active = \<lambda>_. False, requests = [], opened = [], clipboard = None,
      app_html = [], location_hash = hash, apiBase = item_or (store ''fic_explorer_api'') [], homeRefreshTimer = None,
      intervals = [], nextInterval = 1, loads = [], hashchanges = 0\<rparr>"

text \<open>
  The start page's refresh interval, an answer that arrives, a click on a link or
  an address typed, the queued event, and the search box.
\<close>

inductive explorer_step :: "platform \<Rightarrow> explorer \<Rightarrow> explorer \<Rightarrow> bool" for P :: platform where
  refresh: "h \<in> set (intervals s) \<Longrightarrow> explorer_step P s (snd (on_refresh P s))"
| arrive: "i < length (loads s) \<Longrightarrow>
    explorer_step P s (snd (load_done P first (loads s ! i) (s\<lparr>loads := take i (loads s) @ drop (Suc i) (loads s)\<rparr>)))"
| visit: "explorer_step P s (snd (set_hash v s))"
| hashchange: "0 < hashchanges s \<Longrightarrow> explorer_step P s (snd (route P (s\<lparr>hashchanges := hashchanges s - 1\<rparr>)))"
| search: "explorer_step P s (snd (doSearch P s))"
| search_key: "explorer_step P s (snd (on_search_key P k s))"
| typing: "explorer_step P s (snd (set_value ''search-input'' v s))"

definition explorer_reach :: "platform \<Rightarrow> explorer \<Rightarrow> explorer \<Rightarrow> bool" where
  "explorer_reach P = (explorer_step P)\<^sup>*\<^sup>*"

definition explorer_start :: "platform \<Rightarrow> (string \<rightharpoonup> string) \<Rightarrow> string \<Rightarrow> explorer" where
  "explorer_start P store hash = snd (route P (explorer_page store hash))"

section \<open>The refresh timer\<close>

lemma pres_attempt [pres_intros]: "pres Q m \<Longrightarrow> pres Q (attempt m)"
  by (simp add: pres_def attempt_def)

lemma pres_snd: "pres Q m \<Longrightarrow> Q s \<Longrightarrow> Q (snd (m s))"
  by (simp add: pres_def)

definition timer_view :: "explorer \<Rightarrow> nat option \<times> nat list \<times> nat" where
  "timer_view s = (homeRefreshTimer s, intervals s, nextInterval s)"

text \<open>A predicate of the timer that stopping and starting it keep.\<close>

locale timer_frame =
  fixes Q :: "explorer \<Rightarrow> bool"
  assumes of_view: "timer_view t = timer_view s \<Longrightarrow> Q s \<Longrightarrow> Q t"
    and stops: "Q s \<Longrightarrow> homeRefreshTimer s = Some i \<Longrightarrow>
      Q (s\<lparr>intervals := remove1 i (intervals s), homeRefreshTimer := None\<rparr>)"
    and starts: "Q s \<Longrightarrow> Q (s\<lparr>homeRefreshTimer := Some (nextInterval s), intervals := intervals s @ [nextInterval s],
      nextInterval := nextInterval s + 1\<rparr>)"
begin

lemma pres_view: "(\<And>s. timer_view (f s) = timer_view s) \<Longrightarrow> pres Q (modm f)"
  using of_view by (simp add: pres_def modm_def)

lemma pres_parts [pres_intros]: "pres Q (render h)" "pres Q (renderError m)" "pres Q (begin_load l)" "pres Q (set_text i v)"
  "pres Q (set_value i v)" "pres Q (set_hash v)" "pres Q (modm (\<lambda>s. s\<lparr>requests := g s\<rparr>))"
  by (simp_all add: render_def renderError_def begin_load_def set_text_def set_value_def set_hash_def pres_view timer_view_def)

lemma pres_timer [pres_intros]: "pres Q stop_refresh" "pres Q start_refresh"
proof -
  show "pres Q stop_refresh" unfolding pres_wp
    by (auto simp: stop_refresh_def wp_simps stops split: option.split)
  show "pres Q start_refresh" unfolding pres_wp by (simp add: start_refresh_def wp_simps starts del: add_Suc_right One_nat_def)
qed

lemma pres_api [pres_intros]: "pres Q (api P path)"
  by (simp add: api_def fetch_def pres_intros)

lemma pres_loads [pres_intros]: "pres Q (renderHome P)" "pres Q (load_page P p n path)" "pres Q (home_done P f a b)"
  "pres Q (page_done P p r)" "pres Q (doSearch P)" "pres Q (search_done P r)"
  by (simp_all add: renderHome_def load_page_def home_done_def page_done_def doSearch_def search_done_def pres_intros Let_def
      split: prod.split)

lemma pres_events [pres_intros]: "pres Q (route P)" "pres Q (on_refresh P)" "pres Q (on_search_key P k)" "pres Q (load_done P f l)"
  by (simp_all add: route_def on_refresh_def on_search_key_def renderBlock_def renderTx_def renderAddress_def renderRichlist_def
      renderStaking_def pres_intros Let_def split: prod.split) (cases l; simp add: pres_intros)

lemma step: "explorer_step P s t \<Longrightarrow> Q s \<Longrightarrow> Q t"
proof (induction rule: explorer_step.induct)
  case (arrive i s first)
  have "Q (s\<lparr>loads := take i (loads s) @ drop (Suc i) (loads s)\<rparr>)" by (rule of_view [OF _ arrive(2)]) (simp add: timer_view_def)
  then show ?case by (rule pres_snd [OF pres_events(4)])
next
  case (hashchange s)
  have "Q (s\<lparr>hashchanges := hashchanges s - 1\<rparr>)" by (rule of_view [OF _ hashchange(2)]) (simp add: timer_view_def)
  then show ?case by (rule pres_snd [OF pres_events(1)])
qed (auto intro: pres_snd pres_intros)

lemma reach: "explorer_reach P s t \<Longrightarrow> Q s \<Longrightarrow> Q t"
  unfolding explorer_reach_def by (induction rule: rtranclp_induct) (auto intro: step)

lemma started: "Q (explorer_page store hash) \<Longrightarrow> Q (explorer_start P store hash)"
  unfolding explorer_start_def by (rule pres_snd [OF pres_events(1)])

end

text \<open>
  Every running interval has its own number and the timer is one of them. An
  interval the timer has forgotten is \<open>stray\<close>.
\<close>

definition intervals_ok :: "explorer \<Rightarrow> bool" where
  "intervals_ok s =
     (distinct (intervals s) \<and> (\<forall>h \<in> set (intervals s). h < nextInterval s) \<and>
      (case homeRefreshTimer s of None \<Rightarrow> True | Some h \<Rightarrow> h \<in> set (intervals s)))"

definition stray :: "nat \<Rightarrow> explorer \<Rightarrow> bool" where
  "stray h s = (h \<in> set (intervals s) \<and> homeRefreshTimer s \<noteq> Some h \<and> h < nextInterval s)"

interpretation ok: timer_frame intervals_ok
proof
  show "intervals_ok t" if "timer_view t = timer_view s" "intervals_ok s" for s t
    using that by (auto simp: timer_view_def intervals_ok_def split: option.splits)
  show "intervals_ok (s\<lparr>intervals := remove1 i (intervals s), homeRefreshTimer := None\<rparr>)" if "intervals_ok s" for s i
    using that notin_set_remove1 by (fastforce simp: intervals_ok_def)
  show "intervals_ok (s\<lparr>homeRefreshTimer := Some (nextInterval s), intervals := intervals s @ [nextInterval s],
      nextInterval := nextInterval s + 1\<rparr>)" if "intervals_ok s" for s
    using that by (auto simp: intervals_ok_def)
qed

interpretation stray: timer_frame "stray h" for h
proof
  show "stray h t" if "timer_view t = timer_view s" "stray h s" for s t using that by (simp add: timer_view_def stray_def)
  show "stray h (s\<lparr>intervals := remove1 i (intervals s), homeRefreshTimer := None\<rparr>)"
    if "stray h s" "homeRefreshTimer s = Some i" for s i
    using that by (auto simp: stray_def in_set_remove1)
  show "stray h (s\<lparr>homeRefreshTimer := Some (nextInterval s), intervals := intervals s @ [nextInterval s],
      nextInterval := nextInterval s + 1\<rparr>)" if "stray h s" for s
    using that by (auto simp: stray_def)
qed

text \<open>
  C38: In every run of the explorer, with loads that overlap and finish in any order, every running refresh
  interval has its own number and the timer the page remembers is one of them. An interval the page does not
  remember is never stopped: it runs in every later state. (Two loads of the start page that overlap leave one.)
\<close>

theorem stray_refresh_stays:
  assumes "explorer_reach P (explorer_start P store hash) s"
  shows "distinct (intervals s) \<and> (\<forall>h. homeRefreshTimer s = Some h \<longrightarrow> h \<in> set (intervals s)) \<and>
    (\<forall>h \<in> set (intervals s). homeRefreshTimer s \<noteq> Some h \<longrightarrow> (\<forall>t. explorer_reach P s t \<longrightarrow> h \<in> set (intervals t) \<and>
      homeRefreshTimer t \<noteq> Some h))"
proof -
  have "intervals_ok (explorer_page store hash)" by (simp add: intervals_ok_def explorer_page_def)
  then have i: "intervals_ok s" by (rule ok.reach [OF assms ok.started])
  have "stray h t" if "h \<in> set (intervals s)" "homeRefreshTimer s \<noteq> Some h" "explorer_reach P s t" for h t
    using stray.reach [OF that(3), of h] that(1,2) i by (simp add: stray_def intervals_ok_def)
  then show ?thesis using i by (auto simp: intervals_ok_def stray_def)
qed

text \<open>An API that answers every question with the same object.\<close>

definition sample_stats :: jsval where
  "sample_stats = JObj [(''chain'', JStr ''main''), (''height'', JNum (Fin 0)), (''difficulty'', JNum (Fin 1)),
     (''fixed_reward_fils'', JNum (Fin 0)), (''total_supply_fils'', JNum (Fin 0)), (''best_block_hash'', JStr ''00''),
     (''premine_total_fils'', JNum (Fin 0)), (''annual_emission_fils'', JNum (Fin 0)), (''points'', JArr [])]"

definition sample_api :: "jsval \<Rightarrow> platform" where
  "sample_api v = sample_platform\<lparr>p_fetch := \<lambda>_ _. Inr \<lparr>rs_ok = True, rs_status = 200, rs_body = json_stringify v\<rparr>\<rparr>"

lemma api_sample:
  "json_ok v \<Longrightarrow> api (sample_api v) path s = (Inr v, s\<lparr>requests := requests s @ [api_request (apiBase s) path]\<rparr>)"
  by (simp add: api_def fetch_def api_decode_def sample_api_def bindm_def thenm_def getm_def modm_def liftr_def json_parse_stringify)

lemma sample_stats_ok: "json_ok sample_stats"
  by (simp add: sample_stats_def num_ok_def)

lemma sample_home: "\<exists>h. home_html sample_stats sample_stats = Inr h"
  by (simp add: home_html_def html_lines_def line_def lit_def stat_tile_def detail_row_def field_fic_def field_str_def field_short_def
      str_def fic_def shorten_def supplyChartSvg_def sample_stats_def js_truthy_num_def Let_def)

lemma explorer_reach_refl: "explorer_reach P s s"
  by (simp add: explorer_reach_def)

lemma explorer_reach_step: "explorer_step P s t \<Longrightarrow> explorer_reach P t u \<Longrightarrow> explorer_reach P s u"
  unfolding explorer_reach_def by (rule converse_rtranclp_into_rtranclp)

text \<open>What the loads and the timer become.\<close>

definition progress :: "explorer \<Rightarrow> string \<times> nat \<times> load list \<times> nat option \<times> nat list \<times> nat" where
  "progress s = (location_hash s, hashchanges s, loads s, timer_view s)"

lemma renderHome_progress:
  assumes "json_ok v" "homeRefreshTimer s = None"
  shows "progress (snd (renderHome (sample_api v) s)) =
    (location_hash s, hashchanges s, loads s @ [LoadHome (Inr v) (Inr v)], timer_view s)"
  by (simp add: renderHome_def stop_refresh_def render_def begin_load_def attempt_def api_sample [OF assms(1)] assms(2)
      thenm_def bindm_def getm_def modm_def ret_def progress_def timer_view_def)

lemma home_done_progress:
  assumes "home_html v v = Inr h" "js_get v ''chain'' = Inr c"
  shows "progress (snd (home_done P f (Inr v) (Inr v) s)) =
    (location_hash s, hashchanges s, loads s, Some (nextInterval s), intervals s @ [nextInterval s], nextInterval s + 1)"
  by (simp add: home_done_def promise_all_def assms render_def start_refresh_def set_text_def catchm_def
      thenm_def bindm_def getm_def modm_def liftr_def ret_def progress_def timer_view_def)

theorem stray_refresh_stays_witness:
  "\<exists>P s. explorer_reach P (explorer_start P Map.empty []) s \<and> intervals s = [1, 2] \<and> homeRefreshTimer s = Some 2 \<and>
    (\<forall>t. explorer_reach P s t \<longrightarrow> 1 \<in> set (intervals t))"
proof -
  let ?P = "sample_api sample_stats" and ?L = "LoadHome (Inr sample_stats) (Inr sample_stats)"
  obtain h where h: "home_html sample_stats sample_stats = Inr h" using sample_home by blast
  have chain: "js_get sample_stats ''chain'' = Inr (JStr ''main'')" by (simp add: sample_stats_def)
  define s0 where "s0 = explorer_start ?P Map.empty []"
  have r: "route ?P s = renderHome ?P s" if "location_hash s = [] \<or> location_hash s = ''#/''" for s
    using that by (auto simp: route_def route_parts_def strip_hash_def js_startsWith_def whenm_def bindm_def getm_def thenm_def ret_def)
  have s0: "progress s0 = ([], 0, [?L], None, [], 1)"
    unfolding s0_def explorer_start_def
    by (subst r) (simp_all add: renderHome_progress [OF sample_stats_ok] explorer_page_def timer_view_def)
  define s1 where "s1 = snd (set_hash ''#/'' s0)"
  have s1: "progress s1 = (''#/'', 1, [?L], None, [], 1)"
    using s0 by (simp add: s1_def set_hash_def modm_def progress_def timer_view_def fragment_def fragment_char_def js_startsWith_def)
  define s2 where "s2 = snd (route ?P (s1\<lparr>hashchanges := hashchanges s1 - 1\<rparr>))"
  have s2: "progress s2 = (''#/'', 0, [?L, ?L], None, [], 1)"
    unfolding s2_def using s1
    by (subst r) (simp_all add: progress_def timer_view_def renderHome_progress [OF sample_stats_ok, unfolded progress_def timer_view_def])
  define s3 where "s3 = snd (load_done ?P False (loads s2 ! 0) (s2\<lparr>loads := take 0 (loads s2) @ drop (Suc 0) (loads s2)\<rparr>))"
  have s3: "progress s3 = (''#/'', 0, [?L], Some 1, [1], 2)"
    unfolding s3_def using s2 by (simp add: progress_def timer_view_def home_done_progress [OF h chain, unfolded progress_def timer_view_def])
  define s4 where "s4 = snd (load_done ?P False (loads s3 ! 0) (s3\<lparr>loads := take 0 (loads s3) @ drop (Suc 0) (loads s3)\<rparr>))"
  have s4: "progress s4 = (''#/'', 0, [], Some 2, [1, 2], 3)"
    unfolding s4_def using s3 by (simp add: progress_def timer_view_def home_done_progress [OF h chain, unfolded progress_def timer_view_def])
  have a: "explorer_step ?P s0 s1" unfolding s1_def by (rule explorer_step.visit)
  have b: "explorer_step ?P s1 s2" using s1 unfolding s2_def by (intro explorer_step.hashchange) (simp add: progress_def)
  have c: "explorer_step ?P s2 s3" using s2 unfolding s3_def by (intro explorer_step.arrive) (simp add: progress_def)
  have d: "explorer_step ?P s3 s4" using s3 unfolding s4_def by (intro explorer_step.arrive) (simp add: progress_def)
  have r4: "explorer_reach ?P (explorer_start ?P Map.empty []) s4"
    using a b c d unfolding s0_def [symmetric] by (blast intro: explorer_reach_step explorer_reach_refl)
  have v: "intervals s4 = [1, 2]" "homeRefreshTimer s4 = Some 2" using s4 by (simp_all add: progress_def timer_view_def)
  have "\<forall>t. explorer_reach ?P s4 t \<longrightarrow> 1 \<in> set (intervals t)" using stray_refresh_stays [OF r4] unfolding v by simp
  with r4 v show ?thesis by blast
qed

section \<open>Searching\<close>

definition plain_id :: "string \<Rightarrow> bool" where
  "plain_id i = list_all (\<lambda>c. fragment_char c = [c]) i"

lemma js_join_split: "js_join [d] (js_split d s) = s"
proof (induction s)
  case (Cons c s)
  obtain w ws where "js_split d s = w # ws" using js_split_nonempty [of d s] by (cases "js_split d s") auto
  with Cons show ?case by (cases ws) auto
qed simp

lemma fragment_chars_plain: "plain_id v \<Longrightarrow> concat (map fragment_char v) = v"
  by (induction v) (auto simp: plain_id_def)

lemma fragment_plain: "plain_id v \<Longrightarrow> v \<noteq> [] \<Longrightarrow> fragment (CHR ''#'' # v) = CHR ''#'' # v"
  by (simp add: fragment_def js_startsWith_def fragment_chars_plain)

lemma route_parts_page:
  assumes "CHR ''/'' \<notin> set k"
  shows "route_parts (''#/'' @ k @ ''/'' @ i) = (k, i)"
  using js_split_append [OF assms, of i] js_join_split [of "CHR ''/''" i]
  by (simp add: route_parts_def strip_hash_def js_startsWith_def Let_def)



end
