(* ===== verification/Spec2Isabelle.thy ===== *)
theory Spec2Isabelle
  imports Multisig_Spec Keys Vault Gateway Message Qr Service_Worker Wallet_Text Wallet_Send_Spec Wallet_Phrase Explorer_Runs
begin

text \<open>
  A verification of the two browser programs of First Islamic Coin: the web wallet
  (\<open>src/firstislamiccoin-web-wallet\<close>) and the block explorer (\<open>src/firstislamiccoin-explorer\<close>).

  \<^bold>\<open>The programs.\<close> The wallet is one page. \<open>app.js\<close> holds the state object and the handlers of the
  nine screens; it calls \<open>crypto.js\<close> (phrases, keys, addresses, transactions, multisig),
  \<open>message.js\<close> (signed messages), \<open>storage.js\<close> (the phrase at rest), \<open>gateway.js\<close> (the HTTP client of the
  staking service) and \<open>qr.js\<close> (camera scanner); \<open>sw.js\<close> shows push messages. The explorer's
  \<open>app.js\<close> renders the answers of its API and routes by the URL's hash.

  \<^bold>\<open>The language.\<close> \<open>Prelude\<close> has the result type (a throw is \<open>Inl\<close>) and the string and integer functions of
  JavaScript; a string is a list of code units below 256 (lists of code units where more are needed).
  \<open>Utf8\<close> is \<open>TextEncoder\<close> and \<open>TextDecoder\<close>, \<open>Codec\<close> hexadecimal and base64, \<open>Js_Number\<close> binary64 with its
  rounding, \<open>parseFloat\<close> and \<open>BigInt\<close> conversions (zero has no sign), \<open>Js_Print\<close> the shortest decimal of a number,
  \<open>Json\<close> and \<open>Json_Round\<close> JSON text and its round trip, \<open>Js_Value\<close> the conversions of parsed values,
  \<open>Js_Format\<close> locale, fixed and exponential notation, dates and URL encoding. \<open>Io\<close> is code with effects: a state in, an
  outcome and a state out, where a throw keeps what was changed before it; \<open>wp\<close> and \<open>pres\<close> reason about it.
  \<open>Browser\<close> is storage, elements and requests; \<open>Stored\<close> lists kept as JSON in the storage.

  \<^bold>\<open>\<open>crypto.js\<close>.\<close> \<open>Base58\<close>, \<open>Bech32\<close> and \<open>Address\<close> (encodings, networks, \<open>decodeAddress\<close>): decoding an address gives the
  hash it was made from, what is accepted as base58 belongs to the network, and two defects (bech32 checksums are not
  verified; some of the wallet's own addresses are refused). \<open>Wire\<close>, \<open>Der\<close>, \<open>Tx\<close>, \<open>Script\<close>, \<open>Tx_Sign\<close>: a serialised
  transaction is read back by a node's parser, the signed hash commits to every field, and every input of a built
  transaction passes the node's check of its script. \<open>Multisig\<close> and \<open>Multisig_Spec\<close>: scripts read back, signing adds
  only valid signatures, merging unites, a finalised transaction of at most two keys is valid and one of three or more
  is not. \<open>BumpFee\<close>: a replacement pays the same outputs and lowers only the change. \<open>Keys\<close>: watching an
  extended public key finds the addresses the wallet uses.

  \<^bold>\<open>The other modules.\<close> \<open>Vault\<close> is \<open>storage.js\<close> (PIN changes never lose the phrase, even when a write is refused),
  \<open>Gateway\<close> \<open>gateway.js\<close>, \<open>Message\<close> \<open>message.js\<close> (what is signed verifies), \<open>Qr\<close> the scanner as a step relation (at most
  one result, and one is delivered), \<open>Service_Worker\<close> \<open>sw.js\<close>.

  \<^bold>\<open>The screens (\<open>app.js\<close>).\<close> \<open>Wallet_State\<close> is the state object as a record over the browser, with the key and address
  caches; \<open>Wallet_Text\<close> formatting, payment URIs and escaping; \<open>Coin_Select\<close> the coin loop (the shortest leading run that
  pays); \<open>Wallet_Send\<close> and \<open>Wallet_Send_Spec\<close> sending (at most one transaction is sent, and it pays what was typed) and the
  log for fee bumping; \<open>Wallet_Lists\<close> address book and watch list as a refinement of plain lists; \<open>Wallet_Home\<close>,
  \<open>Wallet_History\<close>, \<open>Wallet_Staking\<close>, \<open>Wallet_Multisig\<close> the remaining screens, one definition for each function or listener.
  \<open>Wallet_Shell\<close> is the frame around them: switching screens, onboarding with its word quiz, the lock, the settings, loading.

  \<^bold>\<open>Runs of the wallet.\<close> \<open>Wallet_Events\<close> has every listener as an event, the place on the page where it can happen, and
  \<open>run\<close>: the states any sequence of possible events reaches from a first visit. \<open>Wallet_Frame\<close> shows once, in a locale, what
  the handlers leave alone; \<open>Wallet_Polling\<close> (one screen, one timer) and \<open>Wallet_Phrase\<close> (the phrase survives until it
  is deleted; the addresses in memory are those of the phrase, the network and the stored indices) instantiate it and treat
  the sixteen events that matter to them.

  \<^bold>\<open>The explorer.\<close> \<open>Explorer\<close> has the pages as HTML, hole by hole; \<open>Explorer_Runs\<close> the API, router, search and
  refresh timer as a step relation. There a page's question and the arrival of its answer are two steps, so loads overlap.

  \<^bold>\<open>Parameters.\<close> SHA-256, RIPEMD-160, secp256k1 signing and recovery, BIP39 and BIP32, Web Crypto, the QR library,
  \<open>Math.random\<close>, the camera, the clipboard, storage quota, engine error texts and HTTP responses are arguments (fields of
  \<open>env\<close> and \<open>platform\<close>). Where a theorem relies on one, the documented behaviour is a named hypothesis (\<open>signer_ok\<close>,
  \<open>gcm_ok\<close>, \<open>gcm_auth\<close>, \<open>public_derivation\<close>, \<open>random_ok\<close>, \<open>healthy\<close> and the like) and its witness has a concrete function.

  \<^bold>\<open>Bounds.\<close> Loops are structural recursion or have termination proofs. The quiz loop, which draws until it has
  three positions, is a \<open>partial_function\<close>, shown to return for every random source that keeps reaching each position. Loading
  the staking screen, which starts over after an expired session, is another, shown to return after at most two rounds. The shortest decimal
  of a number is searched among 799 digit counts; 17 digits always suffice. Numbers are exact where code
  keeps \<open>BigInt\<close> and rounded where it uses \<open>Number\<close>; theorems about amounts state the range they need.

  \<^bold>\<open>Not modelled.\<close> In the wallet an awaited call is one step: handlers do not interleave, a promise
  nobody awaits runs at once, and no other tab changes the storage. Layout and style are not modelled; of \<open>index.html\<close> the elements the code reads are. \<open>renderQr\<close>
  only calls its library. The servers (node, ElectrumX, staking service, the explorer's API), the mobile application,
  configuration and web site are other programs, reached only through HTTP; the parts of the node's rules
  the wallet must meet are reference definitions in \<open>Wire\<close>, \<open>Tx\<close> and \<open>Script\<close>.
\<close>

end
